theory Spec2Isabelle
  imports Main "HOL-Library.Word"
begin

unbundle bit_operations_syntax

section \<open>Data model of local.c\<close>

text \<open>
  The session state machine of the SOCKS5 proxy, as local.c writes it on top of libuv.
  Every C callback becomes a function from the session to the session. The libuv calls
  a callback makes are recorded, in order, in the field \<open>trace\<close>; what libuv
  returns from a call that can fail is an input (\<open>uv_rets\<close>).
\<close>

type_synonym byte = "8 word"

definition SESSION_DATA_BUFSIZ :: nat where
  "SESSION_DATA_BUFSIZ = 2048"

datatype IPVersion = IPV4 | IPV6

record ServerCfg =
  host :: string
  port :: "32 word"
  backlog :: "32 word"

text \<open>\<open>bound_ip\<close> is the 16-byte union; an IPv4 address is its first four bytes.\<close>

record ServerContext =
  server_cfg :: ServerCfg
  bound_ip_ver :: IPVersion
  bound_ip :: "byte list"

datatype SessionState =
  S5_METHOD_IDENTIFICATION | S5_REQUEST | S5_STREAMING | S5_STREAMING_END

text \<open>
  The union \<open>IPAddr\<close>: a \<open>sockaddr_in\<close> or a \<open>sockaddr_in6\<close>. The port is
  kept as the number that \<open>htons\<close> was applied to.
\<close>

datatype IPAddr = Addr4 "16 word" "byte list" | Addr6 "16 word" "byte list"

datatype family = AF_INET | AF_INET6 | AF_OTHER int

record addrinfo =
  ai_family :: family
  ai_addr :: "byte list"

text \<open>
  Modelled from the spec: socks5.h is not among the sources. \<open>S5Err\<close> has the
  enumerators local.c names (\<open>S5_OK\<close>, \<open>S5_UNSUPPORTED_CMD\<close>, \<open>S5_BAD_ATYP\<close>) and
  the other decoder errors of the specification; \<open>Socks5Ctx\<close> has the fields local.c
  reads (\<open>state\<close>, here \<open>parse_state\<close>, \<open>methods\<close>, \<open>atyp\<close>, \<open>dst_addr\<close>,
  \<open>dst_port\<close>) and the count of bytes the decoder still waits for.
\<close>

datatype S5Err =
  S5_OK | S5_BAD_VERSION | S5_BAD_NMETHODS | S5_BAD_RESERVED | S5_UNSUPPORTED_CMD | S5_BAD_ATYP

datatype S5ParseState =
  S5_PARSE_STATE_VERSION | S5_PARSE_STATE_NMETHODS | S5_PARSE_STATE_METHODS
  | S5_PARSE_STATE_REQ_CMD | S5_PARSE_STATE_REQ_RSV | S5_PARSE_STATE_REQ_ATYP
  | S5_PARSE_STATE_REQ_DST_ADDR_LEN | S5_PARSE_STATE_REQ_DST_ADDR
  | S5_PARSE_STATE_REQ_DST_PORT | S5_PARSE_STATE_FINISH

record Socks5Ctx =
  parse_state :: S5ParseState
  arg_count :: nat
  methods :: int
  atyp :: byte
  dst_addr :: "byte list"
  dst_port :: "16 word"

text \<open>Modelled from the spec (glossary): ATYP 1 = IPv4, 3 = domain name, 4 = IPv6.\<close>

definition S5_ATYP_IPV4 :: byte where "S5_ATYP_IPV4 = 1"
definition S5_ATYP_DOMAIN :: byte where "S5_ATYP_DOMAIN = 3"
definition S5_ATYP_IPV6 :: byte where "S5_ATYP_IPV6 = 4"

subsection \<open>What the program takes from its platform\<close>

text \<open>
  The constants of uv.h and socks5.h that local.c compares with, the decoder of
  socks5.c, the byte order of the machine and the server context \<open>g_server_ctx\<close> as
  \<open>do_bind_and_listen\<close> left it are parameters of the model.
\<close>

record Params =
  UV_ENETUNREACH :: int
  UV_EHOSTUNREACH :: int
  UV_ECONNREFUSED :: int
  S5Err_int :: "S5Err \<Rightarrow> int"
  S5_AUTH_NONE :: int
  socks5_parse_method_identification :: "Socks5Ctx \<Rightarrow> byte list \<Rightarrow> S5Err \<times> Socks5Ctx"
  socks5_parse_request :: "Socks5Ctx \<Rightarrow> byte list \<Rightarrow> S5Err \<times> Socks5Ctx"
  little_endian :: bool
  g_server_ctx :: ServerContext

subsection \<open>Handles, requests and the session\<close>

datatype handle = ClientTcp | UpstreamTcp

text \<open>Where the \<open>base\<close> of a \<open>uv_buf_t\<close> handed to \<open>uv_write\<close> points.\<close>

datatype bufbase = StringLiteral | StackBuf | ClientBuf | UpstreamBuf

text \<open>
  A \<open>uv_tcp_t\<close> as far as the program can observe it: whether it is reading, whether
  it is closing, whether a close callback is still to be called, and the writes handed
  to \<open>uv_write\<close> whose callbacks have not run yet.
\<close>

record uv_stream =
  reading :: bool
  closing :: bool
  close_cb :: bool
  write_queue :: "(bufbase \<times> byte list) list"

record uv_timer =
  timer_closing :: bool
  timer_active :: bool
  timer_close_cb :: bool

datatype event =
  ClientRead int "byte list"
  | UpstreamRead int "byte list"
  | ClientWriteDone int
  | UpstreamWriteDone int
  | ConnectDone int
  | AddrinfoDone int "addrinfo list"
  | ClientClosed
  | TimerFired
  | TimerClosed

datatype entry =
  Callback event
  | UvTcpInit handle
  | UvTcpKeepalive handle
  | UvAccept
  | UvReadStart handle
  | UvReadStop handle
  | UvClose handle
  | UvWrite handle bufbase "byte list"
  | UvTcpConnect IPAddr
  | UvGetaddrinfo "byte list"
  | UvTimerInit
  | UvTimerStart
  | UvTimerClose
  | Free

text \<open>
  The struct \<open>Session\<close>. \<open>upstream_connect_req\<close> and \<open>upstream_addrinfo_req\<close> hold
  the request that is pending, if one is. \<open>freed\<close> counts the calls of \<open>free(sess)\<close>.
\<close>

record Session =
  client_tcp :: uv_stream
  client_buf :: "byte list"
  upstream_tcp :: uv_stream
  upstream_addrinfo_req :: "byte list option"
  upstream_connect_req :: "IPAddr option"
  upstream_buf :: "byte list"
  timer_release_req :: uv_timer
  state :: SessionState
  socks5_ctx :: Socks5Ctx
  freed :: nat
  trace :: "entry list"

text \<open>What libuv returns from the calls that can fail, and the value of an
  uninitialised \<open>int\<close>.\<close>

record uv_rets =
  uv_tcp_init_ret :: "handle \<Rightarrow> int"
  uv_tcp_keepalive_ret :: "handle \<Rightarrow> int"
  uv_has_ref_ret :: "handle \<Rightarrow> bool"
  uv_accept_ret :: int
  uv_read_start_ret :: "handle \<Rightarrow> int"
  uv_write_ret :: "handle \<Rightarrow> int"
  uv_tcp_connect_ret :: "IPAddr \<Rightarrow> int"
  uv_getaddrinfo_ret :: int
  indeterminate_int :: int

section \<open>The libuv calls\<close>

definition emit :: "entry \<Rightarrow> Session \<Rightarrow> Session" where
  "emit a s = s\<lparr>trace := trace s @ [a]\<rparr>"

definition get_tcp :: "handle \<Rightarrow> Session \<Rightarrow> uv_stream" where
  "get_tcp h s = (case h of ClientTcp \<Rightarrow> client_tcp s | UpstreamTcp \<Rightarrow> upstream_tcp s)"

definition set_tcp :: "handle \<Rightarrow> uv_stream \<Rightarrow> Session \<Rightarrow> Session" where
  "set_tcp h v s =
     (case h of ClientTcp \<Rightarrow> s\<lparr>client_tcp := v\<rparr> | UpstreamTcp \<Rightarrow> s\<lparr>upstream_tcp := v\<rparr>)"

definition uv_tcp_init :: "uv_rets \<Rightarrow> handle \<Rightarrow> Session \<Rightarrow> int \<times> Session" where
  "uv_tcp_init R h s =
     (let err = uv_tcp_init_ret R h; s1 = emit (UvTcpInit h) s
      in (err, if err = 0
               then set_tcp h \<lparr>reading = False, closing = False, close_cb = False,
                                write_queue = []\<rparr> s1
               else s1))"

definition uv_tcp_keepalive :: "uv_rets \<Rightarrow> handle \<Rightarrow> Session \<Rightarrow> int \<times> Session" where
  "uv_tcp_keepalive R h s = (uv_tcp_keepalive_ret R h, emit (UvTcpKeepalive h) s)"

definition uv_accept :: "uv_rets \<Rightarrow> Session \<Rightarrow> int \<times> Session" where
  "uv_accept R s = (uv_accept_ret R, emit UvAccept s)"

definition uv_read_start :: "uv_rets \<Rightarrow> handle \<Rightarrow> Session \<Rightarrow> int \<times> Session" where
  "uv_read_start R h s =
     (let err = uv_read_start_ret R h; s1 = emit (UvReadStart h) s
      in (err, if err = 0 then set_tcp h ((get_tcp h s1)\<lparr>reading := True\<rparr>) s1 else s1))"

definition uv_read_stop :: "handle \<Rightarrow> Session \<Rightarrow> Session" where
  "uv_read_stop h s =
     (let s1 = emit (UvReadStop h) s in set_tcp h ((get_tcp h s1)\<lparr>reading := False\<rparr>) s1)"

definition uv_is_closing :: "handle \<Rightarrow> Session \<Rightarrow> bool" where
  "uv_is_closing h s = closing (get_tcp h s)"

text \<open>\<open>uv_close(handle, cb)\<close>; \<open>cb\<close> says whether a callback was given.\<close>

definition uv_close :: "handle \<Rightarrow> bool \<Rightarrow> Session \<Rightarrow> Session" where
  "uv_close h cb s =
     (let s1 = emit (UvClose h) s
      in set_tcp h ((get_tcp h s1)\<lparr>reading := False, closing := True, close_cb := cb\<rparr>) s1)"

definition uv_write ::
  "uv_rets \<Rightarrow> handle \<Rightarrow> bufbase \<Rightarrow> byte list \<Rightarrow> Session \<Rightarrow> int \<times> Session" where
  "uv_write R h base bytes s =
     (let err = uv_write_ret R h; s1 = emit (UvWrite h base bytes) s
      in (err, if err = 0
               then set_tcp h ((get_tcp h s1)
                      \<lparr>write_queue := write_queue (get_tcp h s1) @ [(base, bytes)]\<rparr>) s1
               else s1))"

definition uv_tcp_connect :: "uv_rets \<Rightarrow> IPAddr \<Rightarrow> Session \<Rightarrow> int \<times> Session" where
  "uv_tcp_connect R ipaddr s =
     (let err = uv_tcp_connect_ret R ipaddr; s1 = emit (UvTcpConnect ipaddr) s
      in (err, if err = 0 then s1\<lparr>upstream_connect_req := Some ipaddr\<rparr> else s1))"

definition uv_getaddrinfo :: "uv_rets \<Rightarrow> byte list \<Rightarrow> Session \<Rightarrow> int \<times> Session" where
  "uv_getaddrinfo R node s =
     (let err = uv_getaddrinfo_ret R; s1 = emit (UvGetaddrinfo node) s
      in (err, if err = 0 then s1\<lparr>upstream_addrinfo_req := Some node\<rparr> else s1))"

text \<open>\<open>uv_timer_init\<close> writes the handle's flags afresh; a close callback that is
  already queued stays queued.\<close>

definition uv_timer_init :: "Session \<Rightarrow> Session" where
  "uv_timer_init s =
     (let s1 = emit UvTimerInit s
      in s1\<lparr>timer_release_req :=
              (timer_release_req s1)\<lparr>timer_closing := False, timer_active := False\<rparr>\<rparr>)"

definition uv_timer_start :: "Session \<Rightarrow> Session" where
  "uv_timer_start s =
     (let s1 = emit UvTimerStart s
      in if timer_closing (timer_release_req s1) then s1
         else s1\<lparr>timer_release_req := (timer_release_req s1)\<lparr>timer_active := True\<rparr>\<rparr>)"

definition uv_timer_close :: "Session \<Rightarrow> Session" where
  "uv_timer_close s =
     (let s1 = emit UvTimerClose s
      in s1\<lparr>timer_release_req :=
              \<lparr>timer_closing = True, timer_active = False, timer_close_cb = True\<rparr>\<rparr>)"

definition free :: "Session \<Rightarrow> Session" where
  "free s = (emit Free s)\<lparr>freed := Suc (freed s)\<rparr>"

definition memcpy :: "byte list \<Rightarrow> nat \<Rightarrow> byte list \<Rightarrow> nat \<Rightarrow> byte list" where
  "memcpy dst off src n = take off dst @ take n src @ drop (off + n) dst"

text \<open>The bytes of an \<open>int\<close> object in memory, lowest address first.\<close>

definition int_bytes :: "bool \<Rightarrow> 32 word \<Rightarrow> byte list" where
  "int_bytes le w =
     (let lsb_first = [ucast w, ucast (drop_bit 8 w), ucast (drop_bit 16 w),
                       ucast (drop_bit 24 w)]
      in if le then lsb_first else rev lsb_first)"

section \<open>The close path\<close>

definition schedule_release_timer :: "Session \<Rightarrow> Session" where
  "schedule_release_timer sess = uv_timer_start (uv_timer_init sess)"

definition close_session :: "Session \<Rightarrow> Session" where
  "close_session sess =
     (let s1 = uv_read_stop UpstreamTcp sess;
          s2 = (if \<not> uv_is_closing UpstreamTcp s1 then uv_close UpstreamTcp False s1 else s1);
          s3 = uv_read_stop ClientTcp s2
      in if \<not> uv_is_closing ClientTcp s3 then uv_close ClientTcp True s3
         else schedule_release_timer s3)"

definition client_handle_close_cb :: "Session \<Rightarrow> Session" where
  "client_handle_close_cb sess = schedule_release_timer sess"

definition release_timer_cb :: "Session \<Rightarrow> Session" where
  "release_timer_cb sess =
     (if \<not> timer_closing (timer_release_req sess) then uv_timer_close sess else free sess)"

definition release_timer_handle_close_cb :: "Session \<Rightarrow> Session" where
  "release_timer_handle_close_cb sess = free sess"

section \<open>Accepting a connection\<close>

text \<open>\<open>lmalloc\<close> hands out the memory \<open>mem\<close>; \<open>create_session\<close> sets the phase.\<close>

definition create_session :: "Session \<Rightarrow> Session" where
  "create_session mem = mem\<lparr>state := S5_METHOD_IDENTIFICATION\<rparr>"

definition client_read_start :: "uv_rets \<Rightarrow> Session \<Rightarrow> int \<times> Session" where
  "client_read_start R s =
     (let (err, s1) = uv_read_start R ClientTcp s
      in (err, if err \<noteq> 0 then close_session s1 else s1))"

definition on_connection_new :: "uv_rets \<Rightarrow> Session \<Rightarrow> Session" where
  "on_connection_new R mem =
     (let sess = create_session mem;
          (err1, s1) = uv_tcp_init R ClientTcp sess
      in if err1 \<noteq> 0 then close_session s1
         else let (err2, s2) = uv_tcp_keepalive R ClientTcp s1
         in if err2 \<noteq> 0 then close_session s2
         else let (err3, s3) =
                    (if \<not> uv_has_ref_ret R UpstreamTcp then uv_tcp_init R UpstreamTcp s2
                     else (0, s2))
         in if err3 \<noteq> 0 then close_session s3
         else let (err4, s4) =
                    (if \<not> uv_has_ref_ret R UpstreamTcp then uv_tcp_keepalive R UpstreamTcp s3
                     else (0, s3))
         in if err4 \<noteq> 0 then close_session s4
         else let (err5, s5) = uv_accept R s4
         in if err5 \<noteq> 0 then close_session s5
         else snd (client_read_start R s5))"

section \<open>Writing to the client\<close>

definition client_write_start ::
  "uv_rets \<Rightarrow> bufbase \<Rightarrow> byte list \<Rightarrow> Session \<Rightarrow> int \<times> Session" where
  "client_write_start R base bytes s =
     (let (err, s1) = uv_write R ClientTcp base bytes s
      in (err, if err \<noteq> 0 then close_session s1 else s1))"

definition client_write_string ::
  "uv_rets \<Rightarrow> bufbase \<Rightarrow> byte list \<Rightarrow> nat \<Rightarrow> Session \<Rightarrow> int \<times> Session" where
  "client_write_string R base data len s = client_write_start R base (take len data) s"

text \<open>The \<open>switch\<close> of \<open>client_write_error\<close>, in the order of its cases.\<close>

definition client_write_error_rep :: "Params \<Rightarrow> int \<Rightarrow> byte" where
  "client_write_error_rep P err =
     (if err = UV_ENETUNREACH P then 3
      else if err = UV_EHOSTUNREACH P then 4
      else if err = UV_ECONNREFUSED P then 5
      else if err = S5Err_int P S5_UNSUPPORTED_CMD then 7
      else if err = S5Err_int P S5_BAD_ATYP then 8
      else 1)"

definition client_write_error :: "Params \<Rightarrow> uv_rets \<Rightarrow> int \<Rightarrow> Session \<Rightarrow> int \<times> Session" where
  "client_write_error P R err sess =
     (let buf = [5, 1, 0, 1, 0, 0, 0, 0, 0, 0];
          s1 = sess\<lparr>state := S5_STREAMING_END\<rparr>;
          buf1 = buf[1 := client_write_error_rep P err]
      in client_write_string R StackBuf buf1 10 s1)"

section \<open>The upstream side\<close>

definition upstream_read_start :: "uv_rets \<Rightarrow> Session \<Rightarrow> int \<times> Session" where
  "upstream_read_start R s =
     (let (err, s1) = uv_read_start R UpstreamTcp s
      in (err, if err \<noteq> 0 then close_session s1 else s1))"

definition upstream_write_start ::
  "uv_rets \<Rightarrow> bufbase \<Rightarrow> byte list \<Rightarrow> Session \<Rightarrow> int \<times> Session" where
  "upstream_write_start R base bytes s =
     (let (err, s1) = uv_write R UpstreamTcp base bytes s
      in (err, if err \<noteq> 0 then close_session s1 else s1))"

definition upstream_connect :: "uv_rets \<Rightarrow> IPAddr \<Rightarrow> Session \<Rightarrow> int \<times> Session" where
  "upstream_connect R ipaddr s = uv_tcp_connect R ipaddr s"

definition on_upstream_write_done :: "uv_rets \<Rightarrow> int \<Rightarrow> Session \<Rightarrow> Session" where
  "on_upstream_write_done R status sess =
     (if status < 0 \<or> state sess = S5_STREAMING_END then close_session sess
      else snd (client_read_start R sess))"

text \<open>\<open>buf->base\<close> is \<open>sess->upstream_buf\<close> (\<open>on_upstream_conn_alloc\<close>).\<close>

definition on_upstream_read_done :: "uv_rets \<Rightarrow> int \<Rightarrow> Session \<Rightarrow> Session" where
  "on_upstream_read_done R nread sess =
     (if nread = 0 then sess
      else let s1 = uv_read_stop UpstreamTcp sess
      in if nread < 0 \<or> state s1 = S5_STREAMING_END then close_session s1
         else snd (client_write_start R UpstreamBuf (take (nat nread) (upstream_buf s1)) s1))"

definition on_client_write_done :: "uv_rets \<Rightarrow> int \<Rightarrow> Session \<Rightarrow> Session" where
  "on_client_write_done R status sess =
     (if status < 0 \<or> state sess = S5_STREAMING_END then close_session sess
      else let s1 = snd (client_read_start R sess)
      in if state s1 = S5_STREAMING then snd (upstream_read_start R s1) else s1)"

text \<open>The loop of \<open>upstream_connect_domain\<close> over the resolved addresses; \<open>err\<close> is
  the local variable the loop assigns.\<close>

fun upstream_connect_domain_loop ::
  "Params \<Rightarrow> uv_rets \<Rightarrow> int \<Rightarrow> addrinfo list \<Rightarrow> Session \<Rightarrow> Session" where
  "upstream_connect_domain_loop P R err [] sess = snd (client_write_error P R err sess)"
| "upstream_connect_domain_loop P R err (ai # res) sess =
     (case ai_family ai of
        AF_OTHER f \<Rightarrow> upstream_connect_domain_loop P R err res sess
      | AF_INET \<Rightarrow>
          (let (err1, s1) =
                 upstream_connect R (Addr4 (dst_port (socks5_ctx sess)) (take 4 (ai_addr ai))) sess
           in if err1 \<noteq> 0 then upstream_connect_domain_loop P R err1 res s1 else s1)
      | AF_INET6 \<Rightarrow>
          (let (err1, s1) =
                 upstream_connect R (Addr6 (dst_port (socks5_ctx sess)) (take 16 (ai_addr ai))) sess
           in if err1 \<noteq> 0 then upstream_connect_domain_loop P R err1 res s1 else s1))"

definition upstream_connect_domain ::
  "Params \<Rightarrow> uv_rets \<Rightarrow> int \<Rightarrow> addrinfo list \<Rightarrow> Session \<Rightarrow> Session" where
  "upstream_connect_domain P R status res sess =
     (if status < 0 then snd (client_write_error P R status sess)
      else upstream_connect_domain_loop P R (indeterminate_int R) res sess)"

definition upstream_connect_cb :: "Params \<Rightarrow> uv_rets \<Rightarrow> int \<Rightarrow> Session \<Rightarrow> Session" where
  "upstream_connect_cb P R status sess =
     (if status < 0 then snd (client_write_error P R status sess)
      else let s1 = sess\<lparr>state := S5_STREAMING\<rparr>;
               ctx = g_server_ctx P;
               b0 = memcpy (client_buf s1) 0 [5, 0, 0, 1] 4
      in if bound_ip_ver ctx = IPV4
         then let b1 = memcpy b0 4 (bound_ip ctx) 4;
                  b2 = memcpy b1 8 (int_bytes (little_endian P) (port (server_cfg ctx))) 2;
                  s2 = s1\<lparr>client_buf := b2\<rparr>
              in snd (client_write_start R ClientBuf (take 10 (client_buf s2)) s2)
         else let b1 = memcpy b0 4 (bound_ip ctx) 16;
                  b2 = memcpy b1 20 (int_bytes (little_endian P) (port (server_cfg ctx))) 2;
                  s2 = s1\<lparr>client_buf := b2\<rparr>
              in snd (client_write_start R ClientBuf (take 22 (client_buf s2)) s2))"

section \<open>Reading from the client\<close>

text \<open>\<open>buf->base\<close> is \<open>sess->client_buf\<close> (\<open>on_client_conn_alloc\<close>); the decoder
  gets its first \<open>nread\<close> bytes. \<open>uv_getaddrinfo\<close> gets \<open>dst_addr\<close> as a C string.
  \<open>dst_addr\<close> is an array of the decoder's context and the list holds the bytes the
  decoder has written to it: \<open>memcpy\<close> always copies 4 or 16 bytes, those past the
  written ones from zero-filled memory.\<close>

definition on_client_read_done :: "Params \<Rightarrow> uv_rets \<Rightarrow> int \<Rightarrow> Session \<Rightarrow> Session" where
  "on_client_read_done P R nread sess0 =
     (if nread = 0 then sess0
      else let sess = uv_read_stop ClientTcp sess0
      in if nread < 0 then close_session sess
      else if state sess = S5_METHOD_IDENTIFICATION then
        (let (s5_err, s5_ctx) =
               socks5_parse_method_identification P (socks5_ctx sess)
                 (take (nat nread) (client_buf sess));
             s1 = sess\<lparr>socks5_ctx := s5_ctx\<rparr>
         in if s5_err \<noteq> S5_OK then close_session s1
            else if parse_state s5_ctx = S5_PARSE_STATE_FINISH then
              (if methods s5_ctx AND S5_AUTH_NONE P \<noteq> 0
               then snd (client_write_string R StringLiteral [5, 0] 2
                           (s1\<lparr>state := S5_REQUEST\<rparr>))
               else snd (client_write_string R StringLiteral [5, 0xff] 2
                           (s1\<lparr>state := S5_STREAMING_END\<rparr>)))
            else snd (client_read_start R s1))
      else if state sess = S5_REQUEST then
        (let (s5_err, s5_ctx) =
               socks5_parse_request P (socks5_ctx sess) (take (nat nread) (client_buf sess));
             s1 = sess\<lparr>socks5_ctx := s5_ctx\<rparr>
         in if s5_err \<noteq> S5_OK then snd (client_write_error P R (S5Err_int P s5_err) s1)
            else if atyp s5_ctx = S5_ATYP_IPV4 then
              (let (err, s2) =
                     upstream_connect R
                       (Addr4 (dst_port s5_ctx) (take 4 (dst_addr s5_ctx @ replicate 4 0))) s1
               in if err \<noteq> 0 then snd (client_write_error P R err s2) else s2)
            else if atyp s5_ctx = S5_ATYP_DOMAIN then
              (let (err, s2) =
                     uv_getaddrinfo R (takeWhile (\<lambda>b. b \<noteq> 0) (dst_addr s5_ctx)) s1
               in if err \<noteq> 0 then snd (client_write_error P R err s2) else s2)
            else if atyp s5_ctx = S5_ATYP_IPV6 then
              (let (err, s2) =
                     upstream_connect R
                       (Addr6 (dst_port s5_ctx) (take 16 (dst_addr s5_ctx @ replicate 16 0))) s1
               in if err \<noteq> 0 then snd (client_write_error P R err s2) else s2)
            else snd (client_write_error P R 20000 s1))
      else if state sess = S5_STREAMING then
        snd (upstream_write_start R ClientBuf (take (nat nread) (client_buf sess)) sess)
      else close_session sess)"

section \<open>The event loop, for one session\<close>

text \<open>
  libuv calls a callback of the session only when the session asked for it: a read
  callback while the handle is reading and not closing, with at most
  \<open>SESSION_DATA_BUFSIZ\<close> bytes that it has put at the start of the buffer of
  \<open>on_client_conn_alloc\<close> or \<open>on_upstream_conn_alloc\<close>; a write callback for the oldest
  write handed to \<open>uv_write\<close> on that handle; the connect and resolve callbacks while
  such a request is pending; a close callback after \<open>uv_close\<close> was given one; the
  timer callback while the timer is started. No order is assumed between the callbacks
  of different handles.
\<close>

definition read_ok :: "int \<Rightarrow> byte list \<Rightarrow> bool" where
  "read_ok nread bytes =
     (if 0 < nread then length bytes = nat nread \<and> length bytes \<le> SESSION_DATA_BUFSIZ
      else bytes = [])"

fun enabled :: "event \<Rightarrow> Session \<Rightarrow> bool" where
  "enabled (ClientRead nread bytes) s =
     (reading (client_tcp s) \<and> \<not> closing (client_tcp s) \<and> read_ok nread bytes)"
| "enabled (UpstreamRead nread bytes) s =
     (reading (upstream_tcp s) \<and> \<not> closing (upstream_tcp s) \<and> read_ok nread bytes)"
| "enabled (ClientWriteDone status) s = (write_queue (client_tcp s) \<noteq> [])"
| "enabled (UpstreamWriteDone status) s = (write_queue (upstream_tcp s) \<noteq> [])"
| "enabled (ConnectDone status) s = (upstream_connect_req s \<noteq> None)"
| "enabled (AddrinfoDone status res) s = (upstream_addrinfo_req s \<noteq> None)"
| "enabled ClientClosed s = close_cb (client_tcp s)"
| "enabled TimerFired s = timer_active (timer_release_req s)"
| "enabled TimerClosed s = timer_close_cb (timer_release_req s)"

text \<open>What libuv does to the session's handles, requests and buffers before it calls
  the callback.\<close>

fun deliver :: "event \<Rightarrow> Session \<Rightarrow> Session" where
  "deliver (ClientRead nread bytes) s = s\<lparr>client_buf := memcpy (client_buf s) 0 bytes (length bytes)\<rparr>"
| "deliver (UpstreamRead nread bytes) s =
     s\<lparr>upstream_buf := memcpy (upstream_buf s) 0 bytes (length bytes)\<rparr>"
| "deliver (ClientWriteDone status) s =
     s\<lparr>client_tcp := (client_tcp s)\<lparr>write_queue := tl (write_queue (client_tcp s))\<rparr>\<rparr>"
| "deliver (UpstreamWriteDone status) s =
     s\<lparr>upstream_tcp := (upstream_tcp s)\<lparr>write_queue := tl (write_queue (upstream_tcp s))\<rparr>\<rparr>"
| "deliver (ConnectDone status) s = s\<lparr>upstream_connect_req := None\<rparr>"
| "deliver (AddrinfoDone status res) s = s\<lparr>upstream_addrinfo_req := None\<rparr>"
| "deliver ClientClosed s = s\<lparr>client_tcp := (client_tcp s)\<lparr>close_cb := False\<rparr>\<rparr>"
| "deliver TimerFired s =
     s\<lparr>timer_release_req := (timer_release_req s)\<lparr>timer_active := False\<rparr>\<rparr>"
| "deliver TimerClosed s =
     s\<lparr>timer_release_req := (timer_release_req s)\<lparr>timer_close_cb := False\<rparr>\<rparr>"

fun callback :: "Params \<Rightarrow> uv_rets \<Rightarrow> event \<Rightarrow> Session \<Rightarrow> Session" where
  "callback P R (ClientRead nread bytes) s = on_client_read_done P R nread s"
| "callback P R (UpstreamRead nread bytes) s = on_upstream_read_done R nread s"
| "callback P R (ClientWriteDone status) s = on_client_write_done R status s"
| "callback P R (UpstreamWriteDone status) s = on_upstream_write_done R status s"
| "callback P R (ConnectDone status) s = upstream_connect_cb P R status s"
| "callback P R (AddrinfoDone status res) s = upstream_connect_domain P R status res s"
| "callback P R ClientClosed s = client_handle_close_cb s"
| "callback P R TimerFired s = release_timer_cb s"
| "callback P R TimerClosed s = release_timer_handle_close_cb s"

definition step :: "Params \<Rightarrow> uv_rets \<Rightarrow> event \<Rightarrow> Session \<Rightarrow> Session option" where
  "step P R e s =
     (if enabled e s then Some (callback P R e (emit (Callback e) (deliver e s))) else None)"

fun run :: "Params \<Rightarrow> (uv_rets \<times> event) list \<Rightarrow> Session \<Rightarrow> Session option" where
  "run P [] s = Some s"
| "run P ((R, e) # es) s = (case step P R e s of None \<Rightarrow> None | Some s1 \<Rightarrow> run P es s1)"

text \<open>The memory of a session that no callback has touched: nothing is registered
  with the loop, nothing has been called.\<close>

definition idle_stream :: uv_stream where
  "idle_stream = \<lparr>reading = False, closing = False, close_cb = False, write_queue = []\<rparr>"

definition fresh :: "Session \<Rightarrow> bool" where
  "fresh mem =
     (client_tcp mem = idle_stream \<and> upstream_tcp mem = idle_stream \<and>
      upstream_addrinfo_req mem = None \<and> upstream_connect_req mem = None \<and>
      timer_release_req mem =
        \<lparr>timer_closing = False, timer_active = False, timer_close_cb = False\<rparr> \<and>
      freed mem = 0 \<and> trace mem = [])"

section \<open>The decoder\<close>

text \<open>
  Modelled from the spec: socks5.c is not among the sources. The decoder consumes a
  message byte by byte and keeps its place in \<open>parse_state\<close>, so that it resumes on
  the next span of bytes. The greeting is VER = 5, NMETHODS in 1..255, then NMETHODS
  method bytes; \<open>methods\<close> gets one bit per offered method code. An error is
  \<open>S5_BAD_VERSION\<close> when VER is not 5 and \<open>S5_BAD_NMETHODS\<close> when NMETHODS is 0.
\<close>

definition spec_method_identification_byte :: "Socks5Ctx \<Rightarrow> byte \<Rightarrow> S5Err \<times> Socks5Ctx" where
  "spec_method_identification_byte ctx b =
     (case parse_state ctx of
        S5_PARSE_STATE_VERSION \<Rightarrow>
          if b = 5 then (S5_OK, ctx\<lparr>parse_state := S5_PARSE_STATE_NMETHODS\<rparr>)
          else (S5_BAD_VERSION, ctx)
      | S5_PARSE_STATE_NMETHODS \<Rightarrow>
          if b = 0 then (S5_BAD_NMETHODS, ctx)
          else (S5_OK, ctx\<lparr>parse_state := S5_PARSE_STATE_METHODS, arg_count := unat b,
                             methods := 0\<rparr>)
      | S5_PARSE_STATE_METHODS \<Rightarrow>
          (S5_OK, ctx\<lparr>parse_state := (if arg_count ctx \<le> 1 then S5_PARSE_STATE_FINISH
                                        else S5_PARSE_STATE_METHODS),
                       arg_count := arg_count ctx - 1,
                       methods := methods ctx OR push_bit (unat b) 1\<rparr>)
      | _ \<Rightarrow> (S5_OK, ctx))"

text \<open>
  Modelled from the spec: the request is VER = 5, CMD, RSV = 0, ATYP, the address (4
  bytes for IPv4, 16 for IPv6, a length byte and that many bytes for a domain name),
  then the port, high byte first. An error is \<open>S5_UNSUPPORTED_CMD\<close> when CMD is not
  1, \<open>S5_BAD_ATYP\<close> when ATYP is not 1, 3 or 4, \<open>S5_BAD_RESERVED\<close> when RSV is not 0,
  \<open>S5_BAD_VERSION\<close> when VER is not 5. After the last byte \<open>dst_addr\<close> holds the
  address (a domain name with a NUL after it) and \<open>dst_port\<close> the port as a number.
  The request starts where the greeting finished.
\<close>

definition spec_request_byte :: "Socks5Ctx \<Rightarrow> byte \<Rightarrow> S5Err \<times> Socks5Ctx" where
  "spec_request_byte ctx b =
     (case parse_state ctx of
        S5_PARSE_STATE_FINISH \<Rightarrow>
          if b = 5 then (S5_OK, ctx\<lparr>parse_state := S5_PARSE_STATE_REQ_CMD\<rparr>)
          else (S5_BAD_VERSION, ctx)
      | S5_PARSE_STATE_REQ_CMD \<Rightarrow>
          if b = 1 then (S5_OK, ctx\<lparr>parse_state := S5_PARSE_STATE_REQ_RSV\<rparr>)
          else (S5_UNSUPPORTED_CMD, ctx)
      | S5_PARSE_STATE_REQ_RSV \<Rightarrow>
          if b = 0 then (S5_OK, ctx\<lparr>parse_state := S5_PARSE_STATE_REQ_ATYP\<rparr>)
          else (S5_BAD_RESERVED, ctx)
      | S5_PARSE_STATE_REQ_ATYP \<Rightarrow>
          if b = S5_ATYP_IPV4
          then (S5_OK, ctx\<lparr>parse_state := S5_PARSE_STATE_REQ_DST_ADDR, arg_count := 4,
                             atyp := b, dst_addr := []\<rparr>)
          else if b = S5_ATYP_IPV6
          then (S5_OK, ctx\<lparr>parse_state := S5_PARSE_STATE_REQ_DST_ADDR, arg_count := 16,
                             atyp := b, dst_addr := []\<rparr>)
          else if b = S5_ATYP_DOMAIN
          then (S5_OK, ctx\<lparr>parse_state := S5_PARSE_STATE_REQ_DST_ADDR_LEN, atyp := b,
                             dst_addr := []\<rparr>)
          else (S5_BAD_ATYP, ctx)
      | S5_PARSE_STATE_REQ_DST_ADDR_LEN \<Rightarrow>
          if b = 0
          then (S5_OK, ctx\<lparr>parse_state := S5_PARSE_STATE_REQ_DST_PORT, arg_count := 2,
                             dst_addr := [0], dst_port := 0\<rparr>)
          else (S5_OK, ctx\<lparr>parse_state := S5_PARSE_STATE_REQ_DST_ADDR, arg_count := unat b\<rparr>)
      | S5_PARSE_STATE_REQ_DST_ADDR \<Rightarrow>
          if arg_count ctx \<le> 1
          then (S5_OK, ctx\<lparr>parse_state := S5_PARSE_STATE_REQ_DST_PORT, arg_count := 2,
                             dst_addr := dst_addr ctx @ [b] @
                               (if atyp ctx = S5_ATYP_DOMAIN then [0] else []),
                             dst_port := 0\<rparr>)
          else (S5_OK, ctx\<lparr>arg_count := arg_count ctx - 1, dst_addr := dst_addr ctx @ [b]\<rparr>)
      | S5_PARSE_STATE_REQ_DST_PORT \<Rightarrow>
          (S5_OK, ctx\<lparr>parse_state := (if arg_count ctx \<le> 1 then S5_PARSE_STATE_FINISH
                                        else S5_PARSE_STATE_REQ_DST_PORT),
                       arg_count := arg_count ctx - 1,
                       dst_port := push_bit 8 (dst_port ctx) OR ucast b\<rparr>)
      | _ \<Rightarrow> (S5_OK, ctx))"

fun spec_parse ::
  "(Socks5Ctx \<Rightarrow> byte \<Rightarrow> S5Err \<times> Socks5Ctx) \<Rightarrow> Socks5Ctx \<Rightarrow> byte list \<Rightarrow> S5Err \<times> Socks5Ctx"
  where
  "spec_parse f ctx [] = (S5_OK, ctx)"
| "spec_parse f ctx (b # bs) =
     (let r = f ctx b in if fst r = S5_OK then spec_parse f (snd r) bs else r)"

definition spec_parse_method_identification ::
  "Socks5Ctx \<Rightarrow> byte list \<Rightarrow> S5Err \<times> Socks5Ctx" where
  "spec_parse_method_identification = spec_parse spec_method_identification_byte"

definition spec_parse_request :: "Socks5Ctx \<Rightarrow> byte list \<Rightarrow> S5Err \<times> Socks5Ctx" where
  "spec_parse_request = spec_parse spec_request_byte"

section \<open>The program with its defaults\<close>

text \<open>
  The server as \<open>main\<close> starts it (127.0.0.1, port 8789, backlog 256) on a
  little-endian Linux, where libuv's error codes are the negated errno values.
  Modelled from the spec: the enumerators of \<open>S5Err\<close> are numbered from 0 in the order
  above, \<open>S5_AUTH_NONE\<close> is the bit of method code 0, and the decoder is the one above.
\<close>

definition SERVER_PORT :: "32 word" where
  "SERVER_PORT = 8789"

definition default_server_ctx :: ServerContext where
  "default_server_ctx =
     \<lparr>server_cfg = \<lparr>host = ''127.0.0.1'', port = SERVER_PORT, backlog = 256\<rparr>,
      bound_ip_ver = IPV4,
      bound_ip = [127, 0, 0, 1, 0, 0, 0, 0, 0, 0, 0, 0, 0, 0, 0, 0]\<rparr>"

fun default_S5Err_int :: "S5Err \<Rightarrow> int" where
  "default_S5Err_int S5_OK = 0"
| "default_S5Err_int S5_BAD_VERSION = 1"
| "default_S5Err_int S5_BAD_NMETHODS = 2"
| "default_S5Err_int S5_BAD_RESERVED = 3"
| "default_S5Err_int S5_UNSUPPORTED_CMD = 4"
| "default_S5Err_int S5_BAD_ATYP = 5"

definition default_params :: Params where
  "default_params =
     \<lparr>UV_ENETUNREACH = - 101, UV_EHOSTUNREACH = - 113, UV_ECONNREFUSED = - 111,
      S5Err_int = default_S5Err_int, S5_AUTH_NONE = 1,
      socks5_parse_method_identification = spec_parse_method_identification,
      socks5_parse_request = spec_parse_request,
      little_endian = True, g_server_ctx = default_server_ctx\<rparr>"

text \<open>Every libuv call succeeds.\<close>

definition rets_ok :: uv_rets where
  "rets_ok =
     \<lparr>uv_tcp_init_ret = (\<lambda>h. 0), uv_tcp_keepalive_ret = (\<lambda>h. 0),
      uv_has_ref_ret = (\<lambda>h. False), uv_accept_ret = 0, uv_read_start_ret = (\<lambda>h. 0),
      uv_write_ret = (\<lambda>h. 0), uv_tcp_connect_ret = (\<lambda>a. 0), uv_getaddrinfo_ret = 0,
      indeterminate_int = 0\<rparr>"

text \<open>Zero-filled memory for a session.\<close>

definition zero_ctx :: Socks5Ctx where
  "zero_ctx =
     \<lparr>parse_state = S5_PARSE_STATE_VERSION, arg_count = 0, methods = 0, atyp = 0,
      dst_addr = [], dst_port = 0\<rparr>"

definition zero_mem :: Session where
  "zero_mem =
     \<lparr>client_tcp = idle_stream, client_buf = replicate SESSION_DATA_BUFSIZ 0,
      upstream_tcp = idle_stream, upstream_addrinfo_req = None, upstream_connect_req = None,
      upstream_buf = replicate SESSION_DATA_BUFSIZ 0,
      timer_release_req =
        \<lparr>timer_closing = False, timer_active = False, timer_close_cb = False\<rparr>,
      state = S5_METHOD_IDENTIFICATION, socks5_ctx = zero_ctx, freed = 0, trace = []\<rparr>"

section \<open>Reading the trace\<close>

fun is_write :: "entry \<Rightarrow> bool" where
  "is_write (UvWrite h b bs) = True"
| "is_write e = False"

fun is_read_start :: "entry \<Rightarrow> bool" where
  "is_read_start (UvReadStart h) = True"
| "is_read_start e = False"

definition writes_of :: "entry list \<Rightarrow> entry list" where
  "writes_of tr = filter is_write tr"

definition read_starts_of :: "entry list \<Rightarrow> entry list" where
  "read_starts_of tr = filter is_read_start tr"

text \<open>Both endpoints are closed or closing: what \<open>close_session\<close> leaves behind.\<close>

definition session_closed :: "Session \<Rightarrow> bool" where
  "session_closed s = (closing (client_tcp s) \<and> closing (upstream_tcp s))"

fun is_connect :: "entry \<Rightarrow> bool" where
  "is_connect (UvTcpConnect a) = True"
| "is_connect e = False"

definition connects_of :: "entry list \<Rightarrow> entry list" where
  "connects_of tr = filter is_connect tr"

text \<open>The address \<open>upstream_connect_domain\<close> builds from a resolved address and the
  requested port; none for a family it skips.\<close>

definition candidate_addr :: "16 word \<Rightarrow> addrinfo \<Rightarrow> IPAddr option" where
  "candidate_addr p ai =
     (case ai_family ai of
        AF_INET \<Rightarrow> Some (Addr4 p (take 4 (ai_addr ai)))
      | AF_INET6 \<Rightarrow> Some (Addr6 p (take 16 (ai_addr ai)))
      | AF_OTHER f \<Rightarrow> None)"

text \<open>The calls \<open>close_session\<close> makes, given whether the upstream and the client
  endpoint are closing already.\<close>

definition close_entries :: "bool \<Rightarrow> bool \<Rightarrow> entry list" where
  "close_entries up_closing cl_closing =
     UvReadStop UpstreamTcp # (if up_closing then [] else [UvClose UpstreamTcp]) @
     UvReadStop ClientTcp # (if cl_closing then [UvTimerInit, UvTimerStart] else [UvClose ClientTcp])"

text \<open>The bytes of the error reply for the error \<open>err\<close>.\<close>

definition error_reply :: "Params \<Rightarrow> int \<Rightarrow> byte list" where
  "error_reply P err = [5, client_write_error_rep P err, 0, 1, 0, 0, 0, 0, 0, 0]"

section \<open>What holds of every reachable session\<close>

text \<open>
  At most one of the resolve and the connect request is pending, and while one is, the
  phase is Request, the client endpoint is not reading and no write to it is in flight.
  Before phase Streaming the upstream endpoint neither reads nor writes, at most one
  write to the client is in flight, and none while the client endpoint is reading.
\<close>

definition handshake_inv :: "Session \<Rightarrow> bool" where
  "handshake_inv s =
     ((upstream_connect_req s = None \<or> upstream_addrinfo_req s = None) \<and>
      (upstream_connect_req s \<noteq> None \<or> upstream_addrinfo_req s \<noteq> None \<longrightarrow>
         state s = S5_REQUEST \<and> \<not> reading (client_tcp s) \<and> write_queue (client_tcp s) = []) \<and>
      (state s \<noteq> S5_STREAMING \<longrightarrow>
         \<not> reading (upstream_tcp s) \<and> write_queue (upstream_tcp s) = [] \<and>
         length (write_queue (client_tcp s)) \<le> 1 \<and>
         (reading (client_tcp s) \<longrightarrow> write_queue (client_tcp s) = [])))"

text \<open>The callbacks that report a read (other than the empty read) or a write.\<close>

fun io_completion :: "event \<Rightarrow> bool" where
  "io_completion (ClientRead nread bytes) = (nread \<noteq> 0)"
| "io_completion (UpstreamRead nread bytes) = (nread \<noteq> 0)"
| "io_completion (ClientWriteDone status) = True"
| "io_completion (UpstreamWriteDone status) = True"
| "io_completion e = False"

section \<open>The success reply and relaying\<close>

text \<open>The success reply is the one write to the client that comes from \<open>client_buf\<close>.
  Relaying is a write to upstream, a write to the client from \<open>upstream_buf\<close>, or the
  start of reading on upstream.\<close>

fun is_success_reply :: "entry \<Rightarrow> bool" where
  "is_success_reply (UvWrite ClientTcp ClientBuf bytes) = True"
| "is_success_reply x = False"

fun is_relay :: "entry \<Rightarrow> bool" where
  "is_relay (UvWrite UpstreamTcp base bytes) = True"
| "is_relay (UvWrite ClientTcp UpstreamBuf bytes) = True"
| "is_relay (UvReadStart UpstreamTcp) = True"
| "is_relay x = False"

fun is_client_write_done :: "entry \<Rightarrow> bool" where
  "is_client_write_done (Callback (ClientWriteDone status)) = True"
| "is_client_write_done x = False"

datatype reply_phase = NoReply | ReplyInFlight | ReplyDelivered | ReplyFailed

text \<open>
  A monitor that reads the trace from its start. It refuses (\<open>None\<close>) a second success
  reply, and relaying in any phase but \<open>ReplyDelivered\<close>; the write callback of the
  client that follows the success reply delivers it, or fails it when its status is
  negative.
\<close>

fun reply_next :: "reply_phase \<Rightarrow> entry \<Rightarrow> reply_phase option" where
  "reply_next ph (Callback (ClientWriteDone status)) =
     (if ph = ReplyInFlight then Some (if status < 0 then ReplyFailed else ReplyDelivered)
      else Some ph)"
| "reply_next ph x =
     (if is_success_reply x then (if ph = NoReply then Some ReplyInFlight else None)
      else if is_relay x then (if ph = ReplyDelivered then Some ph else None)
      else Some ph)"

fun reply_monitor :: "reply_phase \<Rightarrow> entry list \<Rightarrow> reply_phase option" where
  "reply_monitor ph [] = Some ph"
| "reply_monitor ph (x # xs) =
     (case reply_next ph x of None \<Rightarrow> None | Some ph1 \<Rightarrow> reply_monitor ph1 xs)"

text \<open>The entries of a trace that the monitor looks at.\<close>

definition marks_of :: "entry list \<Rightarrow> entry list" where
  "marks_of tr = filter (\<lambda>x. is_success_reply x \<or> is_relay x \<or> is_client_write_done x) tr"

text \<open>How the phase of the monitor and the session fit together.\<close>

definition reply_inv :: "Session \<Rightarrow> bool" where
  "reply_inv s =
     (case reply_monitor NoReply (trace s) of
        None \<Rightarrow> False
      | Some NoReply \<Rightarrow> state s \<noteq> S5_STREAMING
      | Some ReplyInFlight \<Rightarrow>
          state s = S5_STREAMING \<and> \<not> reading (client_tcp s) \<and> \<not> reading (upstream_tcp s) \<and>
          write_queue (upstream_tcp s) = [] \<and> length (write_queue (client_tcp s)) \<le> 1
      | Some ReplyDelivered \<Rightarrow> state s = S5_STREAMING
      | Some ReplyFailed \<Rightarrow>
          state s = S5_STREAMING \<and> \<not> reading (client_tcp s) \<and> \<not> reading (upstream_tcp s) \<and>
          write_queue (upstream_tcp s) = [] \<and> write_queue (client_tcp s) = [])"

section \<open>The answer to a greeting\<close>

text \<open>What the session has done when the greeting is complete: \<open>no_auth\<close> says
  whether method 0 was offered.\<close>

definition greeting_outcome :: "Params \<Rightarrow> uv_rets \<Rightarrow> bool \<Rightarrow> Session \<Rightarrow> Session \<Rightarrow> bool" where
  "greeting_outcome P R no_auth s s1 =
     (if no_auth
      then writes_of (trace s1) = writes_of (trace s) @ [UvWrite ClientTcp StringLiteral [5, 0]] \<and>
           state s1 = S5_REQUEST
      else writes_of (trace s1) = writes_of (trace s) @ [UvWrite ClientTcp StringLiteral [5, 0xff]] \<and>
           state s1 = S5_STREAMING_END \<and>
           (if uv_write_ret R ClientTcp \<noteq> 0 then session_closed s1
            else write_queue (client_tcp s1) \<noteq> [] \<and>
                 (\<forall>R2 status s2. step P R2 (ClientWriteDone status) s1 = Some s2 \<longrightarrow>
                    session_closed s2)))"

section \<open>Runs of the default program\<close>

text \<open>The greeting of a client that offers no authentication, and then a CONNECT
  request to 127.0.0.1:9000 whose connection succeeds.\<close>

definition greeting_events :: "(uv_rets \<times> event) list" where
  "greeting_events = [(rets_ok, ClientRead 3 [5, 1, 0]), (rets_ok, ClientWriteDone 0)]"

definition handshake_events :: "(uv_rets \<times> event) list" where
  "handshake_events =
     [(rets_ok, ClientRead 3 [5, 1, 0]), (rets_ok, ClientWriteDone 0),
      (rets_ok, ClientRead 10 [5, 1, 0, 1, 127, 0, 0, 1, 0x23, 0x28]),
      (rets_ok, ConnectDone 0), (rets_ok, ClientWriteDone 0)]"

text \<open>Bytes relayed after the handshake: the client sends five bytes, upstream sends
  three, the write to the client completes, the client sends two more bytes.\<close>

definition relay_events :: "(uv_rets \<times> event) list" where
  "relay_events =
     [(rets_ok, ClientRead 5 [104, 101, 108, 108, 111]), (rets_ok, UpstreamRead 3 [1, 2, 3]),
      (rets_ok, ClientWriteDone 0), (rets_ok, ClientRead 2 [7, 8])]"

text \<open>A CONNECT request for the domain name \<open>ab\<close>, port 80, that resolves to 10.0.0.1
  and 10.0.0.2; the connection to the first address is refused.\<close>

definition domain_refused_events :: "(uv_rets \<times> event) list" where
  "domain_refused_events =
     greeting_events @
     [(rets_ok, ClientRead 9 [5, 1, 0, 3, 2, 97, 98, 0, 80]),
      (rets_ok, AddrinfoDone 0
         [\<lparr>ai_family = AF_INET, ai_addr = [10, 0, 0, 1]\<rparr>,
          \<lparr>ai_family = AF_INET, ai_addr = [10, 0, 0, 2]\<rparr>]),
      (rets_ok, ConnectDone (- 111))]"

text \<open>The server bound to the IPv6 loopback address.\<close>

definition server_ctx_v6 :: ServerContext where
  "server_ctx_v6 =
     \<lparr>server_cfg = \<lparr>host = ''::1'', port = SERVER_PORT, backlog = 256\<rparr>,
      bound_ip_ver = IPV6,
      bound_ip = [0, 0, 0, 0, 0, 0, 0, 0, 0, 0, 0, 0, 0, 0, 0, 1]\<rparr>"

text \<open>A 16-bit port in network byte order: the high byte first.\<close>

definition network_order :: "16 word \<Rightarrow> byte list" where
  "network_order p = [ucast (drop_bit 8 p), ucast p]"

section \<open>The release timer in a run\<close>

text \<open>How often the release timer has been scheduled, and whether its close callback
  has run.\<close>

definition timer_inits :: "Session \<Rightarrow> nat" where
  "timer_inits s = length (filter (\<lambda>x. x = UvTimerInit) (trace s))"

definition timer_closed :: "Session \<Rightarrow> bool" where
  "timer_closed s = (Callback TimerClosed \<in> set (trace s))"

text \<open>The release timer when it has been scheduled at most once: not scheduled; armed;
  fired and closing; closed, with the session freed.\<close>

definition timer_phase :: "nat \<Rightarrow> uv_timer \<Rightarrow> nat \<Rightarrow> bool \<Rightarrow> bool" where
  "timer_phase n t f c =
     (if n = 0
      then \<not> timer_active t \<and> \<not> timer_closing t \<and> \<not> timer_close_cb t \<and> f = 0 \<and> \<not> c
      else if n = Suc 0
      then (timer_active t \<and> \<not> timer_closing t \<and> \<not> timer_close_cb t \<and> f = 0 \<and> \<not> c) \<or>
           (\<not> timer_active t \<and> timer_closing t \<and> timer_close_cb t \<and> f = 0 \<and> \<not> c) \<or>
           (\<not> timer_active t \<and> timer_closing t \<and> \<not> timer_close_cb t \<and> f = Suc 0 \<and> c)
      else True)"

definition timer_inv :: "Session \<Rightarrow> bool" where
  "timer_inv s = timer_phase (timer_inits s) (timer_release_req s) (freed s) (timer_closed s)"

text \<open>What a callback other than the timer's and the client's close callback does to
  the release timer: nothing, or it schedules it.\<close>

definition timer_step :: "Session \<Rightarrow> Session \<Rightarrow> bool" where
  "timer_step s s1 =
     (freed s1 = freed s \<and> timer_closed s1 = timer_closed s \<and>
      timer_close_cb (timer_release_req s1) = timer_close_cb (timer_release_req s) \<and>
      (if timer_inits s1 = timer_inits s then timer_release_req s1 = timer_release_req s
       else timer_inits s < timer_inits s1 \<and> timer_active (timer_release_req s1) \<and>
            \<not> timer_closing (timer_release_req s1)))"

text \<open>What such a callback does to the client endpoint: a closing endpoint stays
  closing, with its close callback as it was; an endpoint that it closes gets the close
  callback.\<close>

definition client_step :: "Session \<Rightarrow> Session \<Rightarrow> bool" where
  "client_step s s1 =
     ((closing (client_tcp s) \<longrightarrow>
         closing (client_tcp s1) \<and> close_cb (client_tcp s1) = close_cb (client_tcp s)) \<and>
      (\<not> closing (client_tcp s) \<longrightarrow> closing (client_tcp s1) \<longrightarrow> close_cb (client_tcp s1)))"

text \<open>The close callback of a closing client endpoint is pending until it has
  scheduled the release timer.\<close>

definition chain_inv :: "Session \<Rightarrow> bool" where
  "chain_inv s = (closing (client_tcp s) \<longrightarrow> close_cb (client_tcp s) \<or> 0 < timer_inits s)"

section \<open>Runs that close the session\<close>

text \<open>libuv refuses \<open>uv_read_start\<close> (with \<open>UV_EINVAL\<close>); every other call succeeds.\<close>

definition rets_read_refused :: uv_rets where
  "rets_read_refused = rets_ok\<lparr>uv_read_start_ret := (\<lambda>h. - 22)\<rparr>"

text \<open>After the handshake upstream sends three bytes, which are written to the client;
  before that write's callback the client's end of file (\<open>UV_EOF\<close>) is read.\<close>

definition closed_in_streaming_events :: "(uv_rets \<times> event) list" where
  "closed_in_streaming_events =
     handshake_events @ [(rets_ok, UpstreamRead 3 [1, 2, 3]), (rets_ok, ClientRead (- 4095) [])]"

text \<open>The client's end of file right after the connection is accepted, then the close
  callback of the client endpoint, the release timer and the timer's close callback.\<close>

definition close_once_events :: "(uv_rets \<times> event) list" where
  "close_once_events =
     [(rets_ok, ClientRead (- 4095) []), (rets_ok, ClientClosed), (rets_ok, TimerFired),
      (rets_ok, TimerClosed)]"

text \<open>After the handshake a write is in flight in each direction; the write to upstream
  fails (\<open>UV_EPIPE\<close>).\<close>

definition close_twice_events :: "(uv_rets \<times> event) list" where
  "close_twice_events =
     handshake_events @
     [(rets_ok, ClientRead 5 [104, 101, 108, 108, 111]), (rets_ok, UpstreamRead 3 [1, 2, 3]),
      (rets_ok, UpstreamWriteDone (- 32))]"

section \<open>What the calls and the close path change\<close>

lemmas uv_defs = emit_def get_tcp_def set_tcp_def uv_tcp_init_def uv_tcp_keepalive_def
  uv_accept_def uv_read_start_def uv_read_stop_def uv_is_closing_def uv_close_def uv_write_def
  uv_tcp_connect_def uv_getaddrinfo_def uv_timer_init_def uv_timer_start_def uv_timer_close_def
  free_def schedule_release_timer_def

lemma writes_of_simps [simp]:
  "writes_of [] = []"
  "writes_of (xs @ ys) = writes_of xs @ writes_of ys"
  "writes_of (x # xs) = (if is_write x then x # writes_of xs else writes_of xs)"
  by (simp_all add: writes_of_def)

lemma read_starts_of_simps [simp]:
  "read_starts_of [] = []"
  "read_starts_of (xs @ ys) = read_starts_of xs @ read_starts_of ys"
  "read_starts_of (x # xs) = (if is_read_start x then x # read_starts_of xs else read_starts_of xs)"
  by (simp_all add: read_starts_of_def)

lemma close_session_frame [simp]:
  "state (close_session s) = state s"
  "socks5_ctx (close_session s) = socks5_ctx s"
  "client_buf (close_session s) = client_buf s"
  "upstream_buf (close_session s) = upstream_buf s"
  "freed (close_session s) = freed s"
  "upstream_connect_req (close_session s) = upstream_connect_req s"
  "upstream_addrinfo_req (close_session s) = upstream_addrinfo_req s"
  "write_queue (client_tcp (close_session s)) = write_queue (client_tcp s)"
  "write_queue (upstream_tcp (close_session s)) = write_queue (upstream_tcp s)"
  "reading (client_tcp (close_session s)) = False"
  "reading (upstream_tcp (close_session s)) = False"
  "closing (client_tcp (close_session s)) = True"
  "closing (upstream_tcp (close_session s)) = True"
  "writes_of (trace (close_session s)) = writes_of (trace s)"
  "read_starts_of (trace (close_session s)) = read_starts_of (trace s)"
  by (simp_all add: close_session_def uv_defs Let_def)


lemmas write_defs = client_write_error_def client_write_string_def client_write_start_def
  upstream_write_start_def

lemma client_write_error_writes:
  "writes_of (trace (snd (client_write_error P R err s))) =
     writes_of (trace s) @
       [UvWrite ClientTcp StackBuf [5, client_write_error_rep P err, 0, 1, 0, 0, 0, 0, 0, 0]]"
  by (simp add: write_defs uv_defs Let_def split_def)

lemma client_write_error_state:
  "state (snd (client_write_error P R err s)) = S5_STREAMING_END"
  by (simp add: write_defs uv_defs Let_def split_def)

lemmas handler_defs = on_connection_new_def create_session_def client_read_start_def
  upstream_read_start_def upstream_connect_def on_upstream_write_done_def
  on_upstream_read_done_def on_client_write_done_def upstream_connect_domain_def
  upstream_connect_cb_def on_client_read_done_def close_session_def
  client_handle_close_cb_def release_timer_cb_def release_timer_handle_close_cb_def

lemmas default_defs = default_params_def default_server_ctx_def rets_ok_def zero_mem_def
  zero_ctx_def idle_stream_def SERVER_PORT_def SESSION_DATA_BUFSIZ_def
  spec_parse_method_identification_def spec_parse_request_def
  spec_method_identification_byte_def spec_request_byte_def
  S5_ATYP_IPV4_def S5_ATYP_DOMAIN_def S5_ATYP_IPV6_def

lemma accepted_session:
  "state (on_connection_new rets_ok zero_mem) = S5_METHOD_IDENTIFICATION \<and>
   client_tcp (on_connection_new rets_ok zero_mem) = idle_stream\<lparr>reading := True\<rparr> \<and>
   upstream_tcp (on_connection_new rets_ok zero_mem) = idle_stream \<and>
   socks5_ctx (on_connection_new rets_ok zero_mem) = zero_ctx \<and>
   writes_of (trace (on_connection_new rets_ok zero_mem)) = []"
  by (simp add: handler_defs uv_defs default_defs Let_def split_def)

lemma greeting_run:
  "\<exists>s. run default_params greeting_events (on_connection_new rets_ok zero_mem) = Some s \<and>
       state s = S5_REQUEST \<and> client_tcp s = idle_stream\<lparr>reading := True\<rparr> \<and>
       upstream_tcp s = idle_stream \<and>
       socks5_ctx s = zero_ctx\<lparr>parse_state := S5_PARSE_STATE_FINISH, methods := 1\<rparr> \<and>
       writes_of (trace s) = [UvWrite ClientTcp StringLiteral [5, 0]]"
  by (simp add: greeting_events_def step_def read_ok_def handler_defs write_defs uv_defs
      default_defs memcpy_def int_bytes_def Let_def split_def)

lemma handshake_run:
  "\<exists>s. run default_params handshake_events (on_connection_new rets_ok zero_mem) = Some s \<and>
       state s = S5_STREAMING \<and> client_tcp s = idle_stream\<lparr>reading := True\<rparr> \<and>
       upstream_tcp s = idle_stream\<lparr>reading := True\<rparr> \<and>
       writes_of (trace s) =
         [UvWrite ClientTcp StringLiteral [5, 0],
          UvWrite ClientTcp ClientBuf [5, 0, 0, 1, 127, 0, 0, 1, 0x55, 0x22]]"
  by (simp add: handshake_events_def step_def read_ok_def handler_defs write_defs uv_defs
      default_defs memcpy_def int_bytes_def Let_def split_def)

section \<open>The fields after each call\<close>

lemma upstream_connect_effect:
  "upstream_connect R a s =
     (uv_tcp_connect_ret R a,
      if uv_tcp_connect_ret R a = 0
      then s\<lparr>trace := trace s @ [UvTcpConnect a], upstream_connect_req := Some a\<rparr>
      else s\<lparr>trace := trace s @ [UvTcpConnect a]\<rparr>)"
  by (simp add: upstream_connect_def uv_defs Let_def)

lemma close_session_view [simp]:
  "trace (close_session s) =
     trace s @ close_entries (closing (upstream_tcp s)) (closing (client_tcp s))"
  "close_cb (client_tcp (close_session s)) =
     (if closing (client_tcp s) then close_cb (client_tcp s) else True)"
  "close_cb (upstream_tcp (close_session s)) =
     (if closing (upstream_tcp s) then close_cb (upstream_tcp s) else False)"
  "timer_release_req (close_session s) =
     (if closing (client_tcp s)
      then (timer_release_req s)\<lparr>timer_closing := False, timer_active := True\<rparr>
      else timer_release_req s)"
  by (simp_all add: close_session_def uv_defs close_entries_def Let_def)

lemma close_entries_silent [simp]:
  "writes_of (close_entries a b) = []" "read_starts_of (close_entries a b) = []"
  by (simp_all add: close_entries_def)

lemma uv_read_stop_view [simp]:
  "trace (uv_read_stop h s) = trace s @ [UvReadStop h]"
  "state (uv_read_stop h s) = state s"
  "socks5_ctx (uv_read_stop h s) = socks5_ctx s"
  "client_buf (uv_read_stop h s) = client_buf s"
  "upstream_buf (uv_read_stop h s) = upstream_buf s"
  "freed (uv_read_stop h s) = freed s"
  "timer_release_req (uv_read_stop h s) = timer_release_req s"
  "upstream_connect_req (uv_read_stop h s) = upstream_connect_req s"
  "upstream_addrinfo_req (uv_read_stop h s) = upstream_addrinfo_req s"
  "reading (client_tcp (uv_read_stop h s)) = (h \<noteq> ClientTcp \<and> reading (client_tcp s))"
  "reading (upstream_tcp (uv_read_stop h s)) = (h \<noteq> UpstreamTcp \<and> reading (upstream_tcp s))"
  "closing (client_tcp (uv_read_stop h s)) = closing (client_tcp s)"
  "closing (upstream_tcp (uv_read_stop h s)) = closing (upstream_tcp s)"
  "close_cb (client_tcp (uv_read_stop h s)) = close_cb (client_tcp s)"
  "close_cb (upstream_tcp (uv_read_stop h s)) = close_cb (upstream_tcp s)"
  "write_queue (client_tcp (uv_read_stop h s)) = write_queue (client_tcp s)"
  "write_queue (upstream_tcp (uv_read_stop h s)) = write_queue (upstream_tcp s)"
  by (cases h; simp add: uv_defs Let_def)+

lemma client_read_start_view [simp]:
  "trace (snd (client_read_start R s)) =
     trace s @ UvReadStart ClientTcp #
       (if uv_read_start_ret R ClientTcp = 0 then []
        else close_entries (closing (upstream_tcp s)) (closing (client_tcp s)))"
  "state (snd (client_read_start R s)) = state s"
  "socks5_ctx (snd (client_read_start R s)) = socks5_ctx s"
  "client_buf (snd (client_read_start R s)) = client_buf s"
  "upstream_buf (snd (client_read_start R s)) = upstream_buf s"
  "freed (snd (client_read_start R s)) = freed s"
  "timer_release_req (snd (client_read_start R s)) =
     (if uv_read_start_ret R ClientTcp \<noteq> 0 \<and> closing (client_tcp s)
      then (timer_release_req s)\<lparr>timer_closing := False, timer_active := True\<rparr>
      else timer_release_req s)"
  "upstream_connect_req (snd (client_read_start R s)) = upstream_connect_req s"
  "upstream_addrinfo_req (snd (client_read_start R s)) = upstream_addrinfo_req s"
  "reading (client_tcp (snd (client_read_start R s))) = (uv_read_start_ret R ClientTcp = 0)"
  "reading (upstream_tcp (snd (client_read_start R s))) =
     (uv_read_start_ret R ClientTcp = 0 \<and> reading (upstream_tcp s))"
  "closing (client_tcp (snd (client_read_start R s))) =
     (uv_read_start_ret R ClientTcp \<noteq> 0 \<or> closing (client_tcp s))"
  "closing (upstream_tcp (snd (client_read_start R s))) =
     (uv_read_start_ret R ClientTcp \<noteq> 0 \<or> closing (upstream_tcp s))"
  "close_cb (client_tcp (snd (client_read_start R s))) =
     (if uv_read_start_ret R ClientTcp \<noteq> 0 \<and> \<not> closing (client_tcp s) then True
      else close_cb (client_tcp s))"
  "close_cb (upstream_tcp (snd (client_read_start R s))) =
     (if uv_read_start_ret R ClientTcp \<noteq> 0 \<and> \<not> closing (upstream_tcp s) then False
      else close_cb (upstream_tcp s))"
  "write_queue (client_tcp (snd (client_read_start R s))) = write_queue (client_tcp s)"
  "write_queue (upstream_tcp (snd (client_read_start R s))) = write_queue (upstream_tcp s)"
  by (simp_all add: client_read_start_def uv_read_start_def emit_def get_tcp_def set_tcp_def
      Let_def)


lemma upstream_read_start_view [simp]:
  "fst (upstream_read_start R s) = uv_read_start_ret R UpstreamTcp"
  "trace (snd (upstream_read_start R s)) =
     trace s @ UvReadStart UpstreamTcp #
       (if uv_read_start_ret R UpstreamTcp = 0 then []
        else close_entries (closing (upstream_tcp s)) (closing (client_tcp s)))"
  "state (snd (upstream_read_start R s)) = state s"
  "socks5_ctx (snd (upstream_read_start R s)) = socks5_ctx s"
  "client_buf (snd (upstream_read_start R s)) = client_buf s"
  "upstream_buf (snd (upstream_read_start R s)) = upstream_buf s"
  "freed (snd (upstream_read_start R s)) = freed s"
  "upstream_connect_req (snd (upstream_read_start R s)) = upstream_connect_req s"
  "upstream_addrinfo_req (snd (upstream_read_start R s)) = upstream_addrinfo_req s"
  "timer_release_req (snd (upstream_read_start R s)) =
     (if uv_read_start_ret R UpstreamTcp \<noteq> 0 \<and> closing (client_tcp s)
      then (timer_release_req s)\<lparr>timer_closing := False, timer_active := True\<rparr>
      else timer_release_req s)"
  "reading (client_tcp (snd (upstream_read_start R s))) = (uv_read_start_ret R UpstreamTcp = 0 \<and> reading (client_tcp s))"
  "closing (client_tcp (snd (upstream_read_start R s))) = (uv_read_start_ret R UpstreamTcp \<noteq> 0 \<or> closing (client_tcp s))"
  "close_cb (client_tcp (snd (upstream_read_start R s))) =
     (if uv_read_start_ret R UpstreamTcp \<noteq> 0 \<and> \<not> closing (client_tcp s) then True else close_cb (client_tcp s))"
  "write_queue (client_tcp (snd (upstream_read_start R s))) = write_queue (client_tcp s)"
  "reading (upstream_tcp (snd (upstream_read_start R s))) = (uv_read_start_ret R UpstreamTcp = 0)"
  "closing (upstream_tcp (snd (upstream_read_start R s))) = (uv_read_start_ret R UpstreamTcp \<noteq> 0 \<or> closing (upstream_tcp s))"
  "close_cb (upstream_tcp (snd (upstream_read_start R s))) =
     (if uv_read_start_ret R UpstreamTcp \<noteq> 0 \<and> \<not> closing (upstream_tcp s) then False else close_cb (upstream_tcp s))"
  "write_queue (upstream_tcp (snd (upstream_read_start R s))) = write_queue (upstream_tcp s)"
  by (simp_all add: upstream_read_start_def uv_read_start_def emit_def get_tcp_def set_tcp_def
      Let_def)

lemma client_write_start_view [simp]:
  "fst (client_write_start R base bytes s) = uv_write_ret R ClientTcp"
  "trace (snd (client_write_start R base bytes s)) =
     trace s @ UvWrite ClientTcp base bytes #
       (if uv_write_ret R ClientTcp = 0 then []
        else close_entries (closing (upstream_tcp s)) (closing (client_tcp s)))"
  "state (snd (client_write_start R base bytes s)) = state s"
  "socks5_ctx (snd (client_write_start R base bytes s)) = socks5_ctx s"
  "client_buf (snd (client_write_start R base bytes s)) = client_buf s"
  "upstream_buf (snd (client_write_start R base bytes s)) = upstream_buf s"
  "freed (snd (client_write_start R base bytes s)) = freed s"
  "upstream_connect_req (snd (client_write_start R base bytes s)) = upstream_connect_req s"
  "upstream_addrinfo_req (snd (client_write_start R base bytes s)) = upstream_addrinfo_req s"
  "timer_release_req (snd (client_write_start R base bytes s)) =
     (if uv_write_ret R ClientTcp \<noteq> 0 \<and> closing (client_tcp s)
      then (timer_release_req s)\<lparr>timer_closing := False, timer_active := True\<rparr>
      else timer_release_req s)"
  "reading (client_tcp (snd (client_write_start R base bytes s))) = (uv_write_ret R ClientTcp = 0 \<and> reading (client_tcp s))"
  "closing (client_tcp (snd (client_write_start R base bytes s))) = (uv_write_ret R ClientTcp \<noteq> 0 \<or> closing (client_tcp s))"
  "close_cb (client_tcp (snd (client_write_start R base bytes s))) =
     (if uv_write_ret R ClientTcp \<noteq> 0 \<and> \<not> closing (client_tcp s) then True else close_cb (client_tcp s))"
  "write_queue (client_tcp (snd (client_write_start R base bytes s))) =
     (if uv_write_ret R ClientTcp = 0 then write_queue (client_tcp s) @ [(base, bytes)] else write_queue (client_tcp s))"
  "reading (upstream_tcp (snd (client_write_start R base bytes s))) = (uv_write_ret R ClientTcp = 0 \<and> reading (upstream_tcp s))"
  "closing (upstream_tcp (snd (client_write_start R base bytes s))) = (uv_write_ret R ClientTcp \<noteq> 0 \<or> closing (upstream_tcp s))"
  "close_cb (upstream_tcp (snd (client_write_start R base bytes s))) =
     (if uv_write_ret R ClientTcp \<noteq> 0 \<and> \<not> closing (upstream_tcp s) then False else close_cb (upstream_tcp s))"
  "write_queue (upstream_tcp (snd (client_write_start R base bytes s))) = write_queue (upstream_tcp s)"
  by (simp_all add: client_write_start_def uv_write_def emit_def get_tcp_def set_tcp_def
      Let_def)

lemma upstream_write_start_view [simp]:
  "fst (upstream_write_start R base bytes s) = uv_write_ret R UpstreamTcp"
  "trace (snd (upstream_write_start R base bytes s)) =
     trace s @ UvWrite UpstreamTcp base bytes #
       (if uv_write_ret R UpstreamTcp = 0 then []
        else close_entries (closing (upstream_tcp s)) (closing (client_tcp s)))"
  "state (snd (upstream_write_start R base bytes s)) = state s"
  "socks5_ctx (snd (upstream_write_start R base bytes s)) = socks5_ctx s"
  "client_buf (snd (upstream_write_start R base bytes s)) = client_buf s"
  "upstream_buf (snd (upstream_write_start R base bytes s)) = upstream_buf s"
  "freed (snd (upstream_write_start R base bytes s)) = freed s"
  "upstream_connect_req (snd (upstream_write_start R base bytes s)) = upstream_connect_req s"
  "upstream_addrinfo_req (snd (upstream_write_start R base bytes s)) = upstream_addrinfo_req s"
  "timer_release_req (snd (upstream_write_start R base bytes s)) =
     (if uv_write_ret R UpstreamTcp \<noteq> 0 \<and> closing (client_tcp s)
      then (timer_release_req s)\<lparr>timer_closing := False, timer_active := True\<rparr>
      else timer_release_req s)"
  "reading (client_tcp (snd (upstream_write_start R base bytes s))) = (uv_write_ret R UpstreamTcp = 0 \<and> reading (client_tcp s))"
  "closing (client_tcp (snd (upstream_write_start R base bytes s))) = (uv_write_ret R UpstreamTcp \<noteq> 0 \<or> closing (client_tcp s))"
  "close_cb (client_tcp (snd (upstream_write_start R base bytes s))) =
     (if uv_write_ret R UpstreamTcp \<noteq> 0 \<and> \<not> closing (client_tcp s) then True else close_cb (client_tcp s))"
  "write_queue (client_tcp (snd (upstream_write_start R base bytes s))) = write_queue (client_tcp s)"
  "reading (upstream_tcp (snd (upstream_write_start R base bytes s))) = (uv_write_ret R UpstreamTcp = 0 \<and> reading (upstream_tcp s))"
  "closing (upstream_tcp (snd (upstream_write_start R base bytes s))) = (uv_write_ret R UpstreamTcp \<noteq> 0 \<or> closing (upstream_tcp s))"
  "close_cb (upstream_tcp (snd (upstream_write_start R base bytes s))) =
     (if uv_write_ret R UpstreamTcp \<noteq> 0 \<and> \<not> closing (upstream_tcp s) then False else close_cb (upstream_tcp s))"
  "write_queue (upstream_tcp (snd (upstream_write_start R base bytes s))) =
     (if uv_write_ret R UpstreamTcp = 0 then write_queue (upstream_tcp s) @ [(base, bytes)] else write_queue (upstream_tcp s))"
  by (simp_all add: upstream_write_start_def uv_write_def emit_def get_tcp_def set_tcp_def
      Let_def)

lemma fst_client_read_start [simp]:
  "fst (client_read_start R s) = uv_read_start_ret R ClientTcp"
  by (simp add: client_read_start_def uv_read_start_def Let_def)

lemma client_write_error_eq:
  "client_write_error P R err s =
     client_write_start R StackBuf (error_reply P err) (s\<lparr>state := S5_STREAMING_END\<rparr>)"
  by (simp add: client_write_error_def client_write_string_def error_reply_def Let_def)

lemma uv_getaddrinfo_effect:
  "uv_getaddrinfo R node s =
     (uv_getaddrinfo_ret R,
      if uv_getaddrinfo_ret R = 0
      then s\<lparr>trace := trace s @ [UvGetaddrinfo node], upstream_addrinfo_req := Some node\<rparr>
      else s\<lparr>trace := trace s @ [UvGetaddrinfo node]\<rparr>)"
  by (simp add: uv_defs Let_def)

lemmas op_views = client_write_error_eq client_write_string_def upstream_connect_effect
  uv_getaddrinfo_effect

lemma fresh_zero_mem: "fresh zero_mem"
  by (simp add: fresh_def zero_mem_def)

lemmas run_defs = step_def read_ok_def handler_defs write_defs uv_defs
  default_defs memcpy_def int_bytes_def Let_def split_def

section \<open>The error reply\<close>

text \<open>
  C6. Every error reply is written by \<open>client_write_error\<close>: ten bytes, VER = 5,
  RSV = 0, ATYP = 1, an all-zero address and port, and the REP byte of the switch:
  3 for network unreachable, 4 for host unreachable, 5 for connection refused, 7 for an
  unsupported command, 8 for a bad ATYP and 1 for every other error. The case labels of
  a C switch are pairwise distinct.
\<close>

theorem error_reply_format:
  assumes "distinct [UV_ENETUNREACH P, UV_EHOSTUNREACH P, UV_ECONNREFUSED P,
                     S5Err_int P S5_UNSUPPORTED_CMD, S5Err_int P S5_BAD_ATYP]"
  shows "writes_of (trace (snd (client_write_error P R err s))) =
           writes_of (trace s) @
             [UvWrite ClientTcp StackBuf
                [5, client_write_error_rep P err, 0, 1, 0, 0, 0, 0, 0, 0]] \<and>
         client_write_error_rep P (UV_ENETUNREACH P) = 3 \<and>
         client_write_error_rep P (UV_EHOSTUNREACH P) = 4 \<and>
         client_write_error_rep P (UV_ECONNREFUSED P) = 5 \<and>
         client_write_error_rep P (S5Err_int P S5_UNSUPPORTED_CMD) = 7 \<and>
         client_write_error_rep P (S5Err_int P S5_BAD_ATYP) = 8 \<and>
         (err \<notin> {UV_ENETUNREACH P, UV_EHOSTUNREACH P, UV_ECONNREFUSED P,
                  S5Err_int P S5_UNSUPPORTED_CMD, S5Err_int P S5_BAD_ATYP} \<longrightarrow>
          client_write_error_rep P err = 1)"
  using assms by (auto simp: client_write_error_writes client_write_error_rep_def)

text \<open>With the defaults: connection refused (errno 111) gives REP 5, the error
  code 20000 that \<open>on_client_read_done\<close> passes for an unknown ATYP gives REP 1.\<close>

theorem error_reply_format_witness:
  "writes_of (trace (snd (client_write_error default_params rets_ok (- 111) zero_mem))) =
     [UvWrite ClientTcp StackBuf [5, 5, 0, 1, 0, 0, 0, 0, 0, 0]] \<and>
   writes_of (trace (snd (client_write_error default_params rets_ok 20000 zero_mem))) =
     [UvWrite ClientTcp StackBuf [5, 1, 0, 1, 0, 0, 0, 0, 0, 0]]"
proof -
  have d: "distinct [UV_ENETUNREACH default_params, UV_EHOSTUNREACH default_params,
                     UV_ECONNREFUSED default_params,
                     S5Err_int default_params S5_UNSUPPORTED_CMD,
                     S5Err_int default_params S5_BAD_ATYP]"
    by (simp add: default_params_def)
  have r: "client_write_error_rep default_params (- 111) = 5"
          "client_write_error_rep default_params 20000 = 1"
    by (simp_all add: client_write_error_rep_def default_params_def)
  show ?thesis
    using error_reply_format [OF d, of rets_ok "- 111" zero_mem]
          error_reply_format [OF d, of rets_ok 20000 zero_mem] r
    by (simp add: zero_mem_def)
qed

section \<open>Relaying\<close>

lemma take_memcpy0 [simp]: "take (length bytes) (memcpy buf 0 bytes (length bytes)) = bytes"
  by (simp add: memcpy_def)

lemma step_ClientRead:
  "step P R (ClientRead nread bytes) s = Some s1 \<Longrightarrow> 0 < nread \<Longrightarrow>
   reading (client_tcp s) \<and> \<not> closing (client_tcp s) \<and> length bytes = nat nread \<and>
   s1 = on_client_read_done P R nread
          (emit (Callback (ClientRead nread bytes))
             (s\<lparr>client_buf := memcpy (client_buf s) 0 bytes (length bytes)\<rparr>))"
  by (auto simp: step_def read_ok_def split: if_splits)

lemma step_UpstreamRead:
  "step P R (UpstreamRead nread bytes) s = Some s1 \<Longrightarrow> 0 < nread \<Longrightarrow>
   reading (upstream_tcp s) \<and> \<not> closing (upstream_tcp s) \<and> length bytes = nat nread \<and>
   s1 = on_upstream_read_done R nread
          (emit (Callback (UpstreamRead nread bytes))
             (s\<lparr>upstream_buf := memcpy (upstream_buf s) 0 bytes (length bytes)\<rparr>))"
  by (auto simp: step_def read_ok_def split: if_splits)

lemma relay_client_read:
  assumes "state s = S5_STREAMING" "0 < nread" "take (nat nread) (client_buf s) = bytes"
  shows "writes_of (trace (on_client_read_done P R nread s)) =
           writes_of (trace s) @ [UvWrite UpstreamTcp ClientBuf bytes]"
  using assms
  by (simp add: on_client_read_done_def write_defs uv_defs Let_def split_def)

lemma relay_upstream_read:
  assumes "state s = S5_STREAMING" "0 < nread" "take (nat nread) (upstream_buf s) = bytes"
  shows "writes_of (trace (on_upstream_read_done R nread s)) =
           writes_of (trace s) @ [UvWrite ClientTcp UpstreamBuf bytes]"
  using assms
  by (simp add: on_upstream_read_done_def write_defs uv_defs Let_def split_def)

text \<open>
  C10. In phase Streaming a read callback with \<open>nread > 0\<close> calls \<open>uv_write\<close>
  exactly once, on the other endpoint, with exactly the bytes read: a client read is
  written to the upstream endpoint from \<open>client_buf\<close>, an upstream read to the client
  endpoint from \<open>upstream_buf\<close>.
\<close>

theorem streaming_read_is_written_to_other_side:
  assumes "state s = S5_STREAMING" and "0 < nread"
  shows "(step P R (ClientRead nread bytes) s = Some s1 \<longrightarrow>
            writes_of (trace s1) = writes_of (trace s) @ [UvWrite UpstreamTcp ClientBuf bytes]) \<and>
         (step P R (UpstreamRead nread bytes) s = Some s2 \<longrightarrow>
            writes_of (trace s2) = writes_of (trace s) @ [UvWrite ClientTcp UpstreamBuf bytes])"
proof (intro conjI impI)
  assume a: "step P R (ClientRead nread bytes) s = Some s1"
  note b = step_ClientRead [OF a assms(2)]
  from b have len: "nat nread = length bytes" by simp
  from b have s1: "s1 = on_client_read_done P R nread
          (emit (Callback (ClientRead nread bytes))
             (s\<lparr>client_buf := memcpy (client_buf s) 0 bytes (length bytes)\<rparr>))" by simp
  show "writes_of (trace s1) = writes_of (trace s) @ [UvWrite UpstreamTcp ClientBuf bytes]"
    unfolding s1 by (subst relay_client_read [where bytes = bytes])
      (simp_all add: assms emit_def len)
next
  assume a: "step P R (UpstreamRead nread bytes) s = Some s2"
  note b = step_UpstreamRead [OF a assms(2)]
  from b have len: "nat nread = length bytes" by simp
  from b have s2: "s2 = on_upstream_read_done R nread
          (emit (Callback (UpstreamRead nread bytes))
             (s\<lparr>upstream_buf := memcpy (upstream_buf s) 0 bytes (length bytes)\<rparr>))" by simp
  show "writes_of (trace s2) = writes_of (trace s) @ [UvWrite ClientTcp UpstreamBuf bytes]"
    unfolding s2 by (subst relay_upstream_read [where bytes = bytes])
      (simp_all add: assms emit_def len)
qed


text \<open>After the handshake of the default program, five bytes read from the client and
  three bytes read from upstream.\<close>

theorem streaming_read_is_written_to_other_side_witness:
  "\<exists>s s1 s2.
     run default_params handshake_events (on_connection_new rets_ok zero_mem) = Some s \<and>
     state s = S5_STREAMING \<and>
     step default_params rets_ok (ClientRead 5 [104, 101, 108, 108, 111]) s = Some s1 \<and>
     writes_of (trace s1) =
       writes_of (trace s) @ [UvWrite UpstreamTcp ClientBuf [104, 101, 108, 108, 111]] \<and>
     step default_params rets_ok (UpstreamRead 3 [1, 2, 3]) s = Some s2 \<and>
     writes_of (trace s2) = writes_of (trace s) @ [UvWrite ClientTcp UpstreamBuf [1, 2, 3]]"
proof -
  from handshake_run obtain s where
    s: "run default_params handshake_events (on_connection_new rets_ok zero_mem) = Some s"
       "state s = S5_STREAMING" "client_tcp s = idle_stream\<lparr>reading := True\<rparr>"
       "upstream_tcp s = idle_stream\<lparr>reading := True\<rparr>"
    by blast
  obtain s1 where s1: "step default_params rets_ok (ClientRead 5 [104, 101, 108, 108, 111]) s = Some s1"
    using s by (simp add: step_def read_ok_def idle_stream_def SESSION_DATA_BUFSIZ_def)
  obtain s2 where s2: "step default_params rets_ok (UpstreamRead 3 [1, 2, 3]) s = Some s2"
    using s by (simp add: step_def read_ok_def idle_stream_def SESSION_DATA_BUFSIZ_def)
  have pos: "(0::int) < 5" "(0::int) < 3" by simp_all
  from streaming_read_is_written_to_other_side [OF s(2) pos(1),
      where P = default_params and R = rets_ok and bytes = "[104, 101, 108, 108, 111]"
        and ?s1.0 = s1] s1
  have w1: "writes_of (trace s1) =
       writes_of (trace s) @ [UvWrite UpstreamTcp ClientBuf [104, 101, 108, 108, 111]]"
    by simp
  from streaming_read_is_written_to_other_side [OF s(2) pos(2),
      where P = default_params and R = rets_ok and bytes = "[1, 2, 3]" and ?s2.0 = s2] s2
  have w2: "writes_of (trace s2) = writes_of (trace s) @ [UvWrite ClientTcp UpstreamBuf [1, 2, 3]]"
    by simp
  from s s1 s2 w1 w2 show ?thesis by blast
qed

section \<open>Decoder errors\<close>

lemma session_closed_close_session [simp]: "session_closed (close_session s)"
  by (simp add: session_closed_def)

lemma on_client_write_done_ending:
  "state s = S5_STREAMING_END \<Longrightarrow> on_client_write_done R status s = close_session s"
  by (simp add: on_client_write_done_def)

lemma step_ClientWriteDone:
  "step P R (ClientWriteDone status) s = Some s1 \<Longrightarrow>
   s1 = on_client_write_done R status
          (emit (Callback (ClientWriteDone status))
             (s\<lparr>client_tcp := (client_tcp s)\<lparr>write_queue := tl (write_queue (client_tcp s))\<rparr>\<rparr>))"
  by (auto simp: step_def split: if_splits)

lemma method_identification_error:
  assumes "state s = S5_METHOD_IDENTIFICATION" "0 < nread"
    "fst (socks5_parse_method_identification P (socks5_ctx s) (take (nat nread) (client_buf s)))
       \<noteq> S5_OK"
  shows "writes_of (trace (on_client_read_done P R nread s)) = writes_of (trace s) \<and>
         session_closed (on_client_read_done P R nread s)"
  using assms
  by (simp add: on_client_read_done_def uv_defs Let_def split_def)

lemma request_error:
  assumes "state s = S5_REQUEST" "0 < nread"
    "fst (socks5_parse_request P (socks5_ctx s) (take (nat nread) (client_buf s))) = e"
    "e \<noteq> S5_OK" "s1 = on_client_read_done P R nread s"
  shows "writes_of (trace s1) =
           writes_of (trace s) @
             [UvWrite ClientTcp StackBuf
                [5, client_write_error_rep P (S5Err_int P e), 0, 1, 0, 0, 0, 0, 0, 0]] \<and>
         state s1 = S5_STREAMING_END \<and>
         (uv_write_ret R ClientTcp \<noteq> 0 \<longrightarrow> session_closed s1) \<and>
         (uv_write_ret R ClientTcp = 0 \<longrightarrow> write_queue (client_tcp s1) \<noteq> [])"
  using assms
  by (simp add: on_client_read_done_def write_defs uv_defs Let_def split_def session_closed_def
      close_session_def)

text \<open>
  C7. When the decoder reports an error in phase MethodNegotiation, the session is closed
  and nothing is written to the client. When it reports an error in phase Request, the
  error reply with the REP byte of that error is handed to \<open>uv_write\<close> and the
  phase becomes Ending; the session is closed at once when \<open>uv_write\<close> refuses the
  reply, and otherwise by the next write callback of the client endpoint, whatever its
  status.
\<close>

theorem decoder_error_handling:
  assumes "0 < nread" and "step P R (ClientRead nread bytes) s = Some s1"
  shows
    "(state s = S5_METHOD_IDENTIFICATION \<and>
      fst (socks5_parse_method_identification P (socks5_ctx s) bytes) \<noteq> S5_OK \<longrightarrow>
        writes_of (trace s1) = writes_of (trace s) \<and> session_closed s1) \<and>
     (state s = S5_REQUEST \<and> fst (socks5_parse_request P (socks5_ctx s) bytes) \<noteq> S5_OK \<longrightarrow>
        writes_of (trace s1) =
          writes_of (trace s) @
            [UvWrite ClientTcp StackBuf
               [5, client_write_error_rep P
                     (S5Err_int P (fst (socks5_parse_request P (socks5_ctx s) bytes))),
                0, 1, 0, 0, 0, 0, 0, 0]] \<and>
        state s1 = S5_STREAMING_END \<and>
        (uv_write_ret R ClientTcp \<noteq> 0 \<longrightarrow> session_closed s1) \<and>
        (uv_write_ret R ClientTcp = 0 \<longrightarrow>
           write_queue (client_tcp s1) \<noteq> [] \<and>
           (\<forall>R2 status s2. step P R2 (ClientWriteDone status) s1 = Some s2 \<longrightarrow>
              session_closed s2)))"
proof -
  note b = step_ClientRead [OF assms(2) assms(1)]
  define s0 where "s0 = emit (Callback (ClientRead nread bytes))
             (s\<lparr>client_buf := memcpy (client_buf s) 0 bytes (length bytes)\<rparr>)"
  from b have s1: "s1 = on_client_read_done P R nread s0" by (simp add: s0_def)
  from b have tk: "take (nat nread) (client_buf s0) = bytes"
    by (simp add: s0_def emit_def memcpy_def)
  have s0: "state s0 = state s" "socks5_ctx s0 = socks5_ctx s"
    "writes_of (trace s0) = writes_of (trace s)"
    by (simp_all add: s0_def emit_def)
  show ?thesis
  proof (intro conjI impI)
    assume a: "state s = S5_METHOD_IDENTIFICATION \<and>
      fst (socks5_parse_method_identification P (socks5_ctx s) bytes) \<noteq> S5_OK"
    from method_identification_error [of s0 nread P R] a assms(1) s0 tk s1
    show "writes_of (trace s1) = writes_of (trace s)" and "session_closed s1" by simp_all
  next
    assume a: "state s = S5_REQUEST \<and>
      fst (socks5_parse_request P (socks5_ctx s) bytes) \<noteq> S5_OK"
    note r = request_error [of s0 nread P "fst (socks5_parse_request P (socks5_ctx s) bytes)" s1 R]
    from r a assms(1) s0 tk s1 show "writes_of (trace s1) =
          writes_of (trace s) @
            [UvWrite ClientTcp StackBuf
               [5, client_write_error_rep P
                     (S5Err_int P (fst (socks5_parse_request P (socks5_ctx s) bytes))),
                0, 1, 0, 0, 0, 0, 0, 0]]" by simp
    from r a assms(1) s0 tk s1 show e: "state s1 = S5_STREAMING_END" by simp
    { assume "uv_write_ret R ClientTcp \<noteq> 0"
      with r a assms(1) s0 tk s1 show "session_closed s1" by simp }
    { assume "uv_write_ret R ClientTcp = 0"
      with r a assms(1) s0 tk s1 show "write_queue (client_tcp s1) \<noteq> []" by simp }
    show "\<forall>R2 status s2. step P R2 (ClientWriteDone status) s1 = Some s2 \<longrightarrow>
              session_closed s2"
    proof (intro allI impI)
      fix R2 status s2
      assume "step P R2 (ClientWriteDone status) s1 = Some s2"
      from step_ClientWriteDone [OF this] e show "session_closed s2"
        by (simp add: on_client_write_done_ending emit_def)
    qed
  qed
qed


text \<open>The default program: a greeting with VER = 4 is answered by closing; after a
  good greeting, a request with CMD = 2 (BIND) is answered with REP = 7 and closed when
  the reply has been written.\<close>

theorem decoder_error_handling_witness:
  "\<exists>s1 s s2 s3.
     step default_params rets_ok (ClientRead 1 [4]) (on_connection_new rets_ok zero_mem) = Some s1 \<and>
     writes_of (trace s1) = [] \<and> session_closed s1 \<and>
     run default_params greeting_events (on_connection_new rets_ok zero_mem) = Some s \<and>
     state s = S5_REQUEST \<and>
     step default_params rets_ok (ClientRead 4 [5, 2, 0, 1]) s = Some s2 \<and>
     writes_of (trace s2) =
       [UvWrite ClientTcp StringLiteral [5, 0],
        UvWrite ClientTcp StackBuf [5, 7, 0, 1, 0, 0, 0, 0, 0, 0]] \<and>
     state s2 = S5_STREAMING_END \<and>
     step default_params rets_ok (ClientWriteDone 0) s2 = Some s3 \<and> session_closed s3"
proof -
  let ?a = "on_connection_new rets_ok zero_mem"
  note acc = accepted_session
  obtain s1 where s1: "step default_params rets_ok (ClientRead 1 [4]) ?a = Some s1"
    using acc by (simp add: step_def read_ok_def idle_stream_def SESSION_DATA_BUFSIZ_def)
  have bad: "fst (socks5_parse_method_identification default_params (socks5_ctx ?a) [4]) \<noteq> S5_OK"
    using acc by (simp add: default_defs)
  have pos: "(0::int) < 1" "(0::int) < 4" by simp_all
  from decoder_error_handling [OF pos(1) s1] acc bad
  have c1: "writes_of (trace s1) = []" "session_closed s1" by simp_all
  from greeting_run obtain s where
    s: "run default_params greeting_events ?a = Some s" "state s = S5_REQUEST"
       "client_tcp s = idle_stream\<lparr>reading := True\<rparr>"
       "socks5_ctx s = zero_ctx\<lparr>parse_state := S5_PARSE_STATE_FINISH, methods := 1\<rparr>"
       "writes_of (trace s) = [UvWrite ClientTcp StringLiteral [5, 0]]"
    by blast
  obtain s2 where s2: "step default_params rets_ok (ClientRead 4 [5, 2, 0, 1]) s = Some s2"
    using s by (simp add: step_def read_ok_def idle_stream_def SESSION_DATA_BUFSIZ_def)
  have e: "fst (socks5_parse_request default_params (socks5_ctx s) [5, 2, 0, 1]) =
             S5_UNSUPPORTED_CMD"
    using s by (simp add: default_defs)
  have rep: "client_write_error_rep default_params
               (S5Err_int default_params S5_UNSUPPORTED_CMD) = 7"
    by (simp add: client_write_error_rep_def default_params_def)
  have ok: "uv_write_ret rets_ok ClientTcp = 0" by (simp add: rets_ok_def)
  note d = decoder_error_handling [OF pos(2) s2]
  from d s e rep have c2: "writes_of (trace s2) =
       [UvWrite ClientTcp StringLiteral [5, 0],
        UvWrite ClientTcp StackBuf [5, 7, 0, 1, 0, 0, 0, 0, 0, 0]]" "state s2 = S5_STREAMING_END"
    by simp_all
  from d s e ok have q: "write_queue (client_tcp s2) \<noteq> []"
    and cl: "\<forall>R2 status s3. step default_params R2 (ClientWriteDone status) s2 = Some s3 \<longrightarrow>
              session_closed s3"
    by simp_all
  obtain s3 where s3: "step default_params rets_ok (ClientWriteDone 0) s2 = Some s3"
    using q by (simp add: step_def)
  with cl have "session_closed s3" by blast
  with s1 c1 s s2 c2 s3 show ?thesis by blast
qed

section \<open>The greeting\<close>

lemma spec_parse_append:
  "spec_parse f ctx (a @ b) =
     (let r = spec_parse f ctx a in if fst r = S5_OK then spec_parse f (snd r) b else r)"
  by (induction a arbitrary: ctx) (simp_all add: Let_def)

lemma odd_or_bit: "odd ((m::int) OR 2 ^ unat (b::byte)) \<longleftrightarrow> odd m \<or> b = 0"
  by (simp add: even_or_iff unat_eq_0)

lemma methods_bytes:
  "parse_state ctx = S5_PARSE_STATE_METHODS \<Longrightarrow> length ms \<le> arg_count ctx \<Longrightarrow>
   0 < arg_count ctx \<Longrightarrow>
   fst (spec_parse spec_method_identification_byte ctx ms) = S5_OK \<and>
   (parse_state (snd (spec_parse spec_method_identification_byte ctx ms)) =
      (if length ms = arg_count ctx then S5_PARSE_STATE_FINISH else S5_PARSE_STATE_METHODS)) \<and>
   (odd (methods (snd (spec_parse spec_method_identification_byte ctx ms))) \<longleftrightarrow>
      odd (methods ctx) \<or> 0 \<in> set ms)"
proof (induction ms arbitrary: ctx)
  case Nil
  then show ?case by simp
next
  case (Cons b ms)
  let ?c = "snd (spec_method_identification_byte ctx b)"
  have b: "fst (spec_method_identification_byte ctx b) = S5_OK"
    "arg_count ?c = arg_count ctx - 1"
    "odd (methods ?c) \<longleftrightarrow> odd (methods ctx) \<or> b = 0"
    "parse_state ?c = (if arg_count ctx \<le> 1 then S5_PARSE_STATE_FINISH else S5_PARSE_STATE_METHODS)"
    using Cons.prems by (simp_all add: spec_method_identification_byte_def odd_or_bit)
  show ?case
  proof (cases ms)
    case Nil
    with b Cons.prems show ?thesis by (auto simp: Let_def)
  next
    case (Cons b2 ms2)
    with Cons.prems have "1 < arg_count ctx" by simp
    with b Cons.prems have "parse_state ?c = S5_PARSE_STATE_METHODS" "length ms \<le> arg_count ?c"
      "0 < arg_count ?c" by simp_all
    from Cons.IH [OF this] b Cons.prems show ?thesis by (auto simp: Let_def)
  qed
qed

text \<open>The greeting, cut anywhere: the decoder accepts the first part, and has finished
  exactly when nothing is left.\<close>

lemma greeting_split:
  assumes "parse_state ctx = S5_PARSE_STATE_VERSION" "ms \<noteq> []" "length ms \<le> 255"
    "p @ q = 5 # of_nat (length ms) # ms"
  shows "fst (spec_parse_method_identification ctx p) = S5_OK \<and>
         (parse_state (snd (spec_parse_method_identification ctx p)) = S5_PARSE_STATE_FINISH
            \<longleftrightarrow> q = []) \<and>
         (q = [] \<longrightarrow> (odd (methods (snd (spec_parse_method_identification ctx p)))
            \<longleftrightarrow> 0 \<in> set ms))"
proof (cases p)
  case Nil
  with assms show ?thesis by (simp add: spec_parse_method_identification_def)
next
  case (Cons a p1)
  with assms have a: "a = 5" by simp
  show ?thesis
  proof (cases p1)
    case Nil
    with Cons a assms show ?thesis
      by (auto simp: spec_parse_method_identification_def spec_method_identification_byte_def)
  next
    case (Cons n p2)
    with \<open>p = a # p1\<close> a assms have n: "n = of_nat (length ms)" and ms: "ms = p2 @ q" by simp_all
    have un: "unat n = length ms" using assms(3) n by (simp add: unat_of_nat take_bit_nat_eq_self)
    have n0: "n \<noteq> 0" using un assms(2) by (auto simp: unat_eq_0[symmetric])
    let ?c = "ctx\<lparr>parse_state := S5_PARSE_STATE_METHODS, arg_count := length ms, methods := 0\<rparr>"
    have two: "spec_parse_method_identification ctx p =
                 spec_parse spec_method_identification_byte ?c p2"
      using Cons \<open>p = a # p1\<close> a assms(1) n0 un
      by (simp add: spec_parse_method_identification_def spec_method_identification_byte_def Let_def)
    have "parse_state ?c = S5_PARSE_STATE_METHODS" "length p2 \<le> arg_count ?c" "0 < arg_count ?c"
      using ms assms(2) by auto
    from methods_bytes [OF this] two ms show ?thesis by auto
  qed
qed


lemma method_identification_need_more:
  assumes "state s = S5_METHOD_IDENTIFICATION" "0 < nread"
    "take (nat nread) (client_buf s) = bytes"
    "fst (socks5_parse_method_identification P (socks5_ctx s) bytes) = S5_OK"
    "parse_state (snd (socks5_parse_method_identification P (socks5_ctx s) bytes))
       \<noteq> S5_PARSE_STATE_FINISH"
    "s1 = on_client_read_done P R nread s"
  shows "writes_of (trace s1) = writes_of (trace s) \<and> state s1 = S5_METHOD_IDENTIFICATION \<and>
         socks5_ctx s1 = snd (socks5_parse_method_identification P (socks5_ctx s) bytes) \<and>
         (closing (client_tcp s) \<or> uv_read_start_ret R ClientTcp \<noteq> 0
            \<longrightarrow> closing (client_tcp s1))"
  using assms
  by (simp add: on_client_read_done_def client_read_start_def uv_defs Let_def split_def)

lemma method_identification_finish:
  assumes "state s = S5_METHOD_IDENTIFICATION" "0 < nread"
    "take (nat nread) (client_buf s) = bytes"
    "fst (socks5_parse_method_identification P (socks5_ctx s) bytes) = S5_OK"
    "parse_state (snd (socks5_parse_method_identification P (socks5_ctx s) bytes))
       = S5_PARSE_STATE_FINISH"
    "s1 = on_client_read_done P R nread s"
    "m = methods (snd (socks5_parse_method_identification P (socks5_ctx s) bytes))"
  shows "(m AND S5_AUTH_NONE P \<noteq> 0 \<longrightarrow>
            writes_of (trace s1) = writes_of (trace s) @ [UvWrite ClientTcp StringLiteral [5, 0]] \<and>
            state s1 = S5_REQUEST) \<and>
         (m AND S5_AUTH_NONE P = 0 \<longrightarrow>
            writes_of (trace s1) =
              writes_of (trace s) @ [UvWrite ClientTcp StringLiteral [5, 0xff]] \<and>
            state s1 = S5_STREAMING_END \<and>
            (uv_write_ret R ClientTcp \<noteq> 0 \<longrightarrow> session_closed s1) \<and>
            (uv_write_ret R ClientTcp = 0 \<longrightarrow> write_queue (client_tcp s1) \<noteq> []))"
  using assms
  by (simp add: on_client_read_done_def write_defs uv_defs Let_def split_def session_closed_def
      close_session_def)

lemma ending_write_done_closes:
  "state s1 = S5_STREAMING_END \<Longrightarrow> step P R2 (ClientWriteDone status) s1 = Some s2 \<Longrightarrow>
   session_closed s2"
  by (drule step_ClientWriteDone) (simp add: on_client_write_done_ending emit_def)

lemma greeting_chunks:
  assumes dec: "socks5_parse_method_identification P = spec_parse_method_identification"
    and auth: "S5_AUTH_NONE P = 1"
  shows "state s = S5_METHOD_IDENTIFICATION \<Longrightarrow> cs \<noteq> [] \<Longrightarrow> [] \<notin> set cs \<Longrightarrow>
    (\<And>p q. p @ q = concat cs \<Longrightarrow>
       fst (spec_parse_method_identification (socks5_ctx s) p) = S5_OK \<and>
       (parse_state (snd (spec_parse_method_identification (socks5_ctx s) p)) =
          S5_PARSE_STATE_FINISH \<longleftrightarrow> q = [])) \<Longrightarrow>
    run P (map (\<lambda>c. (R, ClientRead (int (length c)) c)) cs) s = Some s1 \<Longrightarrow>
    greeting_outcome P R
      (odd (methods (snd (spec_parse_method_identification (socks5_ctx s) (concat cs))))) s s1"
proof (induction cs arbitrary: s)
  case Nil
  then show ?case by simp
next
  case (Cons c cs)
  let ?pmi = spec_parse_method_identification
  from Cons.prems(3) have c: "c \<noteq> []" and cs0: "[] \<notin> set cs" by auto
  then have pos: "0 < int (length c)" by simp
  from Cons.prems(5) obtain s' where
    st: "step P R (ClientRead (int (length c)) c) s = Some s'" and
    rest: "run P (map (\<lambda>c. (R, ClientRead (int (length c)) c)) cs) s' = Some s1"
    by (auto split: option.splits)
  define s0 where "s0 = emit (Callback (ClientRead (int (length c)) c))
             (s\<lparr>client_buf := memcpy (client_buf s) 0 c (length c)\<rparr>)"
  from step_ClientRead [OF st pos] have s': "s' = on_client_read_done P R (int (length c)) s0"
    and ncl: "\<not> closing (client_tcp s)"
    by (simp_all add: s0_def)
  have s0: "state s0 = S5_METHOD_IDENTIFICATION" "socks5_ctx s0 = socks5_ctx s"
    "writes_of (trace s0) = writes_of (trace s)" "take (nat (int (length c))) (client_buf s0) = c"
    "closing (client_tcp s0) = closing (client_tcp s)"
    using Cons.prems(1) by (simp_all add: s0_def emit_def)
  from Cons.prems(4) [of c "concat cs"] have
    ok: "fst (?pmi (socks5_ctx s) c) = S5_OK" and
    fin: "parse_state (snd (?pmi (socks5_ctx s) c)) = S5_PARSE_STATE_FINISH \<longleftrightarrow> concat cs = []"
    by simp_all
  have cc: "?pmi (socks5_ctx s) (concat (c # cs)) = ?pmi (snd (?pmi (socks5_ctx s) c)) (concat cs)"
    using ok by (simp add: spec_parse_method_identification_def spec_parse_append)
  show ?case
  proof (cases cs)
    case Nil
    with fin have f: "parse_state (snd (?pmi (socks5_ctx s) c)) = S5_PARSE_STATE_FINISH" by simp
    from Nil rest have e: "s1 = s'" by simp
    have odd1: "m AND 1 \<noteq> 0 \<longleftrightarrow> odd m" for m :: int
      by (simp add: and_one_eq mod_2_eq_odd)
    note m = method_identification_finish [of s0 "int (length c)" c P s' R
        "methods (snd (?pmi (socks5_ctx s) c))"]
    from m s0 pos ok f s' dec auth Nil e show ?thesis
      by (auto simp: greeting_outcome_def odd1 dest: ending_write_done_closes)
  next
    case (Cons c2 cs2)
    with cs0 have "concat cs \<noteq> []" by auto
    with fin have nf: "parse_state (snd (?pmi (socks5_ctx s) c)) \<noteq> S5_PARSE_STATE_FINISH"
      by simp
    note n = method_identification_need_more [of s0 "int (length c)" c P s' R]
    from n s0 pos ok nf s' dec have
      k: "writes_of (trace s') = writes_of (trace s)" "state s' = S5_METHOD_IDENTIFICATION"
         "socks5_ctx s' = snd (?pmi (socks5_ctx s) c)"
      by simp_all
    have split: "fst (?pmi (socks5_ctx s') p) = S5_OK \<and>
       (parse_state (snd (?pmi (socks5_ctx s') p)) = S5_PARSE_STATE_FINISH \<longleftrightarrow> q = [])"
      if "p @ q = concat cs" for p q
    proof -
      from that have "(c @ p) @ q = concat (c # cs)" by simp
      from Cons.prems(4) [OF this] ok k(3) show ?thesis
        by (simp add: spec_parse_method_identification_def spec_parse_append)
    qed
    from Cons have ne: "cs \<noteq> []" by simp
    from Cons.IH [OF k(2) ne cs0 split rest] k cc show ?thesis
      by (simp add: greeting_outcome_def)
  qed
qed


text \<open>
  C8. A complete greeting with VER = 5 and NMETHODS = \<open>length ms\<close> in 1..255, read from
  the client in any number of non-empty pieces \<open>cs\<close>, with the decoder modelled from
  the spec: when method 0 is among the offered methods \<open>ms\<close>, the only write is the
  two bytes 05 00 and the phase becomes Request; otherwise the only write is 05 FF, the
  phase becomes Ending, and the session is closed, at once when \<open>uv_write\<close> refuses
  the reply and otherwise by the next write callback of the client endpoint.
\<close>

theorem greeting_selects_no_auth:
  assumes "socks5_parse_method_identification P = spec_parse_method_identification"
    and "S5_AUTH_NONE P = 1"
    and "state s = S5_METHOD_IDENTIFICATION"
    and "parse_state (socks5_ctx s) = S5_PARSE_STATE_VERSION"
    and "ms \<noteq> []" and "length ms \<le> 255"
    and "concat cs = 5 # of_nat (length ms) # ms" and "[] \<notin> set cs"
    and "run P (map (\<lambda>c. (R, ClientRead (int (length c)) c)) cs) s = Some s1"
  shows "if 0 \<in> set ms
         then writes_of (trace s1) =
                writes_of (trace s) @ [UvWrite ClientTcp StringLiteral [5, 0]] \<and>
              state s1 = S5_REQUEST
         else writes_of (trace s1) =
                writes_of (trace s) @ [UvWrite ClientTcp StringLiteral [5, 0xff]] \<and>
              state s1 = S5_STREAMING_END \<and>
              (if uv_write_ret R ClientTcp \<noteq> 0 then session_closed s1
               else write_queue (client_tcp s1) \<noteq> [] \<and>
                    (\<forall>R2 status s2. step P R2 (ClientWriteDone status) s1 = Some s2 \<longrightarrow>
                       session_closed s2))"
proof -
  from assms(7) have ne: "cs \<noteq> []" by auto
  have split: "fst (spec_parse_method_identification (socks5_ctx s) p) = S5_OK \<and>
       (parse_state (snd (spec_parse_method_identification (socks5_ctx s) p)) =
          S5_PARSE_STATE_FINISH \<longleftrightarrow> q = [])"
    if "p @ q = concat cs" for p q
    using greeting_split [OF assms(4) assms(5) assms(6), of p q] that assms(7) by simp
  have "odd (methods (snd (spec_parse_method_identification (socks5_ctx s) (concat cs))))
          \<longleftrightarrow> 0 \<in> set ms"
    using greeting_split [OF assms(4) assms(5) assms(6), of "concat cs" "[]"] assms(7) by simp
  with greeting_chunks [OF assms(1) assms(2) assms(3) ne assms(8) split assms(9)]
  show ?thesis by (simp add: greeting_outcome_def)
qed

text \<open>The default program: the greeting 05 01 00 in three reads of one byte is answered
  05 00; the greeting 05 01 02 (GSSAPI only) is answered 05 FF and closed.\<close>

lemma greeting_three_reads:
  "\<exists>s1. run default_params (map (\<lambda>c. (rets_ok, ClientRead (int (length c)) c)) [[5], [1], [0]])
           (on_connection_new rets_ok zero_mem) = Some s1"
  by (simp add: step_def read_ok_def handler_defs write_defs uv_defs
      default_defs memcpy_def Let_def split_def)

lemma greeting_gssapi_only:
  "\<exists>s2. run default_params (map (\<lambda>c. (rets_ok, ClientRead (int (length c)) c)) [[5, 1, 2]])
           (on_connection_new rets_ok zero_mem) = Some s2"
  by (simp add: step_def read_ok_def handler_defs write_defs uv_defs
      default_defs memcpy_def Let_def split_def)

theorem greeting_selects_no_auth_witness:
  "\<exists>s1 s2 s3.
     run default_params (map (\<lambda>c. (rets_ok, ClientRead (int (length c)) c)) [[5], [1], [0]])
       (on_connection_new rets_ok zero_mem) = Some s1 \<and>
     writes_of (trace s1) = [UvWrite ClientTcp StringLiteral [5, 0]] \<and> state s1 = S5_REQUEST \<and>
     run default_params (map (\<lambda>c. (rets_ok, ClientRead (int (length c)) c)) [[5, 1, 2]])
       (on_connection_new rets_ok zero_mem) = Some s2 \<and>
     writes_of (trace s2) = [UvWrite ClientTcp StringLiteral [5, 0xff]] \<and>
     state s2 = S5_STREAMING_END \<and>
     step default_params rets_ok (ClientWriteDone 0) s2 = Some s3 \<and> session_closed s3"
proof -
  let ?a = "on_connection_new rets_ok zero_mem"
  note acc = accepted_session
  have p: "socks5_parse_method_identification default_params = spec_parse_method_identification"
    "S5_AUTH_NONE default_params = 1" "state ?a = S5_METHOD_IDENTIFICATION"
    "parse_state (socks5_ctx ?a) = S5_PARSE_STATE_VERSION"
    using acc by (simp_all add: default_params_def zero_ctx_def)
  from greeting_three_reads obtain s1 where
    s1: "run default_params (map (\<lambda>c. (rets_ok, ClientRead (int (length c)) c)) [[5], [1], [0]])
           ?a = Some s1" by blast
  have "concat [[5], [1], [0]] = 5 # of_nat (length [0::byte]) # [0::byte]"
    "[0::byte] \<noteq> []" "length [0::byte] \<le> 255" "[] \<notin> set [[5], [1], [0::byte]]"
    by simp_all
  from greeting_selects_no_auth [OF p this(2) this(3) this(1) this(4) s1] acc
  have c1: "writes_of (trace s1) = [UvWrite ClientTcp StringLiteral [5, 0]]" "state s1 = S5_REQUEST"
    by simp_all
  from greeting_gssapi_only obtain s2 where
    s2: "run default_params (map (\<lambda>c. (rets_ok, ClientRead (int (length c)) c)) [[5, 1, 2]])
           ?a = Some s2" by blast
  have "concat [[5, 1, 2]] = 5 # of_nat (length [2::byte]) # [2::byte]"
    "[2::byte] \<noteq> []" "length [2::byte] \<le> 255" "[] \<notin> set [[5, 1, 2::byte]]"
    by simp_all
  from greeting_selects_no_auth [OF p this(2) this(3) this(1) this(4) s2] acc
  have c2: "writes_of (trace s2) = [UvWrite ClientTcp StringLiteral [5, 0xff]]"
    "state s2 = S5_STREAMING_END" "write_queue (client_tcp s2) \<noteq> []"
    "\<forall>R2 status s3. step default_params R2 (ClientWriteDone status) s2 = Some s3 \<longrightarrow>
        session_closed s3"
    by (simp_all add: rets_ok_def)
  obtain s3 where s3: "step default_params rets_ok (ClientWriteDone 0) s2 = Some s3"
    using c2(3) by (simp add: step_def)
  with c2(4) have "session_closed s3" by blast
  with s1 c1 s2 c2 s3 show ?thesis by blast
qed

section \<open>The success reply\<close>

text \<open>
  C2. The claim: the success reply carries the bound address and the listen port in
  network byte order, for 127.0.0.1:8789 the port bytes 22 55 (the claim writes 22 45).
  \<open>upstream_connect_cb\<close> copies the first two bytes of the \<open>int\<close> that holds the
  port: on a little-endian machine the reply ends 55 22, on a big-endian machine 00 00.
  When the server is bound to an IPv6 address the reply still says ATYP = 1, followed
  by the 16 address bytes.
\<close>

theorem success_reply_port_in_host_order:
  "writes_of (trace (upstream_connect_cb default_params R 0 s)) =
     writes_of (trace s) @
       [UvWrite ClientTcp ClientBuf [5, 0, 0, 1, 127, 0, 0, 1, 0x55, 0x22]] \<and>
   network_order 8789 = [0x22, 0x55] \<and>
   writes_of (trace (upstream_connect_cb (default_params\<lparr>little_endian := False\<rparr>) R 0 s)) =
     writes_of (trace s) @
       [UvWrite ClientTcp ClientBuf [5, 0, 0, 1, 127, 0, 0, 1, 0, 0]] \<and>
   writes_of (trace (upstream_connect_cb (default_params\<lparr>g_server_ctx := server_ctx_v6\<rparr>) R 0 s)) =
     writes_of (trace s) @
       [UvWrite ClientTcp ClientBuf
          [5, 0, 0, 1, 0, 0, 0, 0, 0, 0, 0, 0, 0, 0, 0, 0, 0, 0, 0, 1, 0x55, 0x22]]"
  by (simp add: upstream_connect_cb_def write_defs uv_defs default_defs server_ctx_v6_def
      network_order_def memcpy_def int_bytes_def Let_def split_def)

section \<open>Writes in flight\<close>

text \<open>
  C5. The claim: at most one write is outstanding on an endpoint, and reads on the
  endpoint whose buffer is being written stay paused until that write completes. After
  the handshake of the default program: the client sends five bytes (written to
  upstream from \<open>client_buf\<close>), upstream sends three bytes (written to the client),
  and the write to the client completes first. \<open>on_client_write_done\<close> then restarts
  reading on the client as well, while the write to upstream is in flight; the next
  client read overwrites \<open>client_buf\<close> and a second write to upstream is handed to
  \<open>uv_write\<close>.
\<close>

theorem two_writes_in_flight_on_upstream:
  "\<exists>s3 s4.
     run default_params (handshake_events @ take 3 relay_events)
       (on_connection_new rets_ok zero_mem) = Some s3 \<and>
     write_queue (upstream_tcp s3) = [(ClientBuf, [104, 101, 108, 108, 111])] \<and>
     reading (client_tcp s3) \<and>
     step default_params rets_ok (ClientRead 2 [7, 8]) s3 = Some s4 \<and>
     write_queue (upstream_tcp s4) =
       [(ClientBuf, [104, 101, 108, 108, 111]), (ClientBuf, [7, 8])] \<and>
     take 5 (client_buf s4) = [7, 8, 108, 108, 111]"
  by (simp add: handshake_events_def relay_events_def step_def read_ok_def handler_defs
      write_defs uv_defs default_defs memcpy_def int_bytes_def Let_def split_def)

section \<open>Connecting to a resolved name\<close>

lemma connects_of_simps [simp]:
  "connects_of [] = []"
  "connects_of (xs @ ys) = connects_of xs @ connects_of ys"
  "connects_of (x # xs) = (if is_connect x then x # connects_of xs else connects_of xs)"
  by (simp_all add: connects_of_def)

lemma connects_of_close_entries [simp]: "connects_of (close_entries a b) = []"
  by (simp add: close_entries_def)

lemma connects_of_close_session [simp]:
  "connects_of (trace (close_session s)) = connects_of (trace s)"
  by (simp add: close_session_def uv_defs Let_def)

lemma client_write_error_connects [simp]:
  "connects_of (trace (snd (client_write_error P R err s))) = connects_of (trace s)"
  by (simp add: write_defs uv_defs Let_def split_def)

lemma loop_effect:
  "let cands = List.map_filter (candidate_addr (dst_port (socks5_ctx s))) res;
       s1 = upstream_connect_domain_loop P R err res s
   in case List.find (\<lambda>a. uv_tcp_connect_ret R a = 0) cands of
        Some a \<Rightarrow>
          connects_of (trace s1) =
            connects_of (trace s) @
              map UvTcpConnect (takeWhile (\<lambda>a. uv_tcp_connect_ret R a \<noteq> 0) cands @ [a]) \<and>
          upstream_connect_req s1 = Some a \<and> state s1 = state s \<and>
          writes_of (trace s1) = writes_of (trace s)
      | None \<Rightarrow>
          connects_of (trace s1) = connects_of (trace s) @ map UvTcpConnect cands \<and>
          state s1 = S5_STREAMING_END \<and>
          writes_of (trace s1) =
            writes_of (trace s) @
              [UvWrite ClientTcp StackBuf
                 [5, client_write_error_rep P
                       (if cands = [] then err else uv_tcp_connect_ret R (last cands)),
                  0, 1, 0, 0, 0, 0, 0, 0]]"
proof (induction res arbitrary: s err)
  case Nil
  show ?case
    by (simp add: List.map_filter_simps client_write_error_writes client_write_error_state)
next
  case (Cons ai res)
  let ?p = "dst_port (socks5_ctx s)"
  have step_case: ?case
    if ca: "candidate_addr ?p ai = Some a"
      and lp: "upstream_connect_domain_loop P R err (ai # res) s =
                 (let (err1, s1) = upstream_connect R a s
                  in if err1 \<noteq> 0 then upstream_connect_domain_loop P R err1 res s1 else s1)"
    for a
  proof (cases "uv_tcp_connect_ret R a = 0")
    case True
    then show ?thesis
      unfolding lp by (simp add: List.map_filter_simps ca upstream_connect_effect Let_def)
  next
    case False
    with Cons.IH [of "s\<lparr>trace := trace s @ [UvTcpConnect a]\<rparr>" "uv_tcp_connect_ret R a"]
    show ?thesis
      unfolding lp
      by (auto simp: List.map_filter_simps ca upstream_connect_effect Let_def
          split: option.splits)
  qed
  show ?case
  proof (cases "ai_family ai")
    case AF_INET
    then show ?thesis
      by (intro step_case [of "Addr4 ?p (take 4 (ai_addr ai))"])
        (simp_all add: candidate_addr_def)
  next
    case AF_INET6
    then show ?thesis
      by (intro step_case [of "Addr6 ?p (take 16 (ai_addr ai))"])
        (simp_all add: candidate_addr_def)
  next
    case (AF_OTHER f)
    then have "candidate_addr ?p ai = None" by (simp add: candidate_addr_def)
    with AF_OTHER Cons.IH [of s err] show ?thesis
      by (simp add: List.map_filter_simps Let_def)
  qed
qed

lemma upstream_connect_cb_state:
  "state (upstream_connect_cb P R status s) =
     (if status < 0 then S5_STREAMING_END else S5_STREAMING)"
  by (simp add: upstream_connect_cb_def client_write_error_state write_defs uv_defs Let_def
      split_def)

text \<open>
  C3, as amended. After a DNS query that succeeded, \<open>upstream_connect_domain\<close> calls
  \<open>uv_tcp_connect\<close> for the IPv4 and IPv6 candidates in list order, up to and
  including the first one libuv accepts, and for none after it; that request is then
  pending. When libuv refuses every candidate, the phase becomes Ending and the error
  reply carries the REP of the error of the last call. The one pending connect decides:
  \<open>upstream_connect_cb\<close> moves to Streaming when it succeeded and writes the error
  reply of its status when it failed.
\<close>

theorem domain_connect_order:
  assumes "\<not> status < 0"
    and "cands = List.map_filter (candidate_addr (dst_port (socks5_ctx s))) res"
    and "s1 = upstream_connect_domain P R status res s"
  shows
    "(case List.find (\<lambda>a. uv_tcp_connect_ret R a = 0) cands of
        Some a \<Rightarrow>
          connects_of (trace s1) =
            connects_of (trace s) @
              map UvTcpConnect (takeWhile (\<lambda>a. uv_tcp_connect_ret R a \<noteq> 0) cands @ [a]) \<and>
          upstream_connect_req s1 = Some a \<and> state s1 = state s \<and>
          writes_of (trace s1) = writes_of (trace s)
      | None \<Rightarrow>
          connects_of (trace s1) = connects_of (trace s) @ map UvTcpConnect cands \<and>
          state s1 = S5_STREAMING_END \<and>
          (cands \<noteq> [] \<longrightarrow>
           writes_of (trace s1) =
             writes_of (trace s) @
               [UvWrite ClientTcp StackBuf
                  [5, client_write_error_rep P (uv_tcp_connect_ret R (last cands)),
                   0, 1, 0, 0, 0, 0, 0, 0]])) \<and>
     (\<forall>st s2. \<not> st < 0 \<longrightarrow> state (upstream_connect_cb P R st s2) = S5_STREAMING) \<and>
     (\<forall>st s2. st < 0 \<longrightarrow>
        state (upstream_connect_cb P R st s2) = S5_STREAMING_END \<and>
        writes_of (trace (upstream_connect_cb P R st s2)) =
          writes_of (trace s2) @
            [UvWrite ClientTcp StackBuf
               [5, client_write_error_rep P st, 0, 1, 0, 0, 0, 0, 0, 0]])"
proof -
  from assms have s1: "s1 = upstream_connect_domain_loop P R (indeterminate_int R) res s"
    by (simp add: upstream_connect_domain_def)
  from loop_effect [of s res P R "indeterminate_int R"] have
    "case List.find (\<lambda>a. uv_tcp_connect_ret R a = 0) cands of
        Some a \<Rightarrow>
          connects_of (trace s1) =
            connects_of (trace s) @
              map UvTcpConnect (takeWhile (\<lambda>a. uv_tcp_connect_ret R a \<noteq> 0) cands @ [a]) \<and>
          upstream_connect_req s1 = Some a \<and> state s1 = state s \<and>
          writes_of (trace s1) = writes_of (trace s)
      | None \<Rightarrow>
          connects_of (trace s1) = connects_of (trace s) @ map UvTcpConnect cands \<and>
          state s1 = S5_STREAMING_END \<and>
          (cands \<noteq> [] \<longrightarrow>
           writes_of (trace s1) =
             writes_of (trace s) @
               [UvWrite ClientTcp StackBuf
                  [5, client_write_error_rep P (uv_tcp_connect_ret R (last cands)),
                   0, 1, 0, 0, 0, 0, 0, 0]])"
    unfolding s1 assms(2) Let_def by (auto split: option.splits)
  moreover have "state (upstream_connect_cb P R st s2) = S5_STREAMING" if "\<not> st < 0" for st s2
    using that by (simp add: upstream_connect_cb_state)
  moreover have "state (upstream_connect_cb P R st s2) = S5_STREAMING_END \<and>
        writes_of (trace (upstream_connect_cb P R st s2)) =
          writes_of (trace s2) @
            [UvWrite ClientTcp StackBuf
               [5, client_write_error_rep P st, 0, 1, 0, 0, 0, 0, 0, 0]]" if "st < 0" for st s2
    using that by (simp add: upstream_connect_cb_def client_write_error_state
        client_write_error_writes)
  ultimately show ?thesis by blast
qed


text \<open>Four resolved addresses, the first of a family that is skipped, the second
  refused at once, the third accepted: two calls. Two addresses, both refused at once:
  the reply has the REP of the second error.\<close>

theorem domain_connect_order_witness:
  "connects_of (trace (upstream_connect_domain default_params
       (rets_ok\<lparr>uv_tcp_connect_ret := (\<lambda>a. if a = Addr4 0 [10, 0, 0, 1] then - 101 else 0)\<rparr>) 0
       [\<lparr>ai_family = AF_OTHER 1, ai_addr = []\<rparr>,
        \<lparr>ai_family = AF_INET, ai_addr = [10, 0, 0, 1]\<rparr>,
        \<lparr>ai_family = AF_INET, ai_addr = [10, 0, 0, 2]\<rparr>,
        \<lparr>ai_family = AF_INET, ai_addr = [10, 0, 0, 3]\<rparr>] zero_mem)) =
     [UvTcpConnect (Addr4 0 [10, 0, 0, 1]), UvTcpConnect (Addr4 0 [10, 0, 0, 2])] \<and>
   writes_of (trace (upstream_connect_domain default_params
       (rets_ok\<lparr>uv_tcp_connect_ret := (\<lambda>a. if a = Addr4 0 [10, 0, 0, 1] then - 101 else - 111)\<rparr>) 0
       [\<lparr>ai_family = AF_INET, ai_addr = [10, 0, 0, 1]\<rparr>,
        \<lparr>ai_family = AF_INET, ai_addr = [10, 0, 0, 2]\<rparr>] zero_mem)) =
     [UvWrite ClientTcp StackBuf [5, 5, 0, 1, 0, 0, 0, 0, 0, 0]]"
proof -
  define R1 where
    "R1 = rets_ok\<lparr>uv_tcp_connect_ret := (\<lambda>a. if a = Addr4 0 [10, 0, 0, 1] then - 101 else 0)\<rparr>"
  define R2 where
    "R2 = rets_ok\<lparr>uv_tcp_connect_ret := (\<lambda>a. if a = Addr4 0 [10, 0, 0, 1] then - 101 else - 111)\<rparr>"
  define res1 where "res1 =
       [\<lparr>ai_family = AF_OTHER 1, ai_addr = []\<rparr>,
        \<lparr>ai_family = AF_INET, ai_addr = [10, 0, 0, 1]\<rparr>,
        \<lparr>ai_family = AF_INET, ai_addr = [10, 0, 0, 2]\<rparr>,
        \<lparr>ai_family = AF_INET, ai_addr = [10, 0, 0, 3::byte]\<rparr>]"
  define res2 where "res2 =
       [\<lparr>ai_family = AF_INET, ai_addr = [10, 0, 0, 1]\<rparr>,
        \<lparr>ai_family = AF_INET, ai_addr = [10, 0, 0, 2::byte]\<rparr>]"
  have ok: "\<not> (0::int) < 0" by simp
  have c1: "List.map_filter (candidate_addr (dst_port (socks5_ctx zero_mem))) res1 =
              [Addr4 0 [10, 0, 0, 1], Addr4 0 [10, 0, 0, 2], Addr4 0 [10, 0, 0, 3]]"
    by (simp add: res1_def List.map_filter_simps candidate_addr_def zero_mem_def zero_ctx_def)
  have c2: "List.map_filter (candidate_addr (dst_port (socks5_ctx zero_mem))) res2 =
              [Addr4 0 [10, 0, 0, 1], Addr4 0 [10, 0, 0, 2]]"
    by (simp add: res2_def List.map_filter_simps candidate_addr_def zero_mem_def zero_ctx_def)
  have "connects_of (trace (upstream_connect_domain default_params R1 0 res1 zero_mem)) =
          [UvTcpConnect (Addr4 0 [10, 0, 0, 1]), UvTcpConnect (Addr4 0 [10, 0, 0, 2])]"
    using domain_connect_order [OF ok c1 [symmetric] refl, of default_params R1]
    by (simp add: R1_def rets_ok_def zero_mem_def)
  moreover
  have "writes_of (trace (upstream_connect_domain default_params R2 0 res2 zero_mem)) =
          [UvWrite ClientTcp StackBuf [5, 5, 0, 1, 0, 0, 0, 0, 0, 0]]"
    using domain_connect_order [OF ok c2 [symmetric] refl, of default_params R2]
    by (simp add: R2_def rets_ok_def zero_mem_def client_write_error_rep_def default_params_def)
  ultimately show ?thesis by (simp add: R1_def R2_def res1_def res2_def)
qed

text \<open>
  C3, as stated, fails: the name resolves to 10.0.0.1 and 10.0.0.2, libuv accepts the
  connect to 10.0.0.1 and later reports it refused. The client gets the error reply and
  10.0.0.2 is never tried.
\<close>

theorem second_candidate_never_tried:
  "map_option (\<lambda>s. (connects_of (trace s), writes_of (trace s), state s))
     (run default_params domain_refused_events (on_connection_new rets_ok zero_mem)) =
   Some ([UvTcpConnect (Addr4 80 [10, 0, 0, 1])],
         [UvWrite ClientTcp StringLiteral [5, 0],
          UvWrite ClientTcp StackBuf [5, 5, 0, 1, 0, 0, 0, 0, 0, 0]],
         S5_STREAMING_END)"
  by (simp add: domain_refused_events_def greeting_events_def step_def read_ok_def handler_defs
      write_defs uv_defs default_defs memcpy_def int_bytes_def client_write_error_rep_def
      Let_def split_def)

section \<open>The invariant of the handshake\<close>

lemma inv_close_session: "handshake_inv s \<Longrightarrow> handshake_inv (close_session s)"
  by (simp add: handshake_inv_def)

lemma handshake_inv_no_pending:
  "handshake_inv s \<Longrightarrow>
   reading (client_tcp s) \<or> write_queue (client_tcp s) \<noteq> [] \<or> state s \<noteq> S5_REQUEST \<Longrightarrow>
   upstream_connect_req s = None \<and> upstream_addrinfo_req s = None"
  unfolding handshake_inv_def by blast

lemma handshake_inv_quiet:
  "handshake_inv s \<Longrightarrow> state s \<noteq> S5_STREAMING \<Longrightarrow>
   \<not> reading (upstream_tcp s) \<and> write_queue (upstream_tcp s) = [] \<and>
   length (write_queue (client_tcp s)) \<le> 1 \<and>
   (reading (client_tcp s) \<longrightarrow> write_queue (client_tcp s) = [])"
  unfolding handshake_inv_def by blast

lemma handshake_inv_streaming:
  "state s = S5_STREAMING \<Longrightarrow> upstream_connect_req s = None \<Longrightarrow>
   upstream_addrinfo_req s = None \<Longrightarrow> handshake_inv s"
  unfolding handshake_inv_def by simp

lemma handshake_inv_idle:
  "upstream_connect_req s = None \<Longrightarrow> upstream_addrinfo_req s = None \<Longrightarrow>
   \<not> reading (upstream_tcp s) \<Longrightarrow> write_queue (upstream_tcp s) = [] \<Longrightarrow>
   length (write_queue (client_tcp s)) \<le> 1 \<Longrightarrow>
   \<not> reading (client_tcp s) \<or> write_queue (client_tcp s) = [] \<Longrightarrow> handshake_inv s"
  unfolding handshake_inv_def by auto

lemma inv_on_client_read_done:
  assumes inv: "handshake_inv s" and rd: "reading (client_tcp s)"
  shows "handshake_inv (on_client_read_done P R nread s)"
proof -
  from handshake_inv_no_pending [OF inv] rd have
    np: "upstream_connect_req s = None" "upstream_addrinfo_req s = None" by simp_all
  consider "nread = 0" | "nread < 0" | "0 < nread" by linarith
  then show ?thesis
  proof cases
    case 1
    with inv show ?thesis by (simp add: on_client_read_done_def)
  next
    case 2
    with inv show ?thesis
      by (simp add: on_client_read_done_def inv_close_session handshake_inv_def)
  next
    case 3
    show ?thesis
    proof (cases "state s = S5_STREAMING")
      case True
      with np 3 show ?thesis
        by (intro handshake_inv_streaming) (simp_all add: on_client_read_done_def)
    next
      case False
      from handshake_inv_quiet [OF inv False] rd have
        q: "\<not> reading (upstream_tcp s)" "write_queue (upstream_tcp s) = []"
           "write_queue (client_tcp s) = []" by simp_all
      show ?thesis
      proof (cases "state s")
        case S5_METHOD_IDENTIFICATION
        with np q 3 show ?thesis
          by (simp add: on_client_read_done_def handshake_inv_def op_views Let_def split_def)
      next
        case S5_REQUEST
        with np q 3 show ?thesis
          by (simp add: on_client_read_done_def handshake_inv_def op_views Let_def split_def)
      next
        case S5_STREAMING
        with False show ?thesis by simp
      next
        case S5_STREAMING_END
        with np q 3 show ?thesis
          by (simp add: on_client_read_done_def handshake_inv_def op_views Let_def split_def)
      qed
    qed
  qed
qed

lemma inv_on_upstream_read_done:
  assumes inv: "handshake_inv s" and rd: "reading (upstream_tcp s)"
  shows "handshake_inv (on_upstream_read_done R nread s)"
proof -
  from handshake_inv_quiet [OF inv] rd have st: "state s = S5_STREAMING" by blast
  with handshake_inv_no_pending [OF inv] have
    np: "upstream_connect_req s = None" "upstream_addrinfo_req s = None" by simp_all
  from st np show ?thesis
    by (intro handshake_inv_streaming) (simp_all add: on_upstream_read_done_def Let_def)
qed

lemma inv_on_client_write_done:
  assumes inv: "handshake_inv s" and wq: "write_queue (client_tcp s) \<noteq> []"
  shows "handshake_inv (on_client_write_done R status
           (s\<lparr>client_tcp := (client_tcp s)\<lparr>write_queue := tl (write_queue (client_tcp s))\<rparr>,
              trace := tr\<rparr>))"
proof -
  from handshake_inv_no_pending [OF inv] wq have
    np: "upstream_connect_req s = None" "upstream_addrinfo_req s = None" by simp_all
  show ?thesis
  proof (cases "state s = S5_STREAMING")
    case True
    with np show ?thesis
      by (intro handshake_inv_streaming) (simp_all add: on_client_write_done_def Let_def)
  next
    case False
    from handshake_inv_quiet [OF inv False] wq have
      q: "\<not> reading (upstream_tcp s)" "write_queue (upstream_tcp s) = []"
         "tl (write_queue (client_tcp s)) = []"
      by (simp_all, cases "write_queue (client_tcp s)", simp_all)
    from False np q show ?thesis
      by (intro handshake_inv_idle) (simp_all add: on_client_write_done_def Let_def)
  qed
qed

lemma inv_on_upstream_write_done:
  assumes inv: "handshake_inv s" and wq: "write_queue (upstream_tcp s) \<noteq> []"
  shows "handshake_inv (on_upstream_write_done R status
           (s\<lparr>upstream_tcp := (upstream_tcp s)\<lparr>write_queue := tl (write_queue (upstream_tcp s))\<rparr>,
              trace := tr\<rparr>))"
proof -
  from handshake_inv_quiet [OF inv] wq have st: "state s = S5_STREAMING" by blast
  with handshake_inv_no_pending [OF inv] have
    np: "upstream_connect_req s = None" "upstream_addrinfo_req s = None" by simp_all
  from st np show ?thesis
    by (intro handshake_inv_streaming) (simp_all add: on_upstream_write_done_def Let_def)
qed


lemma handshake_inv_frame [simp]:
  "handshake_inv (s\<lparr>trace := tr\<rparr>) = handshake_inv s"
  "handshake_inv (s\<lparr>client_buf := b\<rparr>) = handshake_inv s"
  "handshake_inv (s\<lparr>upstream_buf := b\<rparr>) = handshake_inv s"
  "handshake_inv (s\<lparr>timer_release_req := t\<rparr>) = handshake_inv s"
  "handshake_inv (s\<lparr>freed := n\<rparr>) = handshake_inv s"
  "handshake_inv (s\<lparr>socks5_ctx := c\<rparr>) = handshake_inv s"
  by (simp_all add: handshake_inv_def)

lemma inv_upstream_connect_cb:
  assumes inv: "handshake_inv s" and p: "upstream_connect_req s \<noteq> None"
  shows "handshake_inv (upstream_connect_cb P R status (s\<lparr>upstream_connect_req := None, trace := tr\<rparr>))"
proof -
  from inv p have f: "upstream_addrinfo_req s = None" "state s = S5_REQUEST"
    "\<not> reading (client_tcp s)" "write_queue (client_tcp s) = []"
    unfolding handshake_inv_def by blast+
  with handshake_inv_quiet [OF inv] have
    q: "\<not> reading (upstream_tcp s)" "write_queue (upstream_tcp s) = []" by simp_all
  show ?thesis
  proof (cases "status < 0")
    case True
    with f q show ?thesis
      by (intro handshake_inv_idle) (simp_all add: upstream_connect_cb_def op_views)
  next
    case False
    with f q show ?thesis
      by (intro handshake_inv_streaming) (simp_all add: upstream_connect_cb_def Let_def)
  qed
qed

lemma inv_upstream_connect_domain_loop:
  assumes "upstream_connect_req s = None" "upstream_addrinfo_req s = None"
    "state s = S5_REQUEST" "\<not> reading (client_tcp s)" "write_queue (client_tcp s) = []"
    "\<not> reading (upstream_tcp s)" "write_queue (upstream_tcp s) = []"
  shows "handshake_inv (upstream_connect_domain_loop P R err res s)"
  using assms
proof (induction res arbitrary: s err)
  case Nil
  then show ?case
    by (intro handshake_inv_idle) (simp_all add: op_views)
next
  case (Cons ai res)
  have attempt: "handshake_inv
               (let (err1, s1) = upstream_connect R a s
                in if err1 \<noteq> 0 then upstream_connect_domain_loop P R err1 res s1 else s1)" for a
  proof (cases "uv_tcp_connect_ret R a = 0")
    case True
    with Cons.prems show ?thesis
      by (simp add: upstream_connect_effect handshake_inv_def)
  next
    case False
    with Cons.prems Cons.IH [of "s\<lparr>trace := trace s @ [UvTcpConnect a]\<rparr>" "uv_tcp_connect_ret R a"]
    show ?thesis by (simp add: upstream_connect_effect)
  qed
  show ?case
  proof (cases "ai_family ai")
    case AF_INET
    with attempt show ?thesis by simp
  next
    case AF_INET6
    with attempt show ?thesis by simp
  next
    case (AF_OTHER f)
    with Cons.IH [OF Cons.prems] show ?thesis by simp
  qed
qed

lemma inv_upstream_connect_domain:
  assumes inv: "handshake_inv s" and p: "upstream_addrinfo_req s \<noteq> None"
  shows "handshake_inv (upstream_connect_domain P R status res
           (s\<lparr>upstream_addrinfo_req := None, trace := tr\<rparr>))"
proof -
  from inv p have f: "upstream_connect_req s = None" "state s = S5_REQUEST"
    "\<not> reading (client_tcp s)" "write_queue (client_tcp s) = []"
    unfolding handshake_inv_def by blast+
  with handshake_inv_quiet [OF inv] have
    q: "\<not> reading (upstream_tcp s)" "write_queue (upstream_tcp s) = []" by simp_all
  show ?thesis
  proof (cases "status < 0")
    case True
    with f q show ?thesis
      by (intro handshake_inv_idle) (simp_all add: upstream_connect_domain_def op_views)
  next
    case False
    with f q show ?thesis
      by (simp add: upstream_connect_domain_def inv_upstream_connect_domain_loop)
  qed
qed

lemma inv_timer_callbacks:
  "handshake_inv (client_handle_close_cb s) = handshake_inv s"
  "handshake_inv (release_timer_cb s) = handshake_inv s"
  "handshake_inv (release_timer_handle_close_cb s) = handshake_inv s"
  by (simp_all add: client_handle_close_cb_def release_timer_cb_def
      release_timer_handle_close_cb_def uv_defs Let_def)

lemma handshake_inv_close_cb [simp]:
  "handshake_inv (s\<lparr>client_tcp := (client_tcp s)\<lparr>close_cb := b\<rparr>\<rparr>) = handshake_inv s"
  by (simp add: handshake_inv_def)

lemma inv_step:
  assumes inv: "handshake_inv s" and st: "step P R e s = Some s1"
  shows "handshake_inv s1"
proof (cases e)
  case (ClientRead nread bytes)
  with st inv_on_client_read_done [of "s\<lparr>client_buf := memcpy (client_buf s) 0 bytes (length bytes),
      trace := trace s @ [Callback e]\<rparr>" P R nread] inv
  show ?thesis by (auto simp: step_def emit_def split: if_splits)
next
  case (UpstreamRead nread bytes)
  with st inv_on_upstream_read_done [of "s\<lparr>upstream_buf := memcpy (upstream_buf s) 0 bytes (length bytes),
      trace := trace s @ [Callback e]\<rparr>" R nread] inv
  show ?thesis by (auto simp: step_def emit_def split: if_splits)
next
  case (ClientWriteDone status)
  with st inv_on_client_write_done [OF inv, of R status "trace s @ [Callback e]"]
  show ?thesis by (auto simp: step_def emit_def split: if_splits)
next
  case (UpstreamWriteDone status)
  with st inv_on_upstream_write_done [OF inv, of R status "trace s @ [Callback e]"]
  show ?thesis by (auto simp: step_def emit_def split: if_splits)
next
  case (ConnectDone status)
  with st inv_upstream_connect_cb [OF inv, of P R status "trace s @ [Callback e]"]
  show ?thesis by (auto simp: step_def emit_def split: if_splits)
next
  case (AddrinfoDone status res)
  with st inv_upstream_connect_domain [OF inv, of P R status res "trace s @ [Callback e]"]
  show ?thesis by (auto simp: step_def emit_def split: if_splits)
next
  case ClientClosed
  with st inv show ?thesis
    by (auto simp: step_def emit_def inv_timer_callbacks split: if_splits)
next
  case TimerFired
  with st inv show ?thesis
    by (auto simp: step_def emit_def inv_timer_callbacks split: if_splits)
next
  case TimerClosed
  with st inv show ?thesis
    by (auto simp: step_def emit_def inv_timer_callbacks split: if_splits)
qed

lemma inv_run:
  "handshake_inv s0 \<Longrightarrow> run P evs s0 = Some s \<Longrightarrow> handshake_inv s"
proof (induction evs arbitrary: s0)
  case Nil
  then show ?case by simp
next
  case (Cons re evs)
  obtain R e where re: "re = (R, e)" by (cases re)
  with Cons.prems(2) obtain s1 where
    "step P R e s0 = Some s1" "run P evs s1 = Some s" by (auto split: option.splits)
  with Cons.IH inv_step [OF Cons.prems(1)] show ?case by blast
qed

lemma inv_on_connection_new:
  "fresh mem \<Longrightarrow> handshake_inv (on_connection_new R mem)"
  by (intro handshake_inv_idle)
    (simp_all add: fresh_def idle_stream_def on_connection_new_def create_session_def
      uv_tcp_init_def uv_tcp_keepalive_def uv_accept_def emit_def set_tcp_def Let_def split_def)

section \<open>Phase Ending\<close>

lemma ending_step:
  assumes e: "state s = S5_STREAMING_END" and np: "upstream_connect_req s = None"
    "upstream_addrinfo_req s = None" and st: "step P R e s = Some s1"
  shows "state s1 = S5_STREAMING_END \<and> read_starts_of (trace s1) = read_starts_of (trace s) \<and>
         writes_of (trace s1) = writes_of (trace s) \<and> (io_completion e \<longrightarrow> session_closed s1)"
proof (cases e)
  case (ClientRead nread bytes)
  with st e show ?thesis
    by (auto simp: step_def emit_def on_client_read_done_def Let_def session_closed_def
        split: if_splits)
next
  case (UpstreamRead nread bytes)
  with st e show ?thesis
    by (auto simp: step_def emit_def on_upstream_read_done_def Let_def session_closed_def
        split: if_splits)
next
  case (ClientWriteDone status)
  with st e show ?thesis
    by (auto simp: step_def emit_def on_client_write_done_def session_closed_def split: if_splits)
next
  case (UpstreamWriteDone status)
  with st e show ?thesis
    by (auto simp: step_def emit_def on_upstream_write_done_def session_closed_def
        split: if_splits)
next
  case (ConnectDone status)
  with st np show ?thesis by (simp add: step_def)
next
  case (AddrinfoDone status res)
  with st np show ?thesis by (simp add: step_def)
next
  case ClientClosed
  with st e show ?thesis
    by (auto simp: step_def emit_def client_handle_close_cb_def uv_defs Let_def split: if_splits)
next
  case TimerFired
  with st e show ?thesis
    by (auto simp: step_def emit_def release_timer_cb_def uv_defs Let_def split: if_splits)
next
  case TimerClosed
  with st e show ?thesis
    by (auto simp: step_def emit_def release_timer_handle_close_cb_def uv_defs Let_def
        split: if_splits)
qed

lemma loop_read_starts:
  "read_starts_of (trace (upstream_connect_domain_loop P R err res s)) = read_starts_of (trace s)"
proof (induction res arbitrary: s err)
  case Nil
  show ?case by (simp add: op_views)
next
  case (Cons ai res)
  have attempt: "read_starts_of (trace
               (let (err1, s1) = upstream_connect R a s
                in if err1 \<noteq> 0 then upstream_connect_domain_loop P R err1 res s1 else s1)) =
             read_starts_of (trace s)" for a
    by (simp add: upstream_connect_effect Cons.IH)
  show ?case
  proof (cases "ai_family ai")
    case AF_INET
    with attempt show ?thesis by simp
  next
    case AF_INET6
    with attempt show ?thesis by simp
  next
    case (AF_OTHER f)
    with Cons.IH show ?thesis by simp
  qed
qed

lemma client_read_read_starts:
  assumes "state (on_client_read_done P R nread s) = S5_STREAMING_END"
  shows "read_starts_of (trace (on_client_read_done P R nread s)) = read_starts_of (trace s)"
proof (cases "state s")
  case S5_METHOD_IDENTIFICATION
  show ?thesis
  proof (cases "0 < nread \<and>
      fst (socks5_parse_method_identification P (socks5_ctx s) (take (nat nread) (client_buf s)))
        = S5_OK \<and>
      parse_state (snd (socks5_parse_method_identification P (socks5_ctx s)
        (take (nat nread) (client_buf s)))) \<noteq> S5_PARSE_STATE_FINISH")
    case True
    with S5_METHOD_IDENTIFICATION assms show ?thesis
      by (simp add: on_client_read_done_def Let_def split_def)
  next
    case False
    with S5_METHOD_IDENTIFICATION show ?thesis
      by (simp add: on_client_read_done_def op_views Let_def split_def)
  qed
next
  case S5_REQUEST
  then show ?thesis
    by (simp add: on_client_read_done_def op_views Let_def split_def)
next
  case S5_STREAMING
  then show ?thesis
    by (simp add: on_client_read_done_def op_views Let_def split_def)
next
  case S5_STREAMING_END
  then show ?thesis
    by (simp add: on_client_read_done_def op_views Let_def split_def)
qed

lemma client_write_done_read_starts:
  assumes "state (on_client_write_done R status s) = S5_STREAMING_END"
  shows "read_starts_of (trace (on_client_write_done R status s)) = read_starts_of (trace s)"
proof (cases "status < 0 \<or> state s = S5_STREAMING_END")
  case True
  then show ?thesis by (simp add: on_client_write_done_def)
next
  case False
  with assms show ?thesis by (simp add: on_client_write_done_def Let_def split: if_splits)
qed

lemma upstream_write_done_read_starts:
  assumes "state (on_upstream_write_done R status s) = S5_STREAMING_END"
  shows "read_starts_of (trace (on_upstream_write_done R status s)) = read_starts_of (trace s)"
proof (cases "status < 0 \<or> state s = S5_STREAMING_END")
  case True
  then show ?thesis by (simp add: on_upstream_write_done_def)
next
  case False
  with assms show ?thesis by (simp add: on_upstream_write_done_def)
qed

lemma other_read_starts:
  "read_starts_of (trace (on_upstream_read_done R nread s)) = read_starts_of (trace s)"
  "read_starts_of (trace (upstream_connect_cb P R status s)) = read_starts_of (trace s)"
  "read_starts_of (trace (upstream_connect_domain P R status res s)) = read_starts_of (trace s)"
  "read_starts_of (trace (client_handle_close_cb s)) = read_starts_of (trace s)"
  "read_starts_of (trace (release_timer_cb s)) = read_starts_of (trace s)"
  "read_starts_of (trace (release_timer_handle_close_cb s)) = read_starts_of (trace s)"
  by (simp_all add: on_upstream_read_done_def upstream_connect_cb_def upstream_connect_domain_def
      client_handle_close_cb_def release_timer_cb_def release_timer_handle_close_cb_def
      op_views loop_read_starts uv_defs Let_def)

lemma entering_ending_starts_no_read:
  assumes st: "step P R e s = Some s1" and e: "state s1 = S5_STREAMING_END"
  shows "read_starts_of (trace s1) = read_starts_of (trace s)"
proof -
  from st have s1: "s1 = callback P R e (emit (Callback e) (deliver e s))"
    by (simp add: step_def split: if_splits)
  from e show ?thesis unfolding s1
    by (cases e)
      (simp_all add: client_read_read_starts client_write_done_read_starts
        upstream_write_done_read_starts other_read_starts emit_def)
qed

text \<open>
  The phase \<open>S5_STREAMING_END\<close>, which is set before the reply 05 FF and before an
  error reply. For every session reached from an accepted connection: a callback that
  leaves the session in this phase calls \<open>uv_read_start\<close> on neither endpoint. Once
  the phase is \<open>S5_STREAMING_END\<close> it stays so; a write callback, whatever its status,
  and a read callback with \<open>nread\<close> other than 0 go to \<open>close_session\<close>, and no
  callback hands anything to \<open>uv_write\<close>.
\<close>

theorem ending_is_terminal:
  assumes "fresh mem" and "run P evs (on_connection_new R0 mem) = Some s"
    and "step P R e s = Some s1"
  shows "(state s1 = S5_STREAMING_END \<longrightarrow> read_starts_of (trace s1) = read_starts_of (trace s)) \<and>
         (state s = S5_STREAMING_END \<longrightarrow>
            state s1 = S5_STREAMING_END \<and> writes_of (trace s1) = writes_of (trace s) \<and>
            (io_completion e \<longrightarrow> session_closed s1))"
proof -
  from inv_run [OF inv_on_connection_new [OF assms(1)] assms(2)] have inv: "handshake_inv s" .
  have "state s1 = S5_STREAMING_END \<and> writes_of (trace s1) = writes_of (trace s) \<and>
            (io_completion e \<longrightarrow> session_closed s1)" if e: "state s = S5_STREAMING_END"
  proof -
    from handshake_inv_no_pending [OF inv] e have
      "upstream_connect_req s = None" "upstream_addrinfo_req s = None" by simp_all
    from ending_step [OF e this assms(3)] show ?thesis by simp
  qed
  with entering_ending_starts_no_read [OF assms(3)] show ?thesis by blast
qed


text \<open>The default program after the greeting 05 01 02: the phase is Ending with the
  reply 05 FF in flight; its write callback closes the session.\<close>

lemma gssapi_run:
  "\<exists>s. run default_params [(rets_ok, ClientRead 3 [5, 1, 2])]
         (on_connection_new rets_ok zero_mem) = Some s \<and>
       state s = S5_STREAMING_END \<and> write_queue (client_tcp s) \<noteq> []"
  by (simp add: step_def read_ok_def handler_defs write_defs uv_defs
      default_defs memcpy_def Let_def split_def)

theorem ending_is_terminal_witness:
  "\<exists>s s1.
     run default_params [(rets_ok, ClientRead 3 [5, 1, 2])]
       (on_connection_new rets_ok zero_mem) = Some s \<and>
     state s = S5_STREAMING_END \<and>
     step default_params rets_ok (ClientWriteDone 0) s = Some s1 \<and>
     state s1 = S5_STREAMING_END \<and>
     read_starts_of (trace s1) = read_starts_of (trace s) \<and>
     writes_of (trace s1) = writes_of (trace s) \<and> session_closed s1"
proof -
  from gssapi_run obtain s where
    s: "run default_params [(rets_ok, ClientRead 3 [5, 1, 2])]
          (on_connection_new rets_ok zero_mem) = Some s"
       "state s = S5_STREAMING_END" "write_queue (client_tcp s) \<noteq> []"
    by blast
  obtain s1 where s1: "step default_params rets_ok (ClientWriteDone 0) s = Some s1"
    using s(3) by (simp add: step_def)
  from ending_is_terminal [OF fresh_zero_mem s(1) s1] s(2)
  have "state s1 = S5_STREAMING_END" "read_starts_of (trace s1) = read_starts_of (trace s)"
    "writes_of (trace s1) = writes_of (trace s)" "session_closed s1"
    by simp_all
  with s s1 show ?thesis by blast
qed

text \<open>
  C9. The claim: after a session enters phase Ending no further read is started on
  either endpoint, and a write in flight goes to the close path whether it succeeds or
  fails. \<open>close_session\<close> does not set \<open>sess->state\<close>, so a session closed by an end
  of file or an error while relaying keeps the phase \<open>S5_STREAMING\<close>. After the
  handshake of the default program: upstream sends three bytes, which are written to the
  client, and the client's end of file is read before that write's callback;
  \<open>close_session\<close> stops both reads and closes both endpoints. The write's callback
  with status 0 then calls \<open>uv_read_start\<close> on the client endpoint and on the upstream
  endpoint, both closing, and does not call \<open>close_session\<close>. When libuv refuses the
  two calls, each refusal calls \<open>close_session\<close> again, which schedules the release
  timer from inside the write callback, twice.
\<close>

theorem read_started_after_close:
  "\<exists>s s1 s2.
     run default_params closed_in_streaming_events (on_connection_new rets_ok zero_mem) = Some s \<and>
     state s = S5_STREAMING \<and> session_closed s \<and>
     \<not> reading (client_tcp s) \<and> \<not> reading (upstream_tcp s) \<and>
     write_queue (client_tcp s) = [(UpstreamBuf, [1, 2, 3])] \<and>
     step default_params rets_ok (ClientWriteDone 0) s = Some s1 \<and>
     trace s1 = trace s @
       [Callback (ClientWriteDone 0), UvReadStart ClientTcp, UvReadStart UpstreamTcp] \<and>
     step default_params rets_read_refused (ClientWriteDone 0) s = Some s2 \<and>
     trace s2 = trace s @
       [Callback (ClientWriteDone 0),
        UvReadStart ClientTcp, UvReadStop UpstreamTcp, UvReadStop ClientTcp,
        UvTimerInit, UvTimerStart,
        UvReadStart UpstreamTcp, UvReadStop UpstreamTcp, UvReadStop ClientTcp,
        UvTimerInit, UvTimerStart]"
  by (simp add: closed_in_streaming_events_def handshake_events_def rets_read_refused_def
      session_closed_def close_entries_def run_defs)

section \<open>Streaming and the success reply\<close>

lemma marks_of_simps [simp]:
  "marks_of [] = []"
  "marks_of (xs @ ys) = marks_of xs @ marks_of ys"
  "marks_of (x # xs) =
     (if is_success_reply x \<or> is_relay x \<or> is_client_write_done x then x # marks_of xs
      else marks_of xs)"
  by (simp_all add: marks_of_def)

lemma marks_of_close_entries [simp]: "marks_of (close_entries a b) = []"
  by (simp add: close_entries_def)

lemma reply_next_unmarked:
  "\<not> (is_success_reply x \<or> is_relay x \<or> is_client_write_done x) \<Longrightarrow> reply_next ph x = Some ph"
  by (cases "(ph, x)" rule: reply_next.cases) auto

lemma reply_monitor_marks: "reply_monitor ph tr = reply_monitor ph (marks_of tr)"
proof (induction tr arbitrary: ph)
  case Nil
  show ?case by simp
next
  case (Cons x tr)
  show ?case
  proof (cases "is_success_reply x \<or> is_relay x \<or> is_client_write_done x")
    case True
    with Cons show ?thesis by (auto split: option.splits)
  next
    case False
    with Cons reply_next_unmarked [OF False] show ?thesis by simp
  qed
qed

lemma reply_monitor_append:
  "reply_monitor ph (xs @ ys) =
     (case reply_monitor ph xs of None \<Rightarrow> None | Some ph1 \<Rightarrow> reply_monitor ph1 ys)"
  by (induction xs arbitrary: ph) (auto split: option.splits)

lemma reply_monitor_step:
  "marks_of tr1 = marks_of tr @ ms \<Longrightarrow> reply_monitor ph tr = Some ph1 \<Longrightarrow>
   reply_monitor ph tr1 = reply_monitor ph1 ms"
  by (metis reply_monitor_marks reply_monitor_append option.simps(5))


lemma marks_client_read:
  "marks_of (trace (on_client_read_done P R nread s)) =
     marks_of (trace s) @
       (if 0 < nread \<and> state s = S5_STREAMING
        then [UvWrite UpstreamTcp ClientBuf (take (nat nread) (client_buf s))] else [])"
proof -
  consider "nread = 0" | "nread < 0" | "0 < nread" by linarith
  then show ?thesis
  proof cases
    case 1
    then show ?thesis by (simp add: on_client_read_done_def)
  next
    case 2
    then show ?thesis by (simp add: on_client_read_done_def)
  next
    case 3
    then show ?thesis
      by (cases "state s")
        (simp_all add: on_client_read_done_def op_views Let_def split_def)
  qed
qed

lemma state_client_read:
  "(state (on_client_read_done P R nread s) = S5_STREAMING) = (state s = S5_STREAMING)"
  by (cases "state s")
    (simp_all add: on_client_read_done_def op_views Let_def split_def)

lemma marks_upstream_read:
  "marks_of (trace (on_upstream_read_done R nread s)) =
     marks_of (trace s) @
       (if 0 < nread \<and> state s \<noteq> S5_STREAMING_END
        then [UvWrite ClientTcp UpstreamBuf (take (nat nread) (upstream_buf s))] else [])"
  by (simp add: on_upstream_read_done_def Let_def)

lemma state_upstream_read: "state (on_upstream_read_done R nread s) = state s"
  by (simp add: on_upstream_read_done_def Let_def)

lemma marks_client_write_done:
  "marks_of (trace (on_client_write_done R status s)) =
     marks_of (trace s) @
       (if \<not> status < 0 \<and> state s = S5_STREAMING then [UvReadStart UpstreamTcp] else [])"
  by (simp add: on_client_write_done_def Let_def)

lemma state_client_write_done: "state (on_client_write_done R status s) = state s"
  by (simp add: on_client_write_done_def Let_def)

lemma marks_upstream_write_done:
  "marks_of (trace (on_upstream_write_done R status s)) = marks_of (trace s)"
  by (simp add: on_upstream_write_done_def)

lemma state_upstream_write_done: "state (on_upstream_write_done R status s) = state s"
  by (simp add: on_upstream_write_done_def)

lemma marks_connect_cb:
  "marks_of (trace (upstream_connect_cb P R status s)) =
     marks_of (trace s) @
       (if status < 0 then []
        else [UvWrite ClientTcp ClientBuf
                (take (if bound_ip_ver (g_server_ctx P) = IPV4 then 10 else 22)
                   (client_buf (upstream_connect_cb P R status s)))])"
  by (simp add: upstream_connect_cb_def op_views Let_def)

lemma connect_cb_fields:
  "\<not> status < 0 \<Longrightarrow>
   reading (client_tcp (upstream_connect_cb P R status s)) =
     (uv_write_ret R ClientTcp = 0 \<and> reading (client_tcp s)) \<and>
   reading (upstream_tcp (upstream_connect_cb P R status s)) =
     (uv_write_ret R ClientTcp = 0 \<and> reading (upstream_tcp s)) \<and>
   write_queue (upstream_tcp (upstream_connect_cb P R status s)) = write_queue (upstream_tcp s) \<and>
   length (write_queue (client_tcp (upstream_connect_cb P R status s))) \<le>
     Suc (length (write_queue (client_tcp s)))"
  by (simp add: upstream_connect_cb_def Let_def)

lemma loop_marks:
  "marks_of (trace (upstream_connect_domain_loop P R err res s)) = marks_of (trace s) \<and>
   (state s \<noteq> S5_STREAMING \<longrightarrow>
      state (upstream_connect_domain_loop P R err res s) \<noteq> S5_STREAMING)"
proof (induction res arbitrary: s err)
  case Nil
  show ?case by (simp add: op_views)
next
  case (Cons ai res)
  have attempt:
    "marks_of (trace
       (let (err1, s1) = upstream_connect R a s
        in if err1 \<noteq> 0 then upstream_connect_domain_loop P R err1 res s1 else s1)) =
     marks_of (trace s) \<and>
     (state s \<noteq> S5_STREAMING \<longrightarrow>
      state (let (err1, s1) = upstream_connect R a s
             in if err1 \<noteq> 0 then upstream_connect_domain_loop P R err1 res s1 else s1)
        \<noteq> S5_STREAMING)" for a
    using Cons.IH [of "uv_tcp_connect_ret R a" "s\<lparr>trace := trace s @ [UvTcpConnect a]\<rparr>"]
    by (simp add: upstream_connect_effect)
  show ?case
  proof (cases "ai_family ai")
    case AF_INET
    with attempt show ?thesis by simp
  next
    case AF_INET6
    with attempt show ?thesis by simp
  next
    case (AF_OTHER f)
    with Cons.IH show ?thesis by simp
  qed
qed

lemma marks_connect_domain:
  "marks_of (trace (upstream_connect_domain P R status res s)) = marks_of (trace s)"
  "state s \<noteq> S5_STREAMING \<Longrightarrow> state (upstream_connect_domain P R status res s) \<noteq> S5_STREAMING"
  by (simp_all add: upstream_connect_domain_def op_views loop_marks)

lemma timer_callbacks_view [simp]:
  "marks_of (trace (client_handle_close_cb s)) = marks_of (trace s)"
  "marks_of (trace (release_timer_cb s)) = marks_of (trace s)"
  "marks_of (trace (release_timer_handle_close_cb s)) = marks_of (trace s)"
  "state (client_handle_close_cb s) = state s"
  "state (release_timer_cb s) = state s"
  "state (release_timer_handle_close_cb s) = state s"
  "client_tcp (client_handle_close_cb s) = client_tcp s"
  "client_tcp (release_timer_cb s) = client_tcp s"
  "client_tcp (release_timer_handle_close_cb s) = client_tcp s"
  "upstream_tcp (client_handle_close_cb s) = upstream_tcp s"
  "upstream_tcp (release_timer_cb s) = upstream_tcp s"
  "upstream_tcp (release_timer_handle_close_cb s) = upstream_tcp s"
  by (simp_all add: client_handle_close_cb_def release_timer_cb_def
      release_timer_handle_close_cb_def uv_defs Let_def)

lemma reply_invD:
  assumes "reply_inv s"
  shows "\<exists>ph. reply_monitor NoReply (trace s) = Some ph \<and>
    (ph = NoReply \<longrightarrow> state s \<noteq> S5_STREAMING) \<and>
    (ph \<noteq> NoReply \<longrightarrow> state s = S5_STREAMING) \<and>
    (ph = ReplyInFlight \<or> ph = ReplyFailed \<longrightarrow>
       \<not> reading (client_tcp s) \<and> \<not> reading (upstream_tcp s) \<and>
       write_queue (upstream_tcp s) = [] \<and> length (write_queue (client_tcp s)) \<le> 1) \<and>
    (ph = ReplyFailed \<longrightarrow> write_queue (client_tcp s) = [])"
proof (cases "reply_monitor NoReply (trace s)")
  case None
  with assms show ?thesis by (simp add: reply_inv_def)
next
  case (Some ph)
  with assms show ?thesis
    by (cases ph) (simp_all add: reply_inv_def)
qed

lemma reply_invI:
  assumes "reply_monitor NoReply (trace s) = Some ph"
    and "ph = NoReply \<Longrightarrow> state s \<noteq> S5_STREAMING"
    and "ph \<noteq> NoReply \<Longrightarrow> state s = S5_STREAMING"
    and "ph = ReplyInFlight \<or> ph = ReplyFailed \<Longrightarrow>
       \<not> reading (client_tcp s) \<and> \<not> reading (upstream_tcp s) \<and>
       write_queue (upstream_tcp s) = [] \<and> length (write_queue (client_tcp s)) \<le> 1"
    and "ph = ReplyFailed \<Longrightarrow> write_queue (client_tcp s) = []"
  shows "reply_inv s"
  using assms by (cases ph) (simp_all add: reply_inv_def)

lemma step_callback:
  "step P R e s = Some s1 \<Longrightarrow>
   enabled e s \<and> s1 = callback P R e (emit (Callback e) (deliver e s))"
  by (simp add: step_def split: if_splits)

lemma reply_inv_step:
  assumes hi: "handshake_inv s" and ri: "reply_inv s" and st: "step P R e s = Some s1"
  shows "reply_inv s1 \<and>
         (state s \<noteq> S5_STREAMING \<and> state s1 = S5_STREAMING \<longrightarrow>
            (\<exists>status. e = ConnectDone status \<and> \<not> status < 0))"
proof -
  from reply_invD [OF ri] obtain ph where
    m: "reply_monitor NoReply (trace s) = Some ph" and
    p0: "ph = NoReply \<Longrightarrow> state s \<noteq> S5_STREAMING" and
    p1: "ph \<noteq> NoReply \<Longrightarrow> state s = S5_STREAMING" and
    pq: "ph = ReplyInFlight \<or> ph = ReplyFailed \<Longrightarrow>
       \<not> reading (client_tcp s) \<and> \<not> reading (upstream_tcp s) \<and>
       write_queue (upstream_tcp s) = [] \<and> length (write_queue (client_tcp s)) \<le> 1" and
    pf: "ph = ReplyFailed \<Longrightarrow> write_queue (client_tcp s) = []"
    by blast
  from step_callback [OF st] have en: "enabled e s"
    and s1: "s1 = callback P R e (emit (Callback e) (deliver e s))" by simp_all
  show ?thesis
  proof (cases e)
    case (ClientRead nread bytes)
    with en pq have ph: "ph = NoReply \<or> ph = ReplyDelivered" by (cases ph) auto
    let ?s = "emit (Callback e) (deliver e s)"
    have mk: "marks_of (trace s1) = marks_of (trace s) @
       (if 0 < nread \<and> state s = S5_STREAMING
        then [UvWrite UpstreamTcp ClientBuf (take (nat nread) (client_buf ?s))] else [])"
      unfolding s1 using ClientRead by (simp add: marks_client_read emit_def)
    have stt: "(state s1 = S5_STREAMING) = (state s = S5_STREAMING)"
      unfolding s1 using ClientRead by (simp add: state_client_read emit_def)
    from ph show ?thesis
    proof
      assume "ph = NoReply"
      with p0 mk m stt have "reply_monitor NoReply (trace s1) = Some NoReply"
        by (simp add: reply_monitor_step [OF _ m])
      with stt p0 \<open>ph = NoReply\<close> show ?thesis by (auto intro: reply_invI)
    next
      assume "ph = ReplyDelivered"
      with p1 mk m stt have "reply_monitor NoReply (trace s1) = Some ReplyDelivered"
        by (simp add: reply_monitor_step [OF _ m])
      with stt p1 \<open>ph = ReplyDelivered\<close> show ?thesis by (auto intro: reply_invI)
    qed
  next
    case (UpstreamRead nread bytes)
    with en pq have "ph = NoReply \<or> ph = ReplyDelivered" by (cases ph) auto
    moreover from UpstreamRead en handshake_inv_quiet [OF hi] have "state s = S5_STREAMING"
      by auto
    ultimately have ph: "ph = ReplyDelivered" using p0 by auto
    let ?s = "emit (Callback e) (deliver e s)"
    have mk: "marks_of (trace s1) = marks_of (trace s) @
       (if 0 < nread \<and> state s \<noteq> S5_STREAMING_END
        then [UvWrite ClientTcp UpstreamBuf (take (nat nread) (upstream_buf ?s))] else [])"
      unfolding s1 using UpstreamRead by (simp add: marks_upstream_read emit_def)
    have stt: "state s1 = state s"
      unfolding s1 using UpstreamRead by (simp add: state_upstream_read emit_def)
    from ph mk m have "reply_monitor NoReply (trace s1) = Some ReplyDelivered"
      by (simp add: reply_monitor_step [OF _ m])
    with stt p1 ph show ?thesis by (auto intro: reply_invI)
  next
    case (ClientWriteDone status)
    let ?s = "emit (Callback e) (deliver e s)"
    from ClientWriteDone en have wq: "write_queue (client_tcp s) \<noteq> []" by simp
    have mk: "marks_of (trace s1) = marks_of (trace s) @
       (Callback (ClientWriteDone status) #
        (if \<not> status < 0 \<and> state s = S5_STREAMING then [UvReadStart UpstreamTcp] else []))"
      unfolding s1 using ClientWriteDone by (simp add: marks_client_write_done emit_def)
    have stt: "state s1 = state s"
      unfolding s1 using ClientWriteDone by (simp add: state_client_write_done emit_def)
    show ?thesis
    proof (cases ph)
      case NoReply
      with p0 mk m have "reply_monitor NoReply (trace s1) = Some NoReply"
        by (simp add: reply_monitor_step [OF _ m])
      with stt p0 NoReply show ?thesis by (auto intro: reply_invI)
    next
      case ReplyInFlight
      with pq have q: "\<not> reading (client_tcp s)" "\<not> reading (upstream_tcp s)"
        "write_queue (upstream_tcp s) = []" "length (write_queue (client_tcp s)) \<le> 1"
        by simp_all
      from q(4) wq have tl: "tl (write_queue (client_tcp s)) = []"
        by (cases "write_queue (client_tcp s)") simp_all
      from ReplyInFlight p1 have ss: "state s = S5_STREAMING" by simp
      show ?thesis
      proof (cases "status < 0")
        case True
        with ReplyInFlight mk m have n: "reply_monitor NoReply (trace s1) = Some ReplyFailed"
          by (simp add: reply_monitor_step [OF _ m])
        from True have "s1 = close_session ?s"
          unfolding s1 using ClientWriteDone by (simp add: on_client_write_done_def)
        with q tl ClientWriteDone have
          "\<not> reading (client_tcp s1)" "\<not> reading (upstream_tcp s1)"
          "write_queue (upstream_tcp s1) = []" "write_queue (client_tcp s1) = []"
          by (simp_all add: emit_def)
        with n stt ss show ?thesis by (auto intro: reply_invI)
      next
        case False
        with ReplyInFlight ss mk m have "reply_monitor NoReply (trace s1) = Some ReplyDelivered"
          by (simp add: reply_monitor_step [OF _ m])
        with stt ss show ?thesis by (auto intro: reply_invI)
      qed
    next
      case ReplyDelivered
      with p1 mk m have "reply_monitor NoReply (trace s1) = Some ReplyDelivered"
        by (simp add: reply_monitor_step [OF _ m])
      with stt p1 ReplyDelivered show ?thesis by (auto intro: reply_invI)
    next
      case ReplyFailed
      with pf wq show ?thesis by simp
    qed
  next
    case (UpstreamWriteDone status)
    with en have wq: "write_queue (upstream_tcp s) \<noteq> []" by simp
    with pq have "ph = NoReply \<or> ph = ReplyDelivered" by (cases ph) auto
    moreover from wq handshake_inv_quiet [OF hi] have "state s = S5_STREAMING" by auto
    ultimately have ph: "ph = ReplyDelivered" using p0 by auto
    have mk: "marks_of (trace s1) = marks_of (trace s) @ []"
      unfolding s1 using UpstreamWriteDone by (simp add: marks_upstream_write_done emit_def)
    have stt: "state s1 = state s"
      unfolding s1 using UpstreamWriteDone by (simp add: state_upstream_write_done emit_def)
    from ph have "reply_monitor NoReply (trace s1) = Some ReplyDelivered"
      by (simp add: reply_monitor_step [OF mk m])
    with stt p1 ph show ?thesis by (auto intro: reply_invI)
  next
    case (ConnectDone status)
    let ?s = "emit (Callback e) (deliver e s)"
    from ConnectDone en have pend: "upstream_connect_req s \<noteq> None" by simp
    with hi have f: "state s = S5_REQUEST" "\<not> reading (client_tcp s)"
      "write_queue (client_tcp s) = []"
      unfolding handshake_inv_def by blast+
    with handshake_inv_quiet [OF hi] have
      q: "\<not> reading (upstream_tcp s)" "write_queue (upstream_tcp s) = []" by simp_all
    from f p1 have ph: "ph = NoReply" by (cases ph) auto
    have stt: "state s1 = (if status < 0 then S5_STREAMING_END else S5_STREAMING)"
      unfolding s1 using ConnectDone by (simp add: upstream_connect_cb_state)
    show ?thesis
    proof (cases "status < 0")
      case True
      have mk: "marks_of (trace s1) = marks_of (trace s) @ []"
        unfolding s1 using ConnectDone True by (simp add: marks_connect_cb emit_def)
      from ph have "reply_monitor NoReply (trace s1) = Some NoReply"
        by (simp add: reply_monitor_step [OF mk m])
      with stt True show ?thesis by (auto intro: reply_invI)
    next
      case False
      have mk: "marks_of (trace s1) = marks_of (trace s) @
          [UvWrite ClientTcp ClientBuf
             (take (if bound_ip_ver (g_server_ctx P) = IPV4 then 10 else 22) (client_buf s1))]"
        unfolding s1 using ConnectDone False by (simp add: marks_connect_cb emit_def)
      from ph have n: "reply_monitor NoReply (trace s1) = Some ReplyInFlight"
        by (simp add: reply_monitor_step [OF mk m])
      from connect_cb_fields [OF False, of P R ?s] f q ConnectDone have
        "\<not> reading (client_tcp s1)" "\<not> reading (upstream_tcp s1)"
        "write_queue (upstream_tcp s1) = []" "length (write_queue (client_tcp s1)) \<le> 1"
        unfolding s1 by (simp_all add: emit_def)
      with n stt False ConnectDone show ?thesis by (auto intro: reply_invI)
    qed
  next
    case (AddrinfoDone status res)
    from AddrinfoDone en have pend: "upstream_addrinfo_req s \<noteq> None" by simp
    with hi have f: "state s = S5_REQUEST" unfolding handshake_inv_def by blast
    with p1 have ph: "ph = NoReply" by (cases ph) auto
    have mk: "marks_of (trace s1) = marks_of (trace s) @ []"
      unfolding s1 using AddrinfoDone by (simp add: marks_connect_domain emit_def)
    have stt: "state s1 \<noteq> S5_STREAMING"
      unfolding s1 using AddrinfoDone f by (simp add: marks_connect_domain emit_def)
    from ph have "reply_monitor NoReply (trace s1) = Some NoReply"
      by (simp add: reply_monitor_step [OF mk m])
    with stt show ?thesis by (auto intro: reply_invI)
  next
    case ClientClosed
    have mk: "marks_of (trace s1) = marks_of (trace s) @ []"
      unfolding s1 using ClientClosed by (simp add: emit_def)
    have k: "state s1 = state s" "reading (client_tcp s1) = reading (client_tcp s)"
      "reading (upstream_tcp s1) = reading (upstream_tcp s)"
      "write_queue (client_tcp s1) = write_queue (client_tcp s)"
      "write_queue (upstream_tcp s1) = write_queue (upstream_tcp s)"
      unfolding s1 using ClientClosed by (simp_all add: emit_def)
    have "reply_monitor NoReply (trace s1) = Some ph"
      by (simp add: reply_monitor_step [OF mk m])
    with k p0 p1 pq pf show ?thesis by (auto intro!: reply_invI)
  next
    case TimerFired
    have mk: "marks_of (trace s1) = marks_of (trace s) @ []"
      unfolding s1 using TimerFired by (simp add: emit_def)
    have k: "state s1 = state s" "reading (client_tcp s1) = reading (client_tcp s)"
      "reading (upstream_tcp s1) = reading (upstream_tcp s)"
      "write_queue (client_tcp s1) = write_queue (client_tcp s)"
      "write_queue (upstream_tcp s1) = write_queue (upstream_tcp s)"
      unfolding s1 using TimerFired by (simp_all add: emit_def)
    have "reply_monitor NoReply (trace s1) = Some ph"
      by (simp add: reply_monitor_step [OF mk m])
    with k p0 p1 pq pf show ?thesis by (auto intro!: reply_invI)
  next
    case TimerClosed
    have mk: "marks_of (trace s1) = marks_of (trace s) @ []"
      unfolding s1 using TimerClosed by (simp add: emit_def)
    have k: "state s1 = state s" "reading (client_tcp s1) = reading (client_tcp s)"
      "reading (upstream_tcp s1) = reading (upstream_tcp s)"
      "write_queue (client_tcp s1) = write_queue (client_tcp s)"
      "write_queue (upstream_tcp s1) = write_queue (upstream_tcp s)"
      unfolding s1 using TimerClosed by (simp_all add: emit_def)
    have "reply_monitor NoReply (trace s1) = Some ph"
      by (simp add: reply_monitor_step [OF mk m])
    with k p0 p1 pq pf show ?thesis by (auto intro!: reply_invI)
  qed
qed


lemma reply_inv_run:
  "handshake_inv s0 \<Longrightarrow> reply_inv s0 \<Longrightarrow> run P evs s0 = Some s \<Longrightarrow>
   handshake_inv s \<and> reply_inv s"
proof (induction evs arbitrary: s0)
  case Nil
  then show ?case by simp
next
  case (Cons re evs)
  obtain R e where re: "re = (R, e)" by (cases re)
  with Cons.prems(3) obtain s1 where
    s1: "step P R e s0 = Some s1" "run P evs s1 = Some s" by (auto split: option.splits)
  from inv_step [OF Cons.prems(1) s1(1)] reply_inv_step [OF Cons.prems(1) Cons.prems(2) s1(1)]
    Cons.IH [OF _ _ s1(2)]
  show ?case by blast
qed

lemma reply_inv_on_connection_new:
  assumes "fresh mem"
  shows "reply_inv (on_connection_new R mem)"
proof -
  have "marks_of (trace (on_connection_new R mem)) = []"
    "state (on_connection_new R mem) = S5_METHOD_IDENTIFICATION"
    using assms
    by (simp_all add: fresh_def idle_stream_def on_connection_new_def create_session_def
        uv_tcp_init_def uv_tcp_keepalive_def uv_accept_def emit_def set_tcp_def Let_def split_def)
  then show ?thesis
    by (simp add: reply_inv_def reply_monitor_marks [of _ "trace (on_connection_new R mem)"])
qed

text \<open>
  C4. For every session reached from an accepted connection, the monitor accepts the
  trace: at most one success reply is handed to \<open>uv_write\<close>, and every write to
  upstream, every write of upstream data to the client and every start of reading on
  upstream comes after the success reply and after the write callback of the client
  that followed it with a status that is not negative. The phase is Streaming exactly
  when the success reply has been written; while that write is in flight neither
  endpoint reads, nothing is being written to upstream, and no other write to the
  client is in flight. A callback moves the session into Streaming only if it is the
  connect callback with a status that is not negative.
\<close>

theorem streaming_only_after_success_reply:
  assumes "fresh mem" and "run P evs (on_connection_new R0 mem) = Some s"
  shows "\<exists>ph. reply_monitor NoReply (trace s) = Some ph \<and>
           (state s = S5_STREAMING \<longleftrightarrow> ph \<noteq> NoReply) \<and>
           (ph = ReplyInFlight \<longrightarrow>
              \<not> reading (client_tcp s) \<and> \<not> reading (upstream_tcp s) \<and>
              write_queue (upstream_tcp s) = [] \<and> length (write_queue (client_tcp s)) \<le> 1) \<and>
           (\<forall>R e s1. step P R e s = Some s1 \<and> state s \<noteq> S5_STREAMING \<and>
                      state s1 = S5_STREAMING \<longrightarrow>
                (\<exists>status. e = ConnectDone status \<and> \<not> status < 0))"
proof -
  from reply_inv_run [OF inv_on_connection_new [OF assms(1)]
      reply_inv_on_connection_new [OF assms(1)] assms(2)]
  have hi: "handshake_inv s" and ri: "reply_inv s" by simp_all
  from reply_invD [OF ri] obtain ph where
    ph: "reply_monitor NoReply (trace s) = Some ph"
      "ph = NoReply \<longrightarrow> state s \<noteq> S5_STREAMING"
      "ph \<noteq> NoReply \<longrightarrow> state s = S5_STREAMING"
      "ph = ReplyInFlight \<or> ph = ReplyFailed \<longrightarrow>
         \<not> reading (client_tcp s) \<and> \<not> reading (upstream_tcp s) \<and>
         write_queue (upstream_tcp s) = [] \<and> length (write_queue (client_tcp s)) \<le> 1"
    by blast
  have "\<exists>status. e = ConnectDone status \<and> \<not> status < 0"
    if "step P R e s = Some s1 \<and> state s \<noteq> S5_STREAMING \<and> state s1 = S5_STREAMING"
    for R e s1
    using reply_inv_step [OF hi ri, of P R e s1] that by blast
  with ph show ?thesis by blast
qed

text \<open>The handshake of the default program ends in Streaming with the reply
  delivered.\<close>

lemma handshake_monitor:
  "\<exists>s. run default_params handshake_events (on_connection_new rets_ok zero_mem) = Some s \<and>
       reply_monitor NoReply (trace s) = Some ReplyDelivered"
  by (simp add: handshake_events_def step_def read_ok_def handler_defs write_defs uv_defs
      default_defs memcpy_def int_bytes_def Let_def split_def)

theorem streaming_only_after_success_reply_witness:
  "\<exists>s. run default_params handshake_events (on_connection_new rets_ok zero_mem) = Some s \<and>
       reply_monitor NoReply (trace s) = Some ReplyDelivered \<and> state s = S5_STREAMING"
proof -
  from handshake_monitor obtain s where
    s: "run default_params handshake_events (on_connection_new rets_ok zero_mem) = Some s"
       "reply_monitor NoReply (trace s) = Some ReplyDelivered" by blast
  from streaming_only_after_success_reply [OF fresh_zero_mem s(1)] s(2)
  have "state s = S5_STREAMING" by auto
  with s show ?thesis by blast
qed

section \<open>Closing and freeing the session\<close>

lemma timer_obs_append [simp]:
  "trace s1 = trace s @ xs \<Longrightarrow>
   timer_inits s1 = timer_inits s + length (filter (\<lambda>x. x = UvTimerInit) xs)"
  "trace s1 = trace s @ xs \<Longrightarrow>
   timer_closed s1 = (timer_closed s \<or> Callback TimerClosed \<in> set xs)"
  by (auto simp: timer_inits_def timer_closed_def)

lemma close_entries_timer [simp]:
  "filter (\<lambda>x. x = UvTimerInit) (close_entries a b) = (if b then [UvTimerInit] else [])"
  "Callback TimerClosed \<notin> set (close_entries a b)"
  by (simp_all add: close_entries_def)

lemma timer_step_refl: "timer_step s s"
  by (simp add: timer_step_def)

lemma timer_step_trans: "timer_step s s1 \<Longrightarrow> timer_step s1 s2 \<Longrightarrow> timer_step s s2"
  unfolding timer_step_def by (auto split: if_splits)

lemma timer_step_same:
  "trace s1 = trace s @ xs \<Longrightarrow> UvTimerInit \<notin> set xs \<Longrightarrow> Callback TimerClosed \<notin> set xs \<Longrightarrow>
   freed s1 = freed s \<Longrightarrow> timer_release_req s1 = timer_release_req s \<Longrightarrow> timer_step s s1"
  by (simp add: timer_step_def filter_empty_conv)

lemma timer_step_close_session: "timer_step s (close_session s)"
  by (simp add: timer_step_def timer_obs_append [of "close_session s" s])

lemma timer_step_starts:
  "timer_step s (snd (client_read_start R s))"
  "timer_step s (snd (upstream_read_start R s))"
  "timer_step s (snd (client_write_start R base bytes s))"
  "timer_step s (snd (upstream_write_start R base bytes s))"
  by (simp_all add: timer_step_def
      timer_obs_append [of "snd (client_read_start R s)" s]
      timer_obs_append [of "snd (upstream_read_start R s)" s]
      timer_obs_append [of "snd (client_write_start R base bytes s)" s]
      timer_obs_append [of "snd (upstream_write_start R base bytes s)" s])


lemmas timer_step_unfold = timer_step_def timer_inits_def timer_closed_def

lemma timer_step_on_upstream_write_done: "timer_step s (on_upstream_write_done R status s)"
  by (simp add: on_upstream_write_done_def timer_step_close_session timer_step_starts)

lemma timer_step_on_upstream_read_done: "timer_step s (on_upstream_read_done R nread s)"
  by (simp add: on_upstream_read_done_def timer_step_unfold Let_def)

lemma timer_step_on_client_write_done: "timer_step s (on_client_write_done R status s)"
  by (simp add: on_client_write_done_def timer_step_unfold Let_def)

lemma timer_step_upstream_connect_cb: "timer_step s (upstream_connect_cb P R status s)"
  by (simp add: upstream_connect_cb_def timer_step_unfold Let_def op_views)


lemma timer_step_client_write_error: "timer_step s (snd (client_write_error P R err s))"
  by (simp add: timer_step_unfold op_views)

lemma timer_step_trace:
  "timer_step (s\<lparr>trace := trace s @ [UvTcpConnect a]\<rparr>) s1 \<Longrightarrow> timer_step s s1"
  by (simp add: timer_step_unfold split: if_splits)

lemma timer_step_upstream_connect_domain_loop:
  "timer_step s (upstream_connect_domain_loop P R err res s)"
proof (induction res arbitrary: s err)
  case Nil
  show ?case by (simp add: timer_step_client_write_error)
next
  case (Cons ai res)
  have attempt: "timer_step s
               (let (err1, s1) = upstream_connect R a s
                in if err1 \<noteq> 0 then upstream_connect_domain_loop P R err1 res s1 else s1)" for a
  proof (cases "uv_tcp_connect_ret R a = 0")
    case True
    then show ?thesis
      by (simp add: upstream_connect_effect timer_step_unfold)
  next
    case False
    with timer_step_trace [OF Cons.IH [of "s\<lparr>trace := trace s @ [UvTcpConnect a]\<rparr>"
        "uv_tcp_connect_ret R a"]]
    show ?thesis by (simp add: upstream_connect_effect)
  qed
  show ?case
  proof (cases "ai_family ai")
    case AF_INET
    with attempt show ?thesis by simp
  next
    case AF_INET6
    with attempt show ?thesis by simp
  next
    case (AF_OTHER f)
    with Cons.IH show ?thesis by simp
  qed
qed

lemma timer_step_upstream_connect_domain:
  "timer_step s (upstream_connect_domain P R status res s)"
  by (simp add: upstream_connect_domain_def timer_step_client_write_error
      timer_step_upstream_connect_domain_loop)



lemma timer_step_connect_or_error:
  "timer_step s (if fst (upstream_connect R a s) \<noteq> 0
                 then snd (client_write_error P R (fst (upstream_connect R a s))
                             (snd (upstream_connect R a s)))
                 else snd (upstream_connect R a s))"
  by (simp add: timer_step_unfold op_views)

lemma timer_step_getaddrinfo_or_error:
  "timer_step s (if fst (uv_getaddrinfo R node s) \<noteq> 0
                 then snd (client_write_error P R (fst (uv_getaddrinfo R node s))
                             (snd (uv_getaddrinfo R node s)))
                 else snd (uv_getaddrinfo R node s))"
  by (simp add: timer_step_unfold op_views)

lemma timer_step_request:
  assumes "0 < nread" "state s = S5_REQUEST"
  shows "timer_step s (on_client_read_done P R nread s)"
proof -
  define s1 where "s1 = (uv_read_stop ClientTcp s)
    \<lparr>socks5_ctx := snd (socks5_parse_request P (socks5_ctx s) (take (nat nread) (client_buf s)))\<rparr>"
  have a: "timer_step s s1"
    by (simp add: s1_def timer_step_unfold)
  have "timer_step s1 (on_client_read_done P R nread s)"
    using assms unfolding on_client_read_done_def
    by (simp add: split_def Let_def s1_def [symmetric] timer_step_connect_or_error
        timer_step_getaddrinfo_or_error timer_step_client_write_error)
  with a show ?thesis by (rule timer_step_trans)
qed

lemma timer_step_on_client_read_done: "timer_step s (on_client_read_done P R nread s)"
proof -
  consider "nread = 0" | "nread < 0" | "0 < nread" by linarith
  then show ?thesis
  proof cases
    case 1
    then show ?thesis by (simp add: on_client_read_done_def timer_step_refl)
  next
    case 2
    then show ?thesis by (simp add: on_client_read_done_def timer_step_unfold)
  next
    case 3
    show ?thesis
    proof (cases "state s")
      case S5_METHOD_IDENTIFICATION
      with 3 show ?thesis
        by (simp add: on_client_read_done_def timer_step_unfold op_views Let_def split_def)
    next
      case S5_REQUEST
      with 3 show ?thesis by (simp add: timer_step_request)
    next
      case S5_STREAMING
      with 3 show ?thesis
        by (simp add: on_client_read_done_def timer_step_unfold op_views Let_def split_def)
    next
      case S5_STREAMING_END
      with 3 show ?thesis
        by (simp add: on_client_read_done_def timer_step_unfold op_views Let_def split_def)
    qed
  qed
qed


lemma timer_inv_timer_step:
  assumes "timer_inv s" "timer_step s s1"
  shows "timer_inv s1"
proof (cases "timer_inits s1 = timer_inits s")
  case True
  with assms show ?thesis by (simp add: timer_inv_def timer_step_def)
next
  case False
  with assms(2) have f: "timer_inits s < timer_inits s1" "timer_active (timer_release_req s1)"
    "\<not> timer_closing (timer_release_req s1)" "freed s1 = freed s"
    "timer_closed s1 = timer_closed s"
    "timer_close_cb (timer_release_req s1) = timer_close_cb (timer_release_req s)"
    by (simp_all add: timer_step_def)
  show ?thesis
  proof (cases "timer_inits s1 = Suc 0")
    case True
    with f(1) have "timer_inits s = 0" by simp
    with assms(1) have "\<not> timer_close_cb (timer_release_req s)" "freed s = 0" "\<not> timer_closed s"
      by (simp_all add: timer_inv_def timer_phase_def)
    with f True show ?thesis by (simp add: timer_inv_def timer_phase_def)
  next
    case False
    with f(1) show ?thesis by (simp add: timer_inv_def timer_phase_def)
  qed
qed

lemma timer_inv_delivered:
  "e \<noteq> ClientClosed \<Longrightarrow> e \<noteq> TimerFired \<Longrightarrow> e \<noteq> TimerClosed \<Longrightarrow>
   timer_inv (emit (Callback e) (deliver e s)) = timer_inv s"
  by (cases e) (simp_all add: timer_inv_def timer_inits_def timer_closed_def emit_def)

lemma timer_step_callback:
  "e \<noteq> ClientClosed \<Longrightarrow> e \<noteq> TimerFired \<Longrightarrow> e \<noteq> TimerClosed \<Longrightarrow>
   timer_step s (callback P R e s)"
  by (cases e)
    (simp_all add: timer_step_on_client_read_done timer_step_on_upstream_read_done
      timer_step_on_client_write_done timer_step_on_upstream_write_done
      timer_step_upstream_connect_cb timer_step_upstream_connect_domain)

lemma timer_inv_step:
  assumes inv: "timer_inv s" and st: "step P R e s = Some s1"
  shows "timer_inv s1"
proof -
  from st have en: "enabled e s" and s1: "s1 = callback P R e (emit (Callback e) (deliver e s))"
    by (simp_all add: step_def split: if_splits)
  consider "e = ClientClosed" | "e = TimerFired" | "e = TimerClosed"
    | "e \<noteq> ClientClosed" "e \<noteq> TimerFired" "e \<noteq> TimerClosed" by blast
  then show ?thesis
  proof cases
    case 1
    with inv show ?thesis unfolding s1
      by (simp add: timer_inv_def timer_phase_def timer_inits_def timer_closed_def
          client_handle_close_cb_def schedule_release_timer_def uv_defs Let_def split: if_splits)
  next
    case 2
    with inv en show ?thesis unfolding s1
      by (simp add: timer_inv_def timer_phase_def timer_inits_def timer_closed_def
          release_timer_cb_def uv_defs Let_def split: if_splits)
  next
    case 3
    with inv en show ?thesis unfolding s1
      by (simp add: timer_inv_def timer_phase_def timer_inits_def timer_closed_def
          release_timer_handle_close_cb_def uv_defs Let_def split: if_splits)
  next
    case 4
    from timer_inv_timer_step [OF _ timer_step_callback [OF 4]] timer_inv_delivered [OF 4] inv
    show ?thesis unfolding s1 by blast
  qed
qed

lemma timer_inv_run:
  "timer_inv s0 \<Longrightarrow> run P evs s0 = Some s \<Longrightarrow> timer_inv s"
proof (induction evs arbitrary: s0)
  case Nil
  then show ?case by simp
next
  case (Cons re evs)
  obtain R e where re: "re = (R, e)" by (cases re)
  with Cons.prems(2) obtain s1 where
    "step P R e s0 = Some s1" "run P evs s1 = Some s" by (auto split: option.splits)
  with Cons.IH timer_inv_step [OF Cons.prems(1)] show ?case by blast
qed

lemma timer_inv_on_connection_new:
  "fresh mem \<Longrightarrow> timer_inv (on_connection_new R mem)"
  by (simp add: timer_inv_def timer_phase_def timer_inits_def timer_closed_def
      fresh_def idle_stream_def on_connection_new_def create_session_def
      uv_tcp_init_def uv_tcp_keepalive_def uv_accept_def emit_def set_tcp_def Let_def split_def)

lemma client_step_refl: "client_step s s"
  by (simp add: client_step_def)

lemma client_step_trans: "client_step s s1 \<Longrightarrow> client_step s1 s2 \<Longrightarrow> client_step s s2"
  unfolding client_step_def by blast

lemma client_step_close_session: "client_step s (close_session s)"
  by (simp add: client_step_def)

lemma client_step_starts:
  "client_step s (snd (client_read_start R s))"
  "client_step s (snd (upstream_read_start R s))"
  "client_step s (snd (client_write_start R base bytes s))"
  "client_step s (snd (upstream_write_start R base bytes s))"
  by (simp_all add: client_step_def)

lemma client_step_on_upstream_write_done: "client_step s (on_upstream_write_done R status s)"
  by (simp add: on_upstream_write_done_def client_step_close_session client_step_starts)

lemma client_step_on_upstream_read_done: "client_step s (on_upstream_read_done R nread s)"
  by (simp add: on_upstream_read_done_def client_step_def Let_def)

lemma client_step_on_client_write_done: "client_step s (on_client_write_done R status s)"
  by (simp add: on_client_write_done_def client_step_def Let_def)

lemma client_step_upstream_connect_cb: "client_step s (upstream_connect_cb P R status s)"
  by (simp add: upstream_connect_cb_def client_step_def Let_def op_views)

lemma client_step_client_write_error: "client_step s (snd (client_write_error P R err s))"
  by (simp add: client_step_def op_views)

lemma client_step_trace:
  "client_step (s\<lparr>trace := tr\<rparr>) s1 \<Longrightarrow> client_step s s1"
  by (simp add: client_step_def)

lemma client_step_upstream_connect_domain_loop:
  "client_step s (upstream_connect_domain_loop P R err res s)"
proof (induction res arbitrary: s err)
  case Nil
  show ?case by (simp add: client_step_client_write_error)
next
  case (Cons ai res)
  have attempt: "client_step s
               (let (err1, s1) = upstream_connect R a s
                in if err1 \<noteq> 0 then upstream_connect_domain_loop P R err1 res s1 else s1)" for a
  proof (cases "uv_tcp_connect_ret R a = 0")
    case True
    then show ?thesis
      by (simp add: upstream_connect_effect client_step_def)
  next
    case False
    with client_step_trace [OF Cons.IH [of "s\<lparr>trace := trace s @ [UvTcpConnect a]\<rparr>"
        "uv_tcp_connect_ret R a"]]
    show ?thesis by (simp add: upstream_connect_effect)
  qed
  show ?case
  proof (cases "ai_family ai")
    case AF_INET
    with attempt show ?thesis by simp
  next
    case AF_INET6
    with attempt show ?thesis by simp
  next
    case (AF_OTHER f)
    with Cons.IH show ?thesis by simp
  qed
qed

lemma client_step_upstream_connect_domain:
  "client_step s (upstream_connect_domain P R status res s)"
  by (simp add: upstream_connect_domain_def client_step_client_write_error
      client_step_upstream_connect_domain_loop)

lemma client_step_connect_or_error:
  "client_step s (if fst (upstream_connect R a s) \<noteq> 0
                 then snd (client_write_error P R (fst (upstream_connect R a s))
                             (snd (upstream_connect R a s)))
                 else snd (upstream_connect R a s))"
  by (simp add: client_step_def op_views)

lemma client_step_getaddrinfo_or_error:
  "client_step s (if fst (uv_getaddrinfo R node s) \<noteq> 0
                 then snd (client_write_error P R (fst (uv_getaddrinfo R node s))
                             (snd (uv_getaddrinfo R node s)))
                 else snd (uv_getaddrinfo R node s))"
  by (simp add: client_step_def op_views)

lemma client_step_request:
  assumes "0 < nread" "state s = S5_REQUEST"
  shows "client_step s (on_client_read_done P R nread s)"
proof -
  define s1 where "s1 = (uv_read_stop ClientTcp s)
    \<lparr>socks5_ctx := snd (socks5_parse_request P (socks5_ctx s) (take (nat nread) (client_buf s)))\<rparr>"
  have a: "client_step s s1"
    by (simp add: s1_def client_step_def)
  have "client_step s1 (on_client_read_done P R nread s)"
    using assms unfolding on_client_read_done_def
    by (simp add: split_def Let_def s1_def [symmetric] client_step_connect_or_error
        client_step_getaddrinfo_or_error client_step_client_write_error)
  with a show ?thesis by (rule client_step_trans)
qed

lemma client_step_on_client_read_done: "client_step s (on_client_read_done P R nread s)"
proof -
  consider "nread = 0" | "nread < 0" | "0 < nread" by linarith
  then show ?thesis
  proof cases
    case 1
    then show ?thesis by (simp add: on_client_read_done_def client_step_refl)
  next
    case 2
    then show ?thesis by (simp add: on_client_read_done_def client_step_def)
  next
    case 3
    show ?thesis
    proof (cases "state s")
      case S5_METHOD_IDENTIFICATION
      with 3 show ?thesis
        by (simp add: on_client_read_done_def client_step_def op_views Let_def split_def)
    next
      case S5_REQUEST
      with 3 show ?thesis by (simp add: client_step_request)
    next
      case S5_STREAMING
      with 3 show ?thesis
        by (simp add: on_client_read_done_def client_step_def op_views Let_def split_def)
    next
      case S5_STREAMING_END
      with 3 show ?thesis
        by (simp add: on_client_read_done_def client_step_def op_views Let_def split_def)
    qed
  qed
qed

lemma client_step_callback:
  "e \<noteq> ClientClosed \<Longrightarrow> e \<noteq> TimerFired \<Longrightarrow> e \<noteq> TimerClosed \<Longrightarrow>
   client_step s (callback P R e s)"
  by (cases e)
    (simp_all add: client_step_on_client_read_done client_step_on_upstream_read_done
      client_step_on_client_write_done client_step_on_upstream_write_done
      client_step_upstream_connect_cb client_step_upstream_connect_domain)

lemma timer_step_mono: "timer_step s s1 \<Longrightarrow> timer_inits s \<le> timer_inits s1"
  by (simp add: timer_step_def split: if_splits)

lemma chain_inv_client_step:
  "chain_inv s \<Longrightarrow> client_step s s1 \<Longrightarrow> timer_inits s \<le> timer_inits s1 \<Longrightarrow> chain_inv s1"
  unfolding chain_inv_def client_step_def by (cases "closing (client_tcp s)") auto

lemma delivered_client:
  "e \<noteq> ClientClosed \<Longrightarrow>
   closing (client_tcp (emit (Callback e) (deliver e s))) = closing (client_tcp s) \<and>
   close_cb (client_tcp (emit (Callback e) (deliver e s))) = close_cb (client_tcp s)"
  by (cases e) (simp_all add: emit_def)

lemma delivered_inits:
  "timer_inits (emit (Callback e) (deliver e s)) = timer_inits s"
  by (cases e) (simp_all add: emit_def timer_inits_def)

lemma chain_inv_step:
  assumes inv: "chain_inv s" and st: "step P R e s = Some s1"
  shows "chain_inv s1"
proof -
  from st have en: "enabled e s" and s1: "s1 = callback P R e (emit (Callback e) (deliver e s))"
    by (simp_all add: step_def split: if_splits)
  consider "e = ClientClosed" | "e = TimerFired" | "e = TimerClosed"
    | "e \<noteq> ClientClosed" "e \<noteq> TimerFired" "e \<noteq> TimerClosed" by blast
  then show ?thesis
  proof cases
    case 1
    then show ?thesis unfolding s1
      by (simp add: chain_inv_def timer_inits_def client_handle_close_cb_def
          schedule_release_timer_def uv_defs Let_def)
  next
    case 2
    with inv show ?thesis unfolding s1
      by (simp add: chain_inv_def timer_inits_def release_timer_cb_def uv_defs Let_def)
  next
    case 3
    with inv show ?thesis unfolding s1
      by (simp add: chain_inv_def timer_inits_def release_timer_handle_close_cb_def uv_defs
          Let_def)
  next
    case 4
    let ?d = "emit (Callback e) (deliver e s)"
    from inv delivered_client [OF 4(1), of s] delivered_inits [of e s]
    have "chain_inv ?d" by (simp add: chain_inv_def)
    from chain_inv_client_step [OF this client_step_callback [OF 4]
        timer_step_mono [OF timer_step_callback [OF 4]]]
    show ?thesis unfolding s1 .
  qed
qed

lemma chain_inv_run:
  "chain_inv s0 \<Longrightarrow> run P evs s0 = Some s \<Longrightarrow> chain_inv s"
proof (induction evs arbitrary: s0)
  case Nil
  then show ?case by simp
next
  case (Cons re evs)
  obtain R e where re: "re = (R, e)" by (cases re)
  with Cons.prems(2) obtain s1 where
    "step P R e s0 = Some s1" "run P evs s1 = Some s" by (auto split: option.splits)
  with Cons.IH chain_inv_step [OF Cons.prems(1)] show ?case by blast
qed

lemma chain_inv_on_connection_new:
  "fresh mem \<Longrightarrow> chain_inv (on_connection_new R mem)"
  by (simp add: chain_inv_def fresh_def idle_stream_def on_connection_new_def
      create_session_def uv_tcp_init_def uv_tcp_keepalive_def uv_accept_def emit_def
      set_tcp_def Let_def split_def)

lemma close_once_run:
  "\<exists>s. run default_params close_once_events (on_connection_new rets_ok zero_mem) = Some s \<and>
       timer_inits s = 1 \<and> timer_closed s"
  by (simp add: close_once_events_def timer_inits_def timer_closed_def close_entries_def
      run_defs)

lemma closing_run:
  "\<exists>s. run default_params (take 1 close_once_events) (on_connection_new rets_ok zero_mem)
         = Some s \<and>
       closing (client_tcp s) \<and> timer_inits s = 0 \<and> freed s = 0 \<and>
       \<not> timer_active (timer_release_req s) \<and> \<not> timer_close_cb (timer_release_req s)"
  by (simp add: close_once_events_def timer_inits_def close_entries_def run_defs)




end
